(* ===== verification/Prelude.thy ===== *)
theory Prelude
  imports Complex_Main "HOL-Library.Word" "HOL-Library.Multiset"
begin

text \<open>
  Shared ground of the development: the Go integer width, the error values every fallible
  operation returns, stable sorting (\<open>sort.SliceStable\<close>), and the generic lemmas on lists,
  options and maps that several components use. The collections \<open>inv_simps\<close> and
  \<open>step_simps\<close> gather the unfolding rules of the invariants and of the step functions of the
  component theories.
\<close>

named_theorems inv_simps
  \<open>definitions of the components' invariants\<close>
named_theorems step_simps
  \<open>definitions of the components' operations, to be unfolded in preservation proofs\<close>

section \<open>Machine integers\<close>

text \<open>
  Go's \<open>int\<close>, \<open>int64\<close> and \<open>time.Duration\<close> are 64-bit two's complement integers. The model keeps
  them as \<^typ>\<open>int\<close> and writes the wrap-around out with \<open>i64\<close> wherever the code can overflow.
\<close>

definition i64 :: "int \<Rightarrow> int" where
  "i64 x = (x + 2 ^ 63) mod 2 ^ 64 - 2 ^ 63"

definition MaxInt64 :: int where
  "MaxInt64 = 2 ^ 63 - 1"

definition MinInt64 :: int where
  "MinInt64 = - (2 ^ 63)"

definition in_i64 :: "int \<Rightarrow> bool" where
  "in_i64 x \<longleftrightarrow> MinInt64 \<le> x \<and> x \<le> MaxInt64"

lemma i64_in_range [simp]: "in_i64 (i64 x)"
proof -
  have "0 \<le> (x + 2 ^ 63) mod 2 ^ 64" and "(x + 2 ^ 63) mod 2 ^ 64 < 2 ^ 64"
    by simp_all
  then show ?thesis
    by (simp add: in_i64_def i64_def MinInt64_def MaxInt64_def)
qed

lemma i64_id: "in_i64 x \<Longrightarrow> i64 x = x"
  by (simp add: in_i64_def i64_def MinInt64_def MaxInt64_def)

lemma i64_idem [simp]: "i64 (i64 x) = i64 x"
  by (rule i64_id) simp

lemma i64_eq_sint: "i64 x = sint (word_of_int x :: 64 word)"
  by (simp add: i64_def int_word_sint)

definition clamp_i64 :: "int \<Rightarrow> int" where
  "clamp_i64 x = (if x > MaxInt64 then MaxInt64 else if x < MinInt64 then MinInt64 else x)"

lemma clamp_i64_in_range [simp]: "in_i64 (clamp_i64 x)"
  by (simp add: clamp_i64_def in_i64_def MinInt64_def MaxInt64_def)

lemma clamp_i64_id: "in_i64 x \<Longrightarrow> clamp_i64 x = x"
  by (simp add: clamp_i64_def in_i64_def)

section \<open>Errors as values\<close>

text \<open>
  A Go \<open>error\<close> is a value with a text and, for \<open>fmt.Errorf\<close> with \<open>%w\<close>, a chain that
  \<open>errors.Is\<close> and \<open>errors.As\<close> walk. \<open>Wrap pre e post\<close> is \<open>fmt.Errorf("pre%wpost", e)\<close>;
  \<open>Joined\<close> is \<open>errors.Join\<close>; the sentinels of the program and of the packages it tests against
  are constructors of their own.
\<close>

datatype go_error =
    Err string
  | Wrap string go_error string
  | Joined "go_error list"
  | ErrNotFound
  | ErrCanceled
  | ErrDaemonUnreachable
  | IpcError (ipc_code: string) (ipc_message: string)
  | UsageError go_error

type_synonym 'a result = "go_error + 'a"

fun join_lines :: "string list \<Rightarrow> string" where
  "join_lines [] = []"
| "join_lines [x] = x"
| "join_lines (x # y # ys) = x @ ''\<newline>'' @ join_lines (y # ys)"

fun err_text :: "go_error \<Rightarrow> string" where
  "err_text (Err s) = s"
| "err_text (Wrap pre e post) = pre @ err_text e @ post"
| "err_text (Joined es) = join_lines (map err_text es)"
| "err_text ErrNotFound = ''not found''"
| "err_text ErrCanceled = ''context canceled''"
| "err_text ErrDaemonUnreachable = ''daemon unreachable''"
| "err_text (IpcError c m) = c @ '': '' @ m"
| "err_text (UsageError e) = err_text e"

text \<open>\<open>errors.Is(err, target)\<close> for a sentinel target.\<close>

fun errors_Is :: "go_error \<Rightarrow> go_error \<Rightarrow> bool" where
  "errors_Is (Wrap pre e post) t = (Wrap pre e post = t \<or> errors_Is e t)"
| "errors_Is (Joined es) t = (Joined es = t \<or> (\<exists>e \<in> set es. errors_Is e t))"
| "errors_Is e t = (e = t)"

lemma errors_Is_Wrap [simp]: "errors_Is e t \<Longrightarrow> errors_Is (Wrap pre e post) t"
  by simp

section \<open>Lists, options and maps\<close>

text \<open>\<open>sort.SliceStable(xs, func(i, j) { return prio(xs[i]) > prio(xs[j]) })\<close>: the stable sort by
  descending priority. A stable sort has one result, so the library's insertion sort computes
  the slice Go's algorithm leaves.\<close>

definition sort_desc :: "('a \<Rightarrow> int) \<Rightarrow> 'a list \<Rightarrow> 'a list" where
  "sort_desc prio xs = sort_key (\<lambda>x. - prio x) xs"

lemma mset_sort_desc [simp]: "mset (sort_desc prio xs) = mset xs"
  by (simp add: sort_desc_def)

lemma set_sort_desc [simp]: "set (sort_desc prio xs) = set xs"
  by (simp add: sort_desc_def)

lemma length_sort_desc [simp]: "length (sort_desc prio xs) = length xs"
  by (simp add: sort_desc_def)

lemma sort_desc_Nil [simp]: "sort_desc prio [] = []"
  by (simp add: sort_desc_def)

lemma sort_desc_sorted: "sorted_wrt (\<lambda>x y. prio x \<ge> prio y) (sort_desc prio xs)"
proof -
  have "sorted (map (\<lambda>x. - prio x) (sort_desc prio xs))"
    by (simp add: sort_desc_def)
  then show ?thesis
    by (simp add: sorted_map)
qed

lemma sort_desc_stable:
  "filter (\<lambda>x. prio x = k) (sort_desc prio xs) = filter (\<lambda>x. prio x = k) xs"
proof -
  have eq: "(\<lambda>x. prio x = k) = (\<lambda>x. - prio x = - k)" by auto
  show ?thesis unfolding sort_desc_def eq by (rule sort_key_stable)
qed

lemma sort_desc_idem [simp]: "sort_desc prio (sort_desc prio xs) = sort_desc prio xs"
proof -
  have "sorted (map (\<lambda>x. - prio x) (sort_desc prio xs))"
    by (simp add: sort_desc_def)
  then show ?thesis
    by (simp add: sort_desc_def sorted_sort_id sort_key_id_if_sorted)
qed

text \<open>The first element of a list that satisfies a predicate, as the classification loop of the
  detection engine and the lookups of the daemon compute it.\<close>

lemma find_Some_first:
  "List.find P xs = Some x \<Longrightarrow>
     \<exists>ys zs. xs = ys @ x # zs \<and> P x \<and> (\<forall>y \<in> set ys. \<not> P y)"
  by (induction xs) (auto split: if_splits intro: exI [of _ "[]"], metis append_Cons set_ConsD)

lemma find_Some_iff_ex: "(\<exists>x. List.find P xs = Some x) \<longleftrightarrow> (\<exists>x \<in> set xs. P x)"
  by (induction xs) auto

lemma find_Some_mem: "List.find P xs = Some x \<Longrightarrow> x \<in> set xs \<and> P x"
  by (induction xs) (auto split: if_splits)

lemma find_sort_desc_max:
  assumes "List.find P (sort_desc prio xs) = Some x" and "y \<in> set xs" and "P y"
  shows "prio y \<le> prio x"
proof -
  obtain ys zs where split: "sort_desc prio xs = ys @ x # zs" and no: "\<forall>y \<in> set ys. \<not> P y"
    using find_Some_first [OF assms(1)] by blast
  have "y \<in> set (ys @ x # zs)"
    using assms(2) split by (metis set_sort_desc)
  then have "y = x \<or> y \<in> set zs" using no assms(3) by auto
  moreover have "\<forall>z \<in> set zs. prio z \<le> prio x"
    using sort_desc_sorted [of prio xs] split by (simp add: sorted_wrt_append)
  ultimately show ?thesis by auto
qed

text \<open>Among the matching elements of the winning priority, the earliest of the input wins.\<close>

lemma find_sort_desc_earliest:
  assumes "List.find P (sort_desc prio xs) = Some x"
  shows "List.find P (filter (\<lambda>y. prio y = prio x) xs) = Some x"
proof -
  obtain ys zs where split: "sort_desc prio xs = ys @ x # zs" and "P x"
    and no: "\<forall>y \<in> set ys. \<not> P y"
    using find_Some_first [OF assms] by blast
  have "filter (\<lambda>y. prio y = prio x) xs
      = filter (\<lambda>y. prio y = prio x) ys @ x # filter (\<lambda>y. prio y = prio x) zs"
    using sort_desc_stable [of prio "prio x" xs] split by simp
  moreover have "List.find P (filter (\<lambda>y. prio y = prio x) ys @ x # us) = Some x" for us
    using no \<open>P x\<close> by (induction ys) auto
  ultimately show ?thesis by simp
qed

text \<open>The last \<open>n\<close> elements of a list: Go's \<open>b[len(b)-n:]\<close>.\<close>

definition last_n :: "nat \<Rightarrow> 'a list \<Rightarrow> 'a list" where
  "last_n n xs = drop (length xs - n) xs"

lemma length_last_n [simp]: "length (last_n n xs) = min n (length xs)"
  by (auto simp: last_n_def)

lemma last_n_all [simp]: "length xs \<le> n \<Longrightarrow> last_n n xs = xs"
  by (simp add: last_n_def)

lemma last_n_append_last_n: "last_n n (last_n n xs @ ys) = last_n n (xs @ ys)"
  by (cases "length xs \<le> n") (auto simp: last_n_def add.commute)

lemma last_n_suffix: "\<exists>ys. xs = ys @ last_n n xs"
  by (metis append_take_drop_id last_n_def)

lemma last_n_idem [simp]: "last_n n (last_n n xs) = last_n n xs"
  by simp

end
