(* ===== verification/Float64.thy ===== *)
theory Float64
  imports Prelude
begin

text \<open>
  Go's \<open>float64\<close> arithmetic as the scheduler uses it: an operation computes the exact rational
  result and rounds it to 53 significant bits, ties to even (\<open>fl\<close>). The exponent is unbounded, so
  neither overflow to infinity nor the subnormal range is modelled; the values the scheduler
  computes are durations in nanoseconds, capped by \<open>BackoffMax\<close>. \<open>math.Pow\<close> with a whole exponent
  is the correctly rounded power. Section 3 proves what the scheduler relies on: rounding is
  monotone, exact on integers up to \<open>2 ^ 53\<close> in magnitude, and idempotent.
\<close>

section \<open>Rounding to the nearest integer, ties to even\<close>

definition rne :: "rat \<Rightarrow> int" where
  "rne y = (let f = \<lfloor>y\<rfloor>; d = y - of_int f in
     if d < 1 / 2 then f else if 1 / 2 < d then f + 1 else if even f then f else f + 1)"

lemma rne_of_int [simp]: "rne (of_int k) = k"
  by (simp add: rne_def)

lemma rne_cases: "rne y = \<lfloor>y\<rfloor> \<or> rne y = \<lfloor>y\<rfloor> + 1"
  by (auto simp: rne_def Let_def)

lemma rne_mono: "y \<le> z \<Longrightarrow> rne y \<le> rne z"
proof -
  assume le: "y \<le> z"
  then have fl: "\<lfloor>y\<rfloor> \<le> \<lfloor>z\<rfloor>" by (rule floor_mono)
  show ?thesis
  proof (cases "\<lfloor>y\<rfloor> = \<lfloor>z\<rfloor>")
    case True
    then show ?thesis using le by (auto simp: rne_def Let_def)
  next
    case False
    then have "\<lfloor>y\<rfloor> + 1 \<le> \<lfloor>z\<rfloor>" using fl by simp
    then show ?thesis using rne_cases [of y] rne_cases [of z] by auto
  qed
qed

lemma rne_ge: "of_int k \<le> y \<Longrightarrow> k \<le> rne y"
  using rne_mono [of "of_int k" y] by simp

lemma rne_le: "y \<le> of_int k \<Longrightarrow> rne y \<le> k"
  using rne_mono [of y "of_int k"] by simp

section \<open>The binary exponent\<close>

text \<open>For positive \<open>x\<close>, the \<open>e\<close> with \<open>2 ^ e \<le> x < 2 ^ (e + 1)\<close>.\<close>

function bexp_up :: "rat \<Rightarrow> int" where
  "bexp_up x = (if x < 2 then 0 else 1 + bexp_up (x / 2))"
  by pat_completeness auto
termination
proof (relation "measure (\<lambda>x. nat \<lfloor>x\<rfloor>)", goal_cases)
  case (2 x)
  then have x: "2 \<le> x" by simp
  have "\<lfloor>x / 2\<rfloor> < \<lfloor>x\<rfloor>"
  proof -
    have "x / 2 \<le> x - 1" using x by simp
    then have "\<lfloor>x / 2\<rfloor> \<le> \<lfloor>x - 1\<rfloor>" by (rule floor_mono)
    then show ?thesis by simp
  qed
  moreover have "0 < \<lfloor>x\<rfloor>" using x by (simp add: less_floor_iff)
  ultimately show ?case by simp
qed simp

declare bexp_up.simps [simp del]

function bexp_down :: "rat \<Rightarrow> int" where
  "bexp_down x = (if 1 \<le> x \<or> x \<le> 0 then 0 else bexp_down (2 * x) - 1)"
  by pat_completeness auto
termination
proof (relation "measure (\<lambda>x. nat \<lceil>1 / x\<rceil>)", goal_cases)
  case (2 x)
  then have x: "0 < x" "x < 1" by auto
  have gt: "1 < 1 / x" using x by simp
  have "\<lceil>1 / (2 * x)\<rceil> < \<lceil>1 / x\<rceil>"
  proof (cases "1 / x \<le> 2")
    case True
    have "1 / (2 * x) = (1 / x) / 2" by simp
    then have "1 / (2 * x) \<le> 1" using True by simp
    then have "\<lceil>1 / (2 * x)\<rceil> \<le> 1" by (simp add: ceiling_le_iff)
    moreover have "1 < \<lceil>1 / x\<rceil>" using gt by (simp add: less_ceiling_iff)
    ultimately show ?thesis by linarith
  next
    case False
    have "1 / (2 * x) = (1 / x) / 2" by simp
    then have "1 / (2 * x) \<le> 1 / x - 1" using False by simp
    then have "\<lceil>1 / (2 * x)\<rceil> \<le> \<lceil>1 / x - 1\<rceil>" by (rule ceiling_mono)
    then show ?thesis by simp
  qed
  moreover have "0 < \<lceil>1 / x\<rceil>" using x by simp
  ultimately show ?case by (simp only: in_measure zless_nat_conj)
qed simp

declare bexp_down.simps [simp del]

definition bexp :: "rat \<Rightarrow> int" where
  "bexp x = (if 1 \<le> x then bexp_up x else bexp_down x)"

lemma bexp_up_bounds: "1 \<le> x \<Longrightarrow> 2 powi bexp_up x \<le> x \<and> x < 2 powi (bexp_up x + 1)"
proof (induction x rule: bexp_up.induct)
  case (1 x)
  show ?case
  proof (cases "x < 2")
    case True
    then show ?thesis using 1 by (simp add: bexp_up.simps)
  next
    case False
    then have "2 powi bexp_up (x / 2) \<le> x / 2 \<and> x / 2 < 2 powi (bexp_up (x / 2) + 1)"
      using 1 by simp
    then show ?thesis
      using False by (subst (1 2) bexp_up.simps) (simp add: power_int_add)
  qed
qed

lemma bexp_down_bounds:
  "0 < x \<Longrightarrow> x < 1 \<Longrightarrow> 2 powi bexp_down x \<le> x \<and> x < 2 powi (bexp_down x + 1)"
proof (induction x rule: bexp_down.induct)
  case (1 x)
  show ?case
  proof (cases "2 * x < 1")
    case True
    then have "2 powi bexp_down (2 * x) \<le> 2 * x \<and> 2 * x < 2 powi (bexp_down (2 * x) + 1)"
      using 1 by simp
    then show ?thesis
      using "1.prems" by (subst (1 2) bexp_down.simps) (simp add: power_int_diff power_int_add)
  next
    case False
    then have "bexp_down x = - 1"
      using "1.prems" by (subst bexp_down.simps) (simp add: bexp_down.simps [of "2 * x"])
    then show ?thesis using False "1.prems" by simp
  qed
qed

lemma bexp_bounds: "0 < x \<Longrightarrow> 2 powi bexp x \<le> x \<and> x < 2 powi (bexp x + 1)"
  by (simp add: bexp_def bexp_up_bounds bexp_down_bounds)

lemma powi2_less_iff: "(2::rat) powi a < 2 powi b \<longleftrightarrow> a < b"
  using power_int_strict_increasing [of a b "2::rat"] power_int_increasing [of b a "2::rat"]
  by (cases "a < b") auto

lemma powi2_le_iff [simp]: "(2::rat) powi a \<le> 2 powi b \<longleftrightarrow> a \<le> b"
  using powi2_less_iff [of b a] by (simp flip: not_less)

lemma bexp_unique:
  assumes "2 powi e \<le> (x::rat)" and "x < 2 powi (e + 1)"
  shows "bexp x = e"
proof -
  have pos: "0 < x" using assms(1) by (rule less_le_trans [rotated]) simp
  have "(2::rat) powi e < 2 powi (bexp x + 1)" "(2::rat) powi bexp x < 2 powi (e + 1)"
    using assms bexp_bounds [OF pos] by linarith+
  then show ?thesis by (simp add: powi2_less_iff)
qed

lemma bexp_mono: "0 < x \<Longrightarrow> x \<le> y \<Longrightarrow> bexp x \<le> bexp y"
proof -
  assume x: "0 < x" and le: "x \<le> y"
  have "(2::rat) powi bexp x < 2 powi (bexp y + 1)"
    using bexp_bounds [OF x] bexp_bounds [of y] x le by linarith
  then show ?thesis by (simp add: powi2_less_iff)
qed

section \<open>Rounding to float64\<close>

definition ulp :: "int \<Rightarrow> rat" where
  "ulp e = 2 powi (e - 52)"

definition fl_pos :: "rat \<Rightarrow> rat" where
  "fl_pos x = of_int (rne (x / ulp (bexp x))) * ulp (bexp x)"

definition fl :: "rat \<Rightarrow> rat" where
  "fl x = (if x = 0 then 0 else if 0 < x then fl_pos x else - fl_pos (- x))"

lemma ulp_pos [simp]: "0 < ulp e"
  by (simp add: ulp_def)

lemma pow52_ulp:
  "4503599627370496 * ulp e = 2 powi e" "9007199254740992 * ulp e = 2 powi (e + 1)"
  by (simp_all add: ulp_def power_int_diff power_int_add)

lemma fl_pos_bounds:
  assumes "0 < x"
  shows "2 powi bexp x \<le> fl_pos x" and "fl_pos x \<le> 2 powi (bexp x + 1)"
proof -
  let ?u = "ulp (bexp x)"
  let ?m = "of_int (rne (x / ?u)) :: rat"
  have "of_int 4503599627370496 \<le> x / ?u" "x / ?u \<le> of_int 9007199254740992"
    using bexp_bounds [OF assms] pow52_ulp [of "bexp x"]
    by (simp_all add: pos_le_divide_eq pos_divide_le_eq)
  then have "4503599627370496 \<le> rne (x / ?u)" "rne (x / ?u) \<le> 9007199254740992"
    using rne_ge rne_le by blast+
  then have "4503599627370496 \<le> ?m" "?m \<le> 9007199254740992"
    by linarith+
  then have "4503599627370496 * ?u \<le> ?m * ?u" "?m * ?u \<le> 9007199254740992 * ?u"
    by (intro mult_right_mono; simp add: less_imp_le)+
  then show "2 powi bexp x \<le> fl_pos x" "fl_pos x \<le> 2 powi (bexp x + 1)"
    by (simp_all only: fl_pos_def pow52_ulp)
qed

lemma fl_pos_pos: "0 < x \<Longrightarrow> 0 < fl_pos x"
  using fl_pos_bounds(1) by (meson less_le_trans zero_less_numeral zero_less_power_int)

lemma fl_pos_mono:
  assumes "0 < x" and "x \<le> y"
  shows "fl_pos x \<le> fl_pos y"
proof (cases "bexp x = bexp y")
  case True
  have "rne (x / ulp (bexp y)) \<le> rne (y / ulp (bexp y))"
    using assms by (intro rne_mono divide_right_mono) (simp_all add: less_imp_le)
  then show ?thesis using True by (simp add: fl_pos_def mult_right_mono less_imp_le)
next
  case False
  have "bexp x \<le> bexp y" using assms by (rule bexp_mono)
  then have "bexp x + 1 \<le> bexp y" using False by simp
  then have "(2::rat) powi (bexp x + 1) \<le> 2 powi bexp y" by simp
  moreover have "0 < y" using assms by simp
  ultimately show ?thesis
    using fl_pos_bounds(2) [OF assms(1)] fl_pos_bounds(1) [of y] by linarith
qed

lemma fl_0 [simp]: "fl 0 = 0"
  by (simp add: fl_def)

lemma fl_minus: "fl (- x) = - fl x"
  by (auto simp: fl_def)

lemma fl_nonneg: "0 \<le> x \<Longrightarrow> 0 \<le> fl x"
  by (auto simp: fl_def less_imp_le fl_pos_pos)

lemma fl_mono: "x \<le> y \<Longrightarrow> fl x \<le> fl y"
proof (cases "0 < x \<or> y < 0")
  case True
  assume "x \<le> y"
  with True show ?thesis by (auto simp: fl_def intro: fl_pos_mono)
next
  case False
  assume "x \<le> y"
  have "fl x \<le> 0" using False fl_nonneg [of "- x"] by (simp add: fl_minus)
  moreover have "0 \<le> fl y" using False fl_nonneg [of y] by simp
  ultimately show ?thesis by simp
qed

text \<open>A positive integer multiple of the unit in the last place is representable.\<close>

lemma fl_pos_exact: "x = of_int m * ulp (bexp x) \<Longrightarrow> fl_pos x = x"
  using ulp_pos [of "bexp x"]
  by (metis fl_pos_def nonzero_mult_div_cancel_right order_less_irrefl rne_of_int)

lemma fl_pos_idem:
  assumes "0 < x"
  shows "fl_pos (fl_pos x) = fl_pos x"
proof (cases "fl_pos x < 2 powi (bexp x + 1)")
  case True
  then have "bexp (fl_pos x) = bexp x"
    using fl_pos_bounds(1) [OF assms] by (intro bexp_unique)
  then show ?thesis
    by (intro fl_pos_exact [of _ "rne (x / ulp (bexp x))"]) (simp add: fl_pos_def)
next
  case False
  then have eq: "fl_pos x = 2 powi (bexp x + 1)"
    using fl_pos_bounds(2) [OF assms] by simp
  have "bexp (2 powi (bexp x + 1)) = bexp x + 1"
    by (rule bexp_unique) (simp_all add: powi2_less_iff)
  then show ?thesis
    unfolding eq by (intro fl_pos_exact [of _ 4503599627370496]) (simp add: pow52_ulp)
qed

lemma fl_idem [simp]: "fl (fl x) = fl x"
proof -
  have pos: "fl (fl y) = fl y" if "0 < y" for y
    using that fl_pos_pos [OF that] fl_pos_idem [OF that] by (simp add: fl_def)
  show ?thesis
  proof (cases "0 < x \<or> x = 0")
    case False
    then have "fl (fl (- x)) = fl (- x)" using pos by simp
    then show ?thesis by (simp add: fl_minus)
  qed (use pos in auto)
qed

lemma fl_of_nat_exact:
  assumes "0 < k" and "k \<le> 2 ^ 53"
  shows "fl_pos (of_int k) = of_int k"
proof -
  let ?x = "of_int k :: rat"
  have "?x \<le> of_int (2 ^ 53)" using assms(2) by (simp only: of_int_le_iff)
  then have x: "0 < ?x" "1 \<le> ?x" "?x \<le> 9007199254740992"
    using assms(1) by simp_all
  have "bexp 1 \<le> bexp ?x" using x by (intro bexp_mono) simp_all
  then have e0: "0 \<le> bexp ?x" using bexp_unique [of 0 1] by simp
  show ?thesis
  proof (cases "bexp ?x \<le> 52")
    case True
    define n where "n = nat (52 - bexp ?x)"
    have "ulp (bexp ?x) = 2 powi (- int n)"
      using True by (simp add: ulp_def n_def)
    then have "?x = of_int (k * 2 ^ n) * ulp (bexp ?x)"
      by (simp add: power_int_minus)
    then show ?thesis by (rule fl_pos_exact)
  next
    case False
    then have "(2::rat) powi 53 \<le> 2 powi bexp ?x" by (simp only: powi2_le_iff)
    moreover have p53: "(2::rat) powi 53 = 9007199254740992" by simp
    ultimately have eq: "?x = 9007199254740992"
      using bexp_bounds [OF x(1)] x(3) by linarith
    have "bexp ?x = 53" by (rule bexp_unique) (simp_all add: eq)
    with eq show ?thesis
      by (intro fl_pos_exact [of _ 4503599627370496]) (simp add: ulp_def)
  qed
qed

lemma fl_of_int_exact: "\<bar>k\<bar> \<le> 2 ^ 53 \<Longrightarrow> fl (of_int k) = of_int k"
  using fl_of_nat_exact [of k] fl_of_nat_exact [of "- k"] by (auto simp: fl_def)

lemma fl_1 [simp]: "fl 1 = 1"
  using fl_of_int_exact [of 1] by simp

section \<open>The conversions and the power function\<close>

definition float64_of_int :: "int \<Rightarrow> rat" where
  "float64_of_int k = fl (of_int k)"

text \<open>
  \<open>math.Pow(x, y)\<close> for a non-negative integral \<open>y\<close> is Go's repeated squaring: it multiplies the
  mantissas, rounding each product, and keeps the exponent apart, so that scaling is exact. The
  model multiplies the numbers themselves, which rounds to the same mantissas. Its values are not
  bounded by the largest float; Go returns \<open>+Inf\<close> there, and every use compares the product with
  an upper limit.
\<close>

fun pow_loop :: "rat \<Rightarrow> rat \<Rightarrow> nat \<Rightarrow> rat" where
  "pow_loop a x n = (if n = 0 then a
     else pow_loop (if odd n then fl (a * x) else a) (fl (x * x)) (n div 2))"

declare pow_loop.simps [simp del]

definition math_Pow :: "rat \<Rightarrow> nat \<Rightarrow> rat" where
  "math_Pow x n = pow_loop 1 x n"

lemma float64_of_int_mono: "a \<le> b \<Longrightarrow> float64_of_int a \<le> float64_of_int b"
  by (simp add: float64_of_int_def fl_mono)

lemma fl_float64_of_int [simp]: "fl (float64_of_int k) = float64_of_int k"
  by (simp add: float64_of_int_def)

lemma float64_of_int_nonneg: "0 \<le> k \<Longrightarrow> 0 \<le> float64_of_int k"
  by (simp add: float64_of_int_def fl_nonneg)

lemma pow_loop_0 [simp]: "pow_loop a x 0 = a"
  by (simp add: pow_loop.simps)

lemma math_Pow_0 [simp]: "math_Pow x 0 = 1"
  by (simp add: math_Pow_def)

lemma fl_mult_ge: "1 \<le> a \<Longrightarrow> 1 \<le> x \<Longrightarrow> fl a = a \<Longrightarrow> a \<le> fl (a * x)"
  using fl_mono [of a "a * x"] by (simp add: mult_le_cancel_left1)

lemma fl_mult_ge_1: "1 \<le> a \<Longrightarrow> 1 \<le> x \<Longrightarrow> 1 \<le> fl (a * x)"
  using fl_mono [of 1 "a * x"] mult_mono [of 1 a 1 x] by simp

lemma pow_loop_mono:
  "0 \<le> a \<Longrightarrow> a \<le> b \<Longrightarrow> 0 \<le> x \<Longrightarrow> pow_loop a x n \<le> pow_loop b x n"
proof (induction n arbitrary: a b x rule: less_induct)
  case (less n)
  have "fl (a * x) \<le> fl (b * x)" "0 \<le> fl (a * x)" "0 \<le> fl (x * x)"
    using less.prems by (auto intro!: fl_mono fl_nonneg mult_right_mono)
  then show ?case
    using less.prems less.IH [of "n div 2"] by (subst (1 2) pow_loop.simps) simp
qed

lemma pow_loop_ge_1: "1 \<le> a \<Longrightarrow> 1 \<le> x \<Longrightarrow> 1 \<le> pow_loop a x n"
proof (induction n arbitrary: a x rule: less_induct)
  case (less n)
  then show ?case
    using fl_mult_ge_1 less.IH [of "n div 2"] by (subst pow_loop.simps) simp
qed

lemma math_Pow_ge_1: "1 \<le> x \<Longrightarrow> 1 \<le> math_Pow x n"
  by (simp add: math_Pow_def pow_loop_ge_1)

text \<open>Counting up by one never lowers the result: the carry turns trailing squares into one.\<close>

lemma pow_loop_Suc:
  "1 \<le> a \<Longrightarrow> a \<le> x \<Longrightarrow> fl x = x \<Longrightarrow> pow_loop a x n \<le> pow_loop 1 x (Suc n)"
proof (induction n arbitrary: a x rule: less_induct)
  case (less n)
  have x: "1 \<le> x" using less.prems by linarith
  show ?case
  proof (cases "even n")
    case True
    then have half: "Suc n div 2 = n div 2" by simp
    have "pow_loop a x n = pow_loop a (fl (x * x)) (n div 2)"
      using True by (subst pow_loop.simps) auto
    also have "\<dots> \<le> pow_loop x (fl (x * x)) (n div 2)"
      using less.prems x fl_nonneg [of "x * x"] by (intro pow_loop_mono) simp_all
    also have "\<dots> = pow_loop 1 x (Suc n)"
      using True half less.prems(3) by (subst (2) pow_loop.simps) simp
    finally show ?thesis .
  next
    case False
    then have n: "0 < n" "Suc n div 2 = Suc (n div 2)" "n div 2 < n" by (auto elim: oddE)
    have "fl (a * x) \<le> fl (x * x)" "1 \<le> fl (a * x)"
      using less.prems x fl_mult_ge_1 by (auto intro!: fl_mono mult_right_mono)
    then have "pow_loop (fl (a * x)) (fl (x * x)) (n div 2)
        \<le> pow_loop 1 (fl (x * x)) (Suc (n div 2))"
      using less.IH n by simp
    then show ?thesis
      using False n by (subst (1 2) pow_loop.simps) simp
  qed
qed

lemma math_Pow_mono: "1 \<le> x \<Longrightarrow> fl x = x \<Longrightarrow> m \<le> n \<Longrightarrow> math_Pow x m \<le> math_Pow x n"
  by (rule lift_Suc_mono_le [of "math_Pow x"]) (simp_all add: math_Pow_def pow_loop_Suc)

text \<open>Go's conversion of a float to an integer truncates towards zero.\<close>

definition trunc_rat :: "rat \<Rightarrow> int" where
  "trunc_rat x = (if 0 \<le> x then \<lfloor>x\<rfloor> else \<lceil>x\<rceil>)"

lemma trunc_rat_of_int [simp]: "trunc_rat (of_int k) = k"
  by (simp add: trunc_rat_def)

lemma trunc_rat_mono: "x \<le> y \<Longrightarrow> trunc_rat x \<le> trunc_rat y"
proof -
  assume le: "x \<le> y"
  consider "0 \<le> x" | "x < 0" "0 \<le> y" | "y < 0" by linarith
  then show ?thesis
  proof cases
    case 2
    then have "\<lceil>x\<rceil> \<le> 0" "0 \<le> \<lfloor>y\<rfloor>" by (simp_all add: ceiling_le_iff)
    then have "\<lceil>x\<rceil> \<le> \<lfloor>y\<rfloor>" by linarith
    then show ?thesis using 2 by (simp add: trunc_rat_def)
  qed (use le in \<open>simp_all add: trunc_rat_def floor_mono ceiling_mono\<close>)
qed

lemma trunc_rat_nonneg: "0 \<le> x \<Longrightarrow> 0 \<le> trunc_rat x"
  by (simp add: trunc_rat_def)

end
