(* ===== verification/GoTime.thy ===== *)
theory GoTime
  imports GoStrings Float64 "HOL-Library.Monad_Syntax"
begin

text \<open>
  What the program uses of Go's \<open>time\<close> package. An instant (\<open>time.Time\<close>) is the number of
  nanoseconds since the Unix epoch, an unbounded integer: Go's own range is about 292 billion
  years either way, and only \<open>time.Unix\<close> can be handed a value outside it, where the wrap-around
  is written out. A \<open>time.Duration\<close> is an \<open>int64\<close> of nanoseconds. Timestamps of the database are
  RFC 3339 texts in UTC; the section on them ends with their round trip.
\<close>

type_synonym time = int
type_synonym duration = int

abbreviation Millisecond :: duration where "Millisecond \<equiv> 1000000"
abbreviation Second :: duration where "Second \<equiv> 1000000000"
abbreviation Minute :: duration where "Minute \<equiv> 60000000000"
abbreviation Hour :: duration where "Hour \<equiv> 3600000000000"

text \<open>\<open>t.Add(d)\<close>, \<open>t.Sub(u)\<close> (saturating) and \<open>d.Milliseconds()\<close> (truncating).\<close>

definition time_Add :: "time \<Rightarrow> duration \<Rightarrow> time" where
  "time_Add t d = t + d"

definition time_Sub :: "time \<Rightarrow> time \<Rightarrow> duration" where
  "time_Sub t u = clamp_i64 (t - u)"

definition Milliseconds :: "duration \<Rightarrow> int" where
  "Milliseconds d = (if 0 \<le> d then d div 1000000 else - ((- d) div 1000000))"

definition unix_to_internal :: int where
  "unix_to_internal = 62135596800"

definition time_Unix :: "int \<Rightarrow> time" where
  "time_Unix sec = (i64 (sec + unix_to_internal) - unix_to_internal) * Second"

lemma time_Unix_small: "\<bar>sec\<bar> \<le> 2 ^ 62 \<Longrightarrow> time_Unix sec = sec * Second"
  by (simp add: time_Unix_def i64_id in_i64_def MinInt64_def MaxInt64_def unix_to_internal_def
      abs_le_iff)

lemma Milliseconds_nonneg: "0 \<le> d \<Longrightarrow> 0 \<le> Milliseconds d"
  by (simp add: Milliseconds_def)

section \<open>The proleptic Gregorian calendar\<close>

text \<open>Days are counted from 1970-01-01; years of the computation start on 1 March.\<close>

definition year_of_era :: "int \<Rightarrow> int \<times> int" where
  "year_of_era doe =
     (let c = min 3 (doe div 36524); r = doe - 36524 * c;
          q = r div 1461; r' = r - 1461 * q;
          n = min 3 (r' div 365)
      in (100 * c + 4 * q + n, r' - 365 * n))"

definition civil_of_days :: "int \<Rightarrow> int \<times> int \<times> int" where
  "civil_of_days days =
     (let z = days + 719468; era = z div 146097; doe = z mod 146097;
          (yoe, doy) = year_of_era doe;
          mp = (5 * doy + 2) div 153;
          d = doy - (153 * mp + 2) div 5 + 1;
          m = (if mp < 10 then mp + 3 else mp - 9);
          y = yoe + 400 * era + (if m \<le> 2 then 1 else 0)
      in (y, m, d))"

definition days_of_civil :: "int \<Rightarrow> int \<Rightarrow> int \<Rightarrow> int" where
  "days_of_civil y m d =
     (let y' = (if m \<le> 2 then y - 1 else y); era = y' div 400; yoe = y' mod 400;
          mp = (if m > 2 then m - 3 else m + 9);
          doy = (153 * mp + 2) div 5 + d - 1;
          doe = 365 * yoe + yoe div 4 - yoe div 100 + doy
      in 146097 * era + doe - 719468)"

definition is_leap :: "int \<Rightarrow> bool" where
  "is_leap y \<longleftrightarrow> 4 dvd y \<and> (\<not> 100 dvd y \<or> 400 dvd y)"

definition days_in :: "int \<Rightarrow> int \<Rightarrow> int" where
  "days_in m y = (if m = 2 then (if is_leap y then 29 else 28)
     else if m \<in> {4, 6, 9, 11} then 30 else 31)"

lemma is_leap_era: "is_leap (y + 400 * k) = is_leap y"
proof -
  have "d dvd y + 400 * k \<longleftrightarrow> d dvd y" if "d dvd 400" for d
    using that by (simp add: dvd_add_left_iff dvd_mult2)
  then have "4 dvd y + 400 * k \<longleftrightarrow> 4 dvd y" "100 dvd y + 400 * k \<longleftrightarrow> 100 dvd y"
    "400 dvd y + 400 * k \<longleftrightarrow> 400 dvd y"
    by simp_all
  then show ?thesis by (simp add: is_leap_def)
qed

lemma year_of_era_bounds:
  assumes "0 \<le> doe" and "doe < 146097" and "year_of_era doe = (yoe, doy)"
  shows "0 \<le> yoe" and "yoe < 400" and "0 \<le> doy" and "doy \<le> 365"
    and "365 * yoe + yoe div 4 - yoe div 100 + doy = doe"
    and "doy = 365 \<Longrightarrow> is_leap (yoe + 1)"
proof -
  define c where "c = min 3 (doe div 36524)"
  define r where "r = doe - 36524 * c"
  define q where "q = r div 1461"
  define r' where "r' = r - 1461 * q"
  define n where "n = min 3 (r' div 365)"
  have yoe: "yoe = 100 * c + 4 * q + n" and doy: "doy = r' - 365 * n"
    using assms(3) by (simp_all add: year_of_era_def Let_def c_def r_def q_def r'_def n_def)
  have c: "0 \<le> c" "c \<le> 3" using assms(1) by (auto simp: c_def)
  have r: "0 \<le> r" "r \<le> 36524"
    using assms(1,2) by (auto simp: r_def c_def min_def)
  have q: "0 \<le> q" "q \<le> 24" using r by (auto simp: q_def)
  have r': "0 \<le> r'" "r' \<le> 1460" using r by (auto simp: r'_def q_def)
  have n: "0 \<le> n" "n \<le> 3" using r' by (auto simp: n_def)
  show doy_b: "0 \<le> doy" "doy \<le> 365"
    using r' by (auto simp: doy n_def min_def)
  have "0 \<le> 4 * q + n" "4 * q + n < 100" using q n by auto
  then have d100: "yoe div 100 = c" by (simp add: yoe)
  have d4: "yoe div 4 = 25 * c + q"
  proof -
    have "yoe = 4 * (25 * c + q) + n" by (simp add: yoe)
    then show ?thesis using n by (simp add: div_add1_eq)
  qed
  show "0 \<le> yoe" "yoe < 400" using c q n by (auto simp: yoe)
  have "365 * yoe = 36500 * c + 1460 * q + 365 * n" by (simp add: yoe)
  then show "365 * yoe + yoe div 4 - yoe div 100 + doy = doe"
    unfolding d100 d4 doy by (simp add: r'_def r_def)
  show "is_leap (yoe + 1)" if "doy = 365"
  proof -
    have "n = 3" "r' = 1460" using that r' by (auto simp: doy n_def min_def split: if_splits)
    then have y: "yoe + 1 = 100 * c + 4 * (q + 1)" by (simp add: yoe)
    show ?thesis
    proof (cases "q = 24")
      case True
      then have "r = 36524" using \<open>r' = 1460\<close> r by (simp add: r'_def)
      then have "c = 3" using assms(1,2) by (auto simp: r_def c_def min_def split: if_splits)
      then show ?thesis using True y by (simp add: is_leap_def)
    next
      case False
      then have "\<not> 100 dvd 4 * (q + 1)" using q by (intro zdvd_not_zless) simp_all
      then have "\<not> 100 dvd yoe + 1"
        unfolding y using dvd_add_right_iff [of 100 "100 * c" "4 * (q + 1)"] by simp
      moreover have "4 dvd yoe + 1" unfolding y by (intro dvd_add) (simp_all add: dvd_mult2)
      ultimately show ?thesis by (simp add: is_leap_def)
    qed
  qed
qed

lemma civil_of_days_bounds:
  assumes "civil_of_days days = (y, m, d)"
  shows "1 \<le> m" and "m \<le> 12" and "1 \<le> d" and "d \<le> 31"
    and "days_of_civil y m d = days" and "d \<le> days_in m y"
proof -
  define era where "era = (days + 719468) div 146097"
  define doe where "doe = (days + 719468) mod 146097"
  obtain yoe doy where yd: "year_of_era doe = (yoe, doy)" by fastforce
  define mp where "mp = (5 * doy + 2) div 153"
  have doe: "0 \<le> doe" "doe < 146097" by (simp_all add: doe_def)
  note b = year_of_era_bounds [OF doe yd]
  have m: "m = (if mp < 10 then mp + 3 else mp - 9)"
    and d: "d = doy - (153 * mp + 2) div 5 + 1"
    and y: "y = yoe + 400 * era + (if m \<le> 2 then 1 else 0)"
    using assms yd unfolding civil_of_days_def Let_def doe_def era_def mp_def
    by (auto split: prod.splits)
  have mp: "0 \<le> mp" "mp \<le> 11" using b(3,4) by (simp_all add: mp_def)
  show m_b: "1 \<le> m" "m \<le> 12" using mp by (simp_all add: m)
  have bound: "153 * mp \<le> 5 * doy + 2" "5 * doy \<le> 153 * mp + 150"
    unfolding mp_def by linarith+
  then have "153 * mp + 2 \<le> 5 * doy + 4" "5 * (doy - 30) + 2 \<le> 153 * mp + 2" by simp_all
  then have "(153 * mp + 2) div 5 \<le> (5 * doy + 4) div 5"
    "(5 * (doy - 30) + 2) div 5 \<le> (153 * mp + 2) div 5"
    by (simp_all only: zdiv_mono1)
  then have "(153 * mp + 2) div 5 \<le> doy" "doy < (153 * mp + 2) div 5 + 31"
    by simp_all
  then show "1 \<le> d" "d \<le> 31" by (simp_all add: d)
  have y': "(if m \<le> 2 then y - 1 else y) = yoe + 400 * era" by (simp add: y)
  have mp': "(if m > 2 then m - 3 else m + 9) = mp" using mp by (simp add: m)
  have "days_of_civil y m d
      = 146097 * era + (365 * yoe + yoe div 4 - yoe div 100 + doy) - 719468"
    unfolding days_of_civil_def Let_def y' mp' using b(1,2) by (simp add: d)
  also have "\<dots> = 146097 * era + doe - 719468" by (simp only: b(5))
  also have "\<dots> = days" using mult_div_mod_eq [of 146097 "days + 719468"]
    by (simp add: era_def doe_def)
  finally show "days_of_civil y m d = days" .
  have "mp \<in> {0, 1, 2, 3, 4, 5, 6, 7, 8, 9, 10, 11}"
    using mp by (simp only: insert_iff empty_iff) presburger
  then consider "mp = 11" | "mp \<in> {0, 2, 4, 5, 7, 9, 10}" | "mp \<in> {1, 3, 6, 8}"
    by blast
  then show "d \<le> days_in m y"
  proof cases
    case 1
    then have "m = 2" "y = (yoe + 1) + 400 * era" by (simp_all add: m y)
    then have "is_leap y" if "doy = 365" using b(6) that by (simp add: is_leap_era)
    moreover have "d = doy - 336" using 1 by (simp add: d)
    ultimately show ?thesis using b(4) \<open>m = 2\<close>
      by (cases "doy = 365") (simp_all add: days_in_def)
  next
    case 2
    then have "m \<notin> {2, 4, 6, 9, 11}" by (auto simp: m)
    then show ?thesis using \<open>d \<le> 31\<close> by (auto simp: days_in_def)
  next
    case 3
    then have "m \<in> {4, 6, 9, 11}" by (auto simp: m)
    moreover have "d \<le> 30" using 3 bound by (auto simp: d)
    ultimately show ?thesis by (auto simp: days_in_def)
  qed
qed



section \<open>Timestamps as RFC 3339 texts\<close>

definition time_of_civil ::
  "int \<Rightarrow> int \<Rightarrow> int \<Rightarrow> int \<Rightarrow> int \<Rightarrow> int \<Rightarrow> int \<Rightarrow> time" where
  "time_of_civil y mo d h mi s ns =
     (days_of_civil y mo d * 86400 + h * 3600 + mi * 60 + s) * Second + ns"

text \<open>Zero-padded decimals: Go's \<open>appendInt\<close>.\<close>

definition pad_dec :: "nat \<Rightarrow> nat \<Rightarrow> string" where
  "pad_dec w n = replicate (w - length (nat_dec n)) (CHR ''0'') @ nat_dec n"

definition append_int :: "int \<Rightarrow> nat \<Rightarrow> string" where
  "append_int x w = (if x < 0 then CHR ''-'' # pad_dec w (nat (- x)) else pad_dec w (nat x))"

text \<open>The \<open>.999999999\<close> of the layout: nine digits, trailing zeros dropped, no point if none is left.\<close>

definition frac_text :: "nat \<Rightarrow> string" where
  "frac_text ns = (let t = rev (dropWhile (\<lambda>c. c = CHR ''0'') (rev (pad_dec 9 ns)))
     in if t = [] then [] else CHR ''.'' # t)"

text \<open>\<open>t.UTC().Format(time.RFC3339Nano)\<close>.\<close>

definition format_RFC3339Nano :: "time \<Rightarrow> string" where
  "format_RFC3339Nano t =
     (let secs = t div Second; ns = nat (t mod Second);
          days = secs div 86400; sod = secs mod 86400;
          (y, mo, d) = civil_of_days days
      in append_int y 4 @ ''-'' @ append_int mo 2 @ ''-'' @ append_int d 2 @ ''T'' @
         append_int (sod div 3600) 2 @ '':'' @ append_int (sod mod 3600 div 60) 2 @ '':'' @
         append_int (sod mod 60) 2 @ frac_text ns @ ''Z'')"

text \<open>\<open>t.UTC().Format(time.RFC3339)\<close>: no fraction.\<close>

definition format_RFC3339 :: "time \<Rightarrow> string" where
  "format_RFC3339 t = format_RFC3339Nano (t div Second * Second)"

text \<open>
  \<open>time.Parse(time.RFC3339, s)\<close> and \<open>time.Parse(time.RFC3339Nano, s)\<close>: four-digit year, two-digit
  fields (the hour may have one digit), an optional fraction after a point or a comma, and \<open>Z\<close> or a
  numeric offset. The fields are range-checked, the day against its month.
\<close>

definition expect :: "char \<Rightarrow> string \<Rightarrow> string option" where
  "expect c s = (case s of [] \<Rightarrow> None | x # xs \<Rightarrow> if x = c then Some xs else None)"

definition digits_n :: "nat \<Rightarrow> string \<Rightarrow> (int \<times> string) option" where
  "digits_n w s = (if w \<le> length s \<and> list_all is_digit (take w s)
     then Some (int (dec_val (take w s)), drop w s) else None)"

text \<open>Go's \<open>getnum\<close> without \<open>fixed\<close>: two digits if there are two, else one.\<close>

definition getnum :: "string \<Rightarrow> (int \<times> string) option" where
  "getnum s = (case digits_n 2 s of Some r \<Rightarrow> Some r | None \<Rightarrow> digits_n 1 s)"

definition parse_frac :: "string \<Rightarrow> int \<times> string" where
  "parse_frac s = (case s of
       p # d # t \<Rightarrow>
         if (p = CHR ''.'' \<or> p = CHR '','') \<and> is_digit d
         then (let ds = takeWhile is_digit (d # t); ds9 = take 9 ds
               in (int (dec_val ds9) * 10 ^ (9 - length ds9), dropWhile is_digit (d # t)))
         else (0, s)
     | _ \<Rightarrow> (0, s))"

definition parse_zone :: "string \<Rightarrow> int option" where
  "parse_zone s = (if s = ''Z'' then Some 0 else
     (case s of [] \<Rightarrow> None | c # r \<Rightarrow>
       do {
         sg \<leftarrow> (if c = CHR ''+'' then Some (1::int) else if c = CHR ''-'' then Some (- 1) else None);
         (h, r) \<leftarrow> digits_n 2 r;
         r \<leftarrow> expect (CHR '':'') r;
         (m, r) \<leftarrow> digits_n 2 r;
         if r = [] \<and> h \<le> 24 \<and> m \<le> 60 then Some (sg * (h * 3600 + m * 60)) else None
       }))"

definition parse_RFC3339 :: "string \<Rightarrow> time option" where
  "parse_RFC3339 s = do {
     (y, s) \<leftarrow> digits_n 4 s; s \<leftarrow> expect (CHR ''-'') s;
     (mo, s) \<leftarrow> digits_n 2 s; s \<leftarrow> expect (CHR ''-'') s;
     (d, s) \<leftarrow> digits_n 2 s; s \<leftarrow> expect (CHR ''T'') s;
     (h, s) \<leftarrow> getnum s; s \<leftarrow> expect (CHR '':'') s;
     (mi, s) \<leftarrow> digits_n 2 s; s \<leftarrow> expect (CHR '':'') s;
     (se, s) \<leftarrow> digits_n 2 s;
     (let (ns, s) = parse_frac s in do {
       off \<leftarrow> parse_zone s;
       if 1 \<le> mo \<and> mo \<le> 12 \<and> 1 \<le> d \<and> d \<le> days_in mo y \<and> h < 24 \<and> mi < 60 \<and> se < 60
       then Some (time_of_civil y mo d h mi se ns - off * Second) else None })
   }"

subsection \<open>Round trip\<close>

lemma length_nat_dec_le: "n < 10 ^ w \<Longrightarrow> 0 < w \<Longrightarrow> length (nat_dec n) \<le> w"
proof (induction n arbitrary: w rule: nat_dec.induct)
  case (1 n)
  show ?case
  proof (cases "n < 10")
    case True
    then show ?thesis using "1.prems" by (subst nat_dec.simps) simp
  next
    case False
    then obtain v where w: "w = Suc v" "0 < v"
      using "1.prems" by (cases w; cases "w - 1") auto
    then have "n div 10 < 10 ^ v" using "1.prems" by auto
    then show ?thesis using 1 False w by (subst nat_dec.simps) simp
  qed
qed

lemma length_pad_dec: "n < 10 ^ w \<Longrightarrow> 0 < w \<Longrightarrow> length (pad_dec w n) = w"
  using length_nat_dec_le by (simp add: pad_dec_def)

lemma is_digit_0 [simp]: "is_digit (CHR ''0'')"
  by (simp add: is_digit_def)

lemma pad_dec_digits: "list_all is_digit (pad_dec w n)"
  using nat_dec_digits by (auto simp: pad_dec_def list_all_iff)

lemma foldl_dec_zeros [simp]:
  "foldl (\<lambda>a c. 10 * a + digit_val c) 0 (replicate k (CHR ''0'')) = 0"
  by (induction k) (simp_all add: digit_val_def)

lemma dec_val_pad_dec [simp]: "dec_val (pad_dec w n) = n"
  using dec_val_nat_dec [of n] by (simp add: dec_val_def pad_dec_def)

lemma dec_val_append_zeros: "dec_val (s @ replicate k (CHR ''0'')) = dec_val s * 10 ^ k"
proof (induction k)
  case (Suc k)
  have "s @ replicate (Suc k) (CHR ''0'') = (s @ replicate k (CHR ''0'')) @ [CHR ''0'']"
    by (simp add: replicate_append_same)
  then show ?case using Suc by (simp only: dec_val_snoc) (simp add: digit_val_def)
qed simp

lemma digits_n_pad_dec:
  "n < 10 ^ w \<Longrightarrow> 0 < w \<Longrightarrow> digits_n w (pad_dec w n @ s) = Some (int n, s)"
  using pad_dec_digits by (simp add: digits_n_def length_pad_dec)

lemma digits_n_append_int:
  "0 \<le> x \<Longrightarrow> x < 10 ^ w \<Longrightarrow> 0 < w \<Longrightarrow> digits_n w (append_int x w @ s) = Some (x, s)"
  using digits_n_pad_dec [of "nat x" w s] by (simp add: append_int_def nat_less_iff)

lemma getnum_append_int: "0 \<le> x \<Longrightarrow> x < 100 \<Longrightarrow> getnum (append_int x 2 @ s) = Some (x, s)"
  using digits_n_append_int [of x 2 s] by (simp add: getnum_def)

lemma expect_Cons [simp]: "expect c (c # s) = Some s"
  by (simp add: expect_def)

text \<open>Dropping the trailing zeros keeps the value: what was dropped is zeros.\<close>

lemma trimmed_zeros:
  fixes s :: string
  defines "t \<equiv> rev (dropWhile (\<lambda>c. c = CHR ''0'') (rev s))"
  shows "s = t @ replicate (length s - length t) (CHR ''0'')"
proof -
  have all: "\<forall>c \<in> set (takeWhile (\<lambda>c. c = CHR ''0'') (rev s)). c = CHR ''0''"
    by (auto dest: set_takeWhileD)
  have "rev s = takeWhile (\<lambda>c. c = CHR ''0'') (rev s) @ dropWhile (\<lambda>c. c = CHR ''0'') (rev s)"
    by simp
  then have "s = t @ rev (takeWhile (\<lambda>c. c = CHR ''0'') (rev s))"
    unfolding t_def by (metis rev_append rev_rev_ident)
  moreover have "rev (takeWhile (\<lambda>c. c = CHR ''0'') (rev s))
      = replicate (length (takeWhile (\<lambda>c. c = CHR ''0'') (rev s))) (CHR ''0'')"
    using all by (intro replicate_eqI) auto
  ultimately show ?thesis by (metis add_diff_cancel_left' length_append length_replicate)
qed

lemma parse_frac_frac_text:
  assumes "ns < 1000000000" and "s = [] \<or> \<not> is_digit (hd s)"
    and "s \<noteq> [] \<Longrightarrow> hd s \<noteq> CHR ''.'' \<and> hd s \<noteq> CHR '',''"
  shows "parse_frac (frac_text ns @ s) = (int ns, s)"
proof -
  define p where "p = pad_dec 9 ns"
  define t where "t = rev (dropWhile (\<lambda>c. c = CHR ''0'') (rev p))"
  have len: "length p = 9" using length_pad_dec [of ns 9] assms(1) by (simp add: p_def)
  have split: "p = t @ replicate (9 - length t) (CHR ''0'')"
    using trimmed_zeros [of p] len by (simp add: t_def)
  then have "dec_val p = dec_val t * 10 ^ (9 - length t)"
    by (metis dec_val_append_zeros)
  then have val: "ns = dec_val t * 10 ^ (9 - length t)"
    by (simp add: p_def)
  have le: "length t \<le> 9" using len arg_cong [OF split, of length] by simp
  have "list_all is_digit p" by (simp add: p_def pad_dec_digits)
  then have digs: "\<forall>c \<in> set t. is_digit c" using split by (metis Un_iff list_all_iff set_append)
  have ft: "frac_text ns = (if t = [] then [] else CHR ''.'' # t)"
    by (simp add: frac_text_def t_def p_def)
  show ?thesis
  proof (cases "t = []")
    case True
    have "parse_frac s = (0, s)"
      using assms(3) by (auto simp: parse_frac_def split: list.splits)
    then show ?thesis using True val ft by (simp add: dec_val_def)
  next
    case False
    then obtain d u where t: "t = d # u" by (meson neq_Nil_conv)
    have "takeWhile is_digit (t @ s) = t" "dropWhile is_digit (t @ s) = s"
      using digs assms(2) by (auto simp: takeWhile_append dropWhile_append takeWhile_eq_Nil_iff
          dropWhile_eq_self_iff)
    then show ?thesis using t digs le val ft by (simp add: parse_frac_def Let_def)
  qed
qed

definition year_ok :: "time \<Rightarrow> bool" where
  "year_ok t \<longleftrightarrow> (case civil_of_days (t div Second div 86400) of (y, _) \<Rightarrow> 0 \<le> y \<and> y \<le> 9999)"

lemma parse_RFC3339_fields:
  assumes "0 \<le> y" "y < 10 ^ 4" "1 \<le> mo" "mo \<le> 12" "1 \<le> d" "d \<le> days_in mo y"
    and "d \<le> 31" "0 \<le> h" "h < 24" "0 \<le> mi" "mi < 60" "0 \<le> se" "se < 60" "ns < 1000000000"
    and z: "parse_zone z = Some off" "z = ''Z'' \<or> (\<exists>r. z = CHR ''+'' # r \<or> z = CHR ''-'' # r)"
  shows "parse_RFC3339 (append_int y 4 @ ''-'' @ append_int mo 2 @ ''-'' @ append_int d 2 @ ''T'' @
      append_int h 2 @ '':'' @ append_int mi 2 @ '':'' @ append_int se 2 @ frac_text ns @ z)
    = Some (time_of_civil y mo d h mi se (int ns) - off * Second)"
proof -
  have zone: "parse_frac (frac_text ns @ z) = (int ns, z)"
    using parse_frac_frac_text [OF assms(14), of z] z(2) by (auto simp: is_digit_def)
  show ?thesis
    unfolding parse_RFC3339_def using assms
    by (simp add: digits_n_append_int getnum_append_int zone)
qed

text \<open>The text of an instant without its offset, and \<open>t.Format(time.RFC3339Nano)\<close> for a time in a location whose
  offset from UTC is \<open>off\<close> seconds.\<close>

definition local_text :: "time \<Rightarrow> string" where
  "local_text t =
     (let secs = t div Second; sod = secs mod 86400; (y, mo, d) = civil_of_days (secs div 86400)
      in append_int y 4 @ ''-'' @ append_int mo 2 @ ''-'' @ append_int d 2 @ ''T'' @
         append_int (sod div 3600) 2 @ '':'' @ append_int (sod mod 3600 div 60) 2 @ '':'' @
         append_int (sod mod 60) 2 @ frac_text (nat (t mod Second)))"

definition zone_text :: "int \<Rightarrow> string" where
  "zone_text off = (if off = 0 then ''Z''
     else (if off < 0 then CHR ''-'' else CHR ''+'') # append_int (\<bar>off\<bar> div 60 div 60) 2 @ '':'' @
       append_int (\<bar>off\<bar> div 60 mod 60) 2)"

definition format_zoned :: "int \<Rightarrow> time \<Rightarrow> string" where
  "format_zoned off t = local_text (t + off * Second) @ zone_text off"

lemma format_RFC3339Nano_local: "format_RFC3339Nano t = local_text t @ ''Z''"
  by (simp add: format_RFC3339Nano_def local_text_def Let_def split_def)

lemma format_zoned_0: "format_zoned 0 t = format_RFC3339Nano t"
  by (simp add: format_zoned_def zone_text_def format_RFC3339Nano_local)

text \<open>A location's offset is less than a day and a whole number of minutes.\<close>

definition zone_ok :: "int \<Rightarrow> bool" where
  "zone_ok off \<longleftrightarrow> \<bar>off\<bar> < 86400 \<and> off mod 60 = 0"

lemma zone_ok_0 [simp]: "zone_ok 0"
  by (simp add: zone_ok_def)

lemma parse_zone_text:
  assumes "zone_ok off"
  shows "parse_zone (zone_text off) = Some off"
proof (cases "off = 0")
  case False
  let ?m = "\<bar>off\<bar> div 60"
  have m: "0 \<le> ?m" "?m < 1440" using assms by (auto simp: zone_ok_def)
  have "\<bar>off\<bar> mod 60 = 0" using assms by (cases "off < 0") (auto simp: zone_ok_def mod_eq_0_iff_dvd)
  then have "\<bar>off\<bar> = ?m div 60 * 3600 + ?m mod 60 * 60"
    using div_mult_mod_eq [of ?m 60] div_mult_mod_eq [of "\<bar>off\<bar>" 60] by linarith
  moreover have "digits_n 2 (append_int (?m div 60) 2 @ s) = Some (?m div 60, s)"
    "digits_n 2 (append_int (?m mod 60) 2) = Some (?m mod 60, [])" for s
    using digits_n_append_int [of "?m div 60" 2 s] digits_n_append_int [of "?m mod 60" 2 "[]"] m by auto
  moreover have "?m div 60 \<le> 24" "?m mod 60 \<le> 60" using m by auto
  ultimately show ?thesis using False by (auto simp: parse_zone_def zone_text_def abs_if split: if_splits)
qed (simp add: parse_zone_def zone_text_def)

lemma parse_local_text:
  assumes "year_ok t" and "parse_zone z = Some off" "z = ''Z'' \<or> (\<exists>r. z = CHR ''+'' # r \<or> z = CHR ''-'' # r)"
  shows "parse_RFC3339 (local_text t @ z) = Some (t - off * Second)"
proof -
  define secs where "secs = t div Second"
  define days where "days = secs div 86400"
  define sod where "sod = secs mod 86400"
  obtain y mo d where c: "civil_of_days days = (y, mo, d)" by (metis prod_cases3)
  note b = civil_of_days_bounds [OF c]
  have y: "0 \<le> y" "y < 10 ^ 4"
    using assms c by (simp_all add: year_ok_def secs_def days_def)
  have sod: "0 \<le> sod" "sod < 86400" by (simp_all add: sod_def)
  have ns: "nat (t mod Second) < 1000000000" by (simp add: nat_less_iff)
  have r1: "0 \<le> sod div 3600" "sod div 3600 < 24" using sod by auto
  have r2: "0 \<le> sod mod 3600 div 60" "sod mod 3600 div 60 < 60" by auto
  have r3: "0 \<le> sod mod 60" "sod mod 60 < 60" by auto
  have "sod mod 60 = sod mod 3600 mod 60" by (simp add: mod_mod_cancel)
  then have "sod div 3600 * 3600 + sod mod 3600 div 60 * 60 + sod mod 60 = sod"
    using div_mult_mod_eq [of "sod mod 3600" 60] div_mult_mod_eq [of sod 3600] by linarith
  then have "time_of_civil y mo d (sod div 3600) (sod mod 3600 div 60) (sod mod 60)
        (int (nat (t mod Second))) = (days * 86400 + sod) * Second + t mod Second"
    using b(5) by (simp add: time_of_civil_def algebra_simps)
  also have "\<dots> = t" by (simp add: days_def sod_def secs_def)
  finally have t: "time_of_civil y mo d (sod div 3600) (sod mod 3600 div 60) (sod mod 60)
    (int (nat (t mod Second))) = t" .
  have "local_text t @ z = append_int y 4 @ ''-'' @ append_int mo 2 @ ''-'' @ append_int d 2 @
      ''T'' @ append_int (sod div 3600) 2 @ '':'' @ append_int (sod mod 3600 div 60) 2 @ '':'' @
      append_int (sod mod 60) 2 @ frac_text (nat (t mod Second)) @ z"
    using c unfolding local_text_def Let_def secs_def days_def sod_def by (simp only: prod.case append_assoc)
  then show ?thesis
    using parse_RFC3339_fields [OF y b(1,2,3,6,4) r1 r2 r3 ns assms(2,3)] t by (simp only:)
qed

theorem parse_format_RFC3339Nano: "year_ok t \<Longrightarrow> parse_RFC3339 (format_RFC3339Nano t) = Some t"
  using parse_local_text [of t "''Z''" 0] by (simp add: format_RFC3339Nano_local parse_zone_def)

theorem parse_format_zoned:
  assumes "year_ok (t + off * Second)" "zone_ok off"
  shows "parse_RFC3339 (format_zoned off t) = Some t"
  using parse_local_text [OF assms(1) parse_zone_text [OF assms(2)]] by (simp add: format_zoned_def zone_text_def)

section \<open>Durations\<close>

text \<open>
  \<open>time.ParseDuration\<close>: an optional sign, then the text \<open>0\<close> or a non-empty sequence of decimal
  numbers with a unit. The integral part is exact and bounded by \<open>2^63\<close>, the fraction is a float.
  Micro is \<open>us\<close> or one of the two UTF-8 spellings of the sign.
\<close>

definition unit_ns :: "string \<Rightarrow> int option" where
  "unit_ns u =
     (if u = ''ns'' then Some 1
      else if u \<in> {''us'', [CHR 0xC2, CHR 0xB5, CHR ''s''], [CHR 0xCE, CHR 0xBC, CHR ''s'']}
      then Some 1000
      else if u = ''ms'' then Some Millisecond
      else if u = ''s'' then Some Second
      else if u = ''m'' then Some Minute
      else if u = ''h'' then Some Hour
      else None)"

fun leading_fraction :: "nat \<Rightarrow> nat \<Rightarrow> string \<Rightarrow> nat \<times> nat" where
  "leading_fraction x scale [] = (x, scale)"
| "leading_fraction x scale (c # cs) =
     (if x > 922337203685477580 \<or> x * 10 + digit_val c > 2 ^ 63 then (x, scale)
      else leading_fraction (x * 10 + digit_val c) (scale * 10) cs)"

definition no_unit_char :: "char \<Rightarrow> bool" where
  "no_unit_char c \<longleftrightarrow> c = CHR ''.'' \<or> is_digit c"

definition fraction_ns :: "int \<Rightarrow> nat \<Rightarrow> nat \<Rightarrow> int" where
  "fraction_ns unit f scale = (if f > 0
     then trunc_rat (fl (float64_of_int (int f) * fl (of_int unit / of_nat scale))) else 0)"

text \<open>The digits before and after the point and the rest; then one number with its unit: the value
  in nanoseconds and the rest of the text.\<close>

definition split_point :: "string \<Rightarrow> string \<times> string" where
  "split_point s = (case s of [] \<Rightarrow> ([], s) | c # r \<Rightarrow>
     if c = CHR ''.'' then (takeWhile is_digit r, dropWhile is_digit r) else ([], s))"

definition duration_part :: "string \<Rightarrow> (int \<times> string) option" where
  "duration_part s =
     (let ints = takeWhile is_digit s; (frac, s2) = split_point (dropWhile is_digit s);
          u = takeWhile (\<lambda>c. \<not> no_unit_char c) s2; rest = dropWhile (\<lambda>c. \<not> no_unit_char c) s2
      in if ints = [] \<and> frac = [] \<or> int (dec_val ints) > 2 ^ 63 then None
         else (case unit_ns u of None \<Rightarrow> None | Some unit \<Rightarrow>
           if int (dec_val ints) > 2 ^ 63 div unit then None
           else (let (f, scale) = leading_fraction 0 1 frac;
                     v = int (dec_val ints) * unit + fraction_ns unit f scale
                 in if v > 2 ^ 63 then None else Some (v, rest))))"

lemma split_point_shorter: "split_point s = (f, r) \<Longrightarrow> length r \<le> length s"
  by (auto simp: split_point_def le_SucI length_dropWhile_le split: list.splits if_splits)

lemma unit_ns_Nil [simp]: "unit_ns [] = None"
  by (simp add: unit_ns_def)

lemma duration_part_shorter: "duration_part s = Some (v, r) \<Longrightarrow> length r < length s"
proof -
  assume *: "duration_part s = Some (v, r)"
  obtain frac s2 where s2: "split_point (dropWhile is_digit s) = (frac, s2)" by fastforce
  have "length s2 \<le> length s"
    using split_point_shorter [OF s2] length_dropWhile_le order_trans by blast
  moreover have r: "r = dropWhile (\<lambda>c. \<not> no_unit_char c) s2"
    and u: "unit_ns (takeWhile (\<lambda>c. \<not> no_unit_char c) s2) \<noteq> None"
    using * s2 by (auto simp: duration_part_def Let_def split: if_splits option.splits prod.splits)
  have "takeWhile (\<lambda>c. \<not> no_unit_char c) s2 \<noteq> []" using u by force
  moreover have "length (takeWhile (\<lambda>c. \<not> no_unit_char c) s2) + length r = length s2"
    by (metis length_append r takeWhile_dropWhile_id)
  ultimately show ?thesis by (cases "takeWhile (\<lambda>c. \<not> no_unit_char c) s2") auto
qed

function duration_loop :: "int \<Rightarrow> string \<Rightarrow> int option" where
  "duration_loop d s = (if s = [] then Some d else
     (case duration_part s of None \<Rightarrow> None
      | Some (v, r) \<Rightarrow> if d + v > 2 ^ 63 then None else duration_loop (d + v) r))"
  by auto
termination by (relation "measure (length o snd)") (auto dest: duration_part_shorter)

declare duration_loop.simps [simp del]

definition ParseDuration :: "string \<Rightarrow> duration option" where
  "ParseDuration s = (let (neg, t) = split_sign s in
     if t = ''0'' then Some 0
     else if t = [] then None
     else (case duration_loop 0 t of None \<Rightarrow> None
       | Some d \<Rightarrow> if neg then Some (- d) else if d > MaxInt64 then None else Some d))"

lemma unit_ns_pos: "unit_ns u = Some n \<Longrightarrow> 0 < n"
  by (auto simp: unit_ns_def split: if_splits)

lemma fraction_ns_nonneg: "0 < u \<Longrightarrow> 0 \<le> fraction_ns u f scale"
  unfolding fraction_ns_def
  by (auto intro!: trunc_rat_nonneg fl_nonneg mult_nonneg_nonneg float64_of_int_nonneg)

lemma duration_part_bounds: "duration_part s = Some (v, r) \<Longrightarrow> 0 \<le> v \<and> v \<le> 2 ^ 63"
  by (auto simp: duration_part_def Let_def fraction_ns_nonneg
      split: list.splits if_splits option.splits prod.splits dest!: unit_ns_pos)

lemma duration_loop_bounds:
  "duration_loop d s = Some e \<Longrightarrow> 0 \<le> d \<Longrightarrow> d \<le> 2 ^ 63 \<Longrightarrow> d \<le> e \<and> e \<le> 2 ^ 63"
proof (induction d s rule: duration_loop.induct)
  case (1 d s)
  show ?case
  proof (cases "s = []")
    case True
    then show ?thesis using 1 by (simp add: duration_loop.simps)
  next
    case False
    then obtain v r where vr: "duration_part s = Some (v, r)" "\<not> d + v > 2 ^ 63"
      "duration_loop (d + v) r = Some e"
      using "1.prems"(1) by (subst (asm) duration_loop.simps) (auto split: option.splits if_splits)
    then show ?thesis
      using "1.IH" [OF False vr(1) refl vr(2,3)] duration_part_bounds [OF vr(1)] "1.prems"(2)
      by linarith
  qed
qed

lemma ParseDuration_in_i64: "ParseDuration s = Some d \<Longrightarrow> in_i64 d"
  by (auto simp: ParseDuration_def Let_def in_i64_def MinInt64_def MaxInt64_def
      split: prod.splits if_splits option.splits dest!: duration_loop_bounds)

section \<open>Clock times\<close>

text \<open>\<open>time.Parse\<close> with the layouts \<open>15:04\<close>, \<open>3:04pm\<close> and \<open>3pm\<close>: hour and minute. A layout's
  \<open>pm\<close> matches the lower-case spellings only.\<close>

definition parse_ampm :: "string \<Rightarrow> (bool \<times> string) option" where
  "parse_ampm s = (if HasPrefix s ''pm'' then Some (True, drop 2 s)
     else if HasPrefix s ''am'' then Some (False, drop 2 s) else None)"

definition hour_12 :: "int \<Rightarrow> bool \<Rightarrow> int" where
  "hour_12 h pm = (if pm \<and> h < 12 then h + 12 else if \<not> pm \<and> h = 12 then 0 else h)"

definition parse_15_04 :: "string \<Rightarrow> (int \<times> int) option" where
  "parse_15_04 s = do {
     (h, s) \<leftarrow> getnum s; s \<leftarrow> expect (CHR '':'') s; (m, s) \<leftarrow> digits_n 2 s;
     if s = [] \<and> h < 24 \<and> m < 60 then Some (h, m) else None }"

definition parse_3_04pm :: "string \<Rightarrow> (int \<times> int) option" where
  "parse_3_04pm s = do {
     (h, s) \<leftarrow> getnum s; s \<leftarrow> expect (CHR '':'') s; (m, s) \<leftarrow> digits_n 2 s;
     (pm, s) \<leftarrow> parse_ampm s;
     if s = [] \<and> h \<le> 12 \<and> m < 60 then Some (hour_12 h pm, m) else None }"

definition parse_3pm :: "string \<Rightarrow> (int \<times> int) option" where
  "parse_3pm s = do {
     (h, s) \<leftarrow> getnum s; (pm, s) \<leftarrow> parse_ampm s;
     if s = [] \<and> h \<le> 12 then Some (hour_12 h pm, 0) else None }"

definition clock_ok :: "int \<times> int \<times> int \<times> int \<Rightarrow> bool" where
  "clock_ok = (\<lambda>(h, m, s, ns). 0 \<le> h \<and> h < 24 \<and> 0 \<le> m \<and> m < 60 \<and> 0 \<le> s \<and> s < 60 \<and>
     0 \<le> ns \<and> ns < 1000000000)"

lemma digits_n_nonneg: "digits_n w s = Some (v, r) \<Longrightarrow> 0 \<le> v"
  by (auto simp: digits_n_def split: if_splits)

lemma getnum_nonneg: "getnum s = Some (v, r) \<Longrightarrow> 0 \<le> v"
  by (auto simp: getnum_def digits_n_nonneg split: option.splits)

lemma hour_12_bounds: "0 \<le> h \<Longrightarrow> h \<le> 12 \<Longrightarrow> 0 \<le> hour_12 h pm \<and> hour_12 h pm < 24"
  by (auto simp: hour_12_def)

lemma clock_parsers_ok:
  "parse_15_04 s = Some (h, m) \<Longrightarrow> clock_ok (h, m, 0, 0)"
  "parse_3_04pm s = Some (h, m) \<Longrightarrow> clock_ok (h, m, 0, 0)"
  "parse_3pm s = Some (h, m) \<Longrightarrow> clock_ok (h, m, 0, 0)"
  by (auto simp: parse_15_04_def parse_3_04pm_def parse_3pm_def clock_ok_def bind_eq_Some_conv
      split: if_splits prod.splits dest!: digits_n_nonneg getnum_nonneg
      dest: hour_12_bounds)

end
