(* ===== verification/Scheduler.thy ===== *)
theory Scheduler
  imports GoTime
begin

text \<open>
  The scheduler (\<open>internal/scheduler\<close>): when a task that hit a limit is resumed (\<open>wake.go\<close>), whether
  a retry cap forbids it (\<open>caps.go\<close>), and the manager of one wake timer per waiting task
  (\<open>timer.go\<close>). The random generator is a stream of draws with a position; the draws of
  \<open>rng.Float64()\<close> lie in \<open>[0, 1)\<close>. Float products are rounded one by one, as on a machine that does
  not fuse multiplication and addition.
\<close>

section \<open>Policy and wake time (\<open>wake.go\<close>)\<close>

record policy =
  BackoffBase :: duration
  BackoffFactor :: rat
  BackoffMax :: duration
  BackoffJitter :: rat
  ResetBuffer :: duration
  MaxAttempts :: int
  Deadline :: "time option"
  MaxTotalWait :: duration

definition clampToInt64 :: "rat \<Rightarrow> int" where
  "clampToInt64 ns =
     (if ns \<ge> 2 ^ 63 then MaxInt64 else if ns \<le> - (2 ^ 63) then MinInt64 else trunc_rat ns)"

definition backoffFor :: "policy \<Rightarrow> int \<Rightarrow> duration" where
  "backoffFor p n =
     (let baseNs = float64_of_int (BackoffBase p);
          scaled = fl (baseNs * math_Pow (BackoffFactor p) (nat (n - 1)));
          maxNs = float64_of_int (BackoffMax p)
      in clampToInt64 (if scaled > maxNs then maxNs else scaled))"

type_synonym rng = "nat \<Rightarrow> rat"

definition jitteredDelay :: "policy \<Rightarrow> int \<Rightarrow> rng \<Rightarrow> nat \<Rightarrow> duration \<times> nat" where
  "jitteredDelay p n rng k =
     (let backoff = backoffFor p n in
      if BackoffJitter p = 0 then (backoff, k)
      else (let backoffNs = float64_of_int backoff;
                lo = fl (backoffNs * fl (1 - BackoffJitter p));
                hi = fl (backoffNs * fl (1 + BackoffJitter p));
                delayNs = fl (lo + fl (rng k * fl (hi - lo)))
            in (clampToInt64 delayNs, Suc k)))"

definition NextWake ::
  "policy \<Rightarrow> int \<Rightarrow> time option \<Rightarrow> time \<Rightarrow> rng \<Rightarrow> nat \<Rightarrow> time \<times> nat" where
  "NextWake p n0 resetAt now rng k =
     (let n = (if n0 < 1 then 1 else n0);
          (candidate, k') =
            (case resetAt of
               Some r \<Rightarrow> if r > now then (time_Add r (ResetBuffer p), k)
                         else (let (d, k') = jitteredDelay p n rng k in (time_Add now d, k'))
             | None \<Rightarrow> (let (d, k') = jitteredDelay p n rng k in (time_Add now d, k')))
      in case Deadline p of
           Some dl \<Rightarrow> if dl < candidate then (dl, k') else (candidate, k')
         | None \<Rightarrow> (candidate, k'))"

text \<open>What a validated configuration guarantees of the policy, and the documented range of a draw.\<close>

definition policy_ok :: "policy \<Rightarrow> bool" where
  "policy_ok p \<longleftrightarrow> 0 \<le> BackoffBase p \<and> 1 \<le> BackoffFactor p \<and> fl (BackoffFactor p) = BackoffFactor p \<and>
     0 \<le> BackoffMax p \<and> in_i64 (BackoffMax p) \<and>
     0 \<le> BackoffJitter p \<and> BackoffJitter p \<le> 1 \<and> 0 \<le> ResetBuffer p"

definition draws_ok :: "rng \<Rightarrow> bool" where
  "draws_ok rng \<longleftrightarrow> (\<forall>k. 0 \<le> rng k \<and> rng k < 1)"

lemma clampToInt64_in_range [simp]: "in_i64 (clampToInt64 x)"
proof -
  consider "x \<ge> 2 ^ 63" | "x \<le> - (2 ^ 63)" | "- (2 ^ 63) < x" "x < 2 ^ 63" by linarith
  then show ?thesis
  proof cases
    case 3
    have "trunc_rat x \<le> 2 ^ 63 - 1" "- (2 ^ 63) \<le> trunc_rat x"
      using 3 by (auto simp: trunc_rat_def floor_le_iff le_floor_iff ceiling_le_iff le_ceiling_iff)
    then show ?thesis using 3 by (simp add: clampToInt64_def in_i64_def MinInt64_def MaxInt64_def)
  qed (auto simp: clampToInt64_def in_i64_def MinInt64_def MaxInt64_def)
qed

lemma clampToInt64_mono: "x \<le> y \<Longrightarrow> clampToInt64 x \<le> clampToInt64 y"
  using clampToInt64_in_range [of x] clampToInt64_in_range [of y] trunc_rat_mono [of x y]
  by (auto simp: clampToInt64_def in_i64_def)

lemma clampToInt64_nonneg: "0 \<le> x \<Longrightarrow> 0 \<le> clampToInt64 x"
  by (auto simp: clampToInt64_def MaxInt64_def trunc_rat_nonneg)

lemma clampToInt64_of_int: "in_i64 k \<Longrightarrow> clampToInt64 (of_int k) = k"
proof -
  assume k: "in_i64 k"
  have "(of_int k :: rat) \<ge> 2 ^ 63 \<longleftrightarrow> k \<ge> 2 ^ 63" "(of_int k :: rat) \<le> - (2 ^ 63) \<longleftrightarrow> k \<le> - (2 ^ 63)"
    by (metis of_int_le_iff of_int_numeral of_int_power of_int_minus)+
  then show ?thesis using k by (auto simp: clampToInt64_def in_i64_def MinInt64_def MaxInt64_def)
qed

lemma float64_of_int_le_pow63: "k \<le> 2 ^ 63 \<Longrightarrow> float64_of_int k \<le> 2 ^ 63"
proof -
  assume "k \<le> 2 ^ 63"
  then have "float64_of_int k \<le> float64_of_int (2 ^ 63)" by (rule float64_of_int_mono)
  also have "\<dots> = 2 ^ 63"
    using fl_pos_exact [of "2 ^ 63" "2 ^ 52"] bexp_unique [of 63 "2 ^ 63"]
    by (simp add: float64_of_int_def fl_def ulp_def power_int_def)
  finally show ?thesis .
qed

subsection \<open>The backoff\<close>

lemma backoffFor_nonneg:
  assumes "policy_ok p"
  shows "0 \<le> backoffFor p n"
proof -
  have "0 \<le> math_Pow (BackoffFactor p) (nat (n - 1))"
    using assms math_Pow_ge_1 by (meson policy_ok_def order_trans zero_le_one)
  then have "0 \<le> fl (float64_of_int (BackoffBase p) * math_Pow (BackoffFactor p) (nat (n - 1)))"
    using assms by (intro fl_nonneg mult_nonneg_nonneg float64_of_int_nonneg)
      (simp_all add: policy_ok_def)
  then show ?thesis
    using assms float64_of_int_nonneg [of "BackoffMax p"]
    by (simp add: backoffFor_def Let_def clampToInt64_nonneg policy_ok_def)
qed

lemma backoffFor_le_max:
  assumes "BackoffMax p \<le> 2 ^ 53" and "0 \<le> BackoffMax p"
  shows "backoffFor p n \<le> BackoffMax p"
proof -
  have max: "float64_of_int (BackoffMax p) = of_int (BackoffMax p)"
    using assms by (simp add: float64_of_int_def fl_of_int_exact)
  have "in_i64 (BackoffMax p)"
    using assms by (simp add: in_i64_def MinInt64_def MaxInt64_def)
  then show ?thesis
    using clampToInt64_mono [of _ "of_int (BackoffMax p)"]
    by (auto simp: backoffFor_def Let_def max clampToInt64_of_int)
qed

lemma backoffFor_mono:
  assumes "policy_ok p" and "m \<le> n"
  shows "backoffFor p m \<le> backoffFor p n"
proof -
  have "math_Pow (BackoffFactor p) (nat (m - 1)) \<le> math_Pow (BackoffFactor p) (nat (n - 1))"
    using assms by (intro math_Pow_mono) (simp_all add: policy_ok_def nat_mono)
  then have "fl (float64_of_int (BackoffBase p) * math_Pow (BackoffFactor p) (nat (m - 1)))
      \<le> fl (float64_of_int (BackoffBase p) * math_Pow (BackoffFactor p) (nat (n - 1)))"
    using assms float64_of_int_nonneg [of "BackoffBase p"]
    by (intro fl_mono mult_left_mono) (simp_all add: policy_ok_def)
  then show ?thesis
    unfolding backoffFor_def Let_def by (intro clampToInt64_mono) simp
qed

text \<open>
  Floats against integers: \<open>a\<close> stands for the positive integer \<open>A\<close> when it is \<open>A\<close> up to \<open>2^53\<close>, and
  is no smaller than that beyond. Rounded products keep the relation, so Go's power and the backoff
  are the integer formula as long as the maximum is exact.
\<close>

definition stands_for :: "rat \<Rightarrow> int \<Rightarrow> bool" where
  "stands_for a A \<longleftrightarrow> 1 \<le> A \<and> (if A \<le> 2 ^ 53 then a = of_int A else 2 ^ 53 \<le> a)"

lemma fl_pow53 [simp]: "fl 9007199254740992 = 9007199254740992"
  using fl_of_int_exact [of "2 ^ 53"] by simp

lemma stands_for_ge_1: "stands_for a A \<Longrightarrow> 1 \<le> a"
  by (auto simp: stands_for_def split: if_splits)

lemma stands_for_big: "stands_for a A \<Longrightarrow> 2 ^ 53 < A \<Longrightarrow> 2 ^ 53 \<le> a"
  by (simp add: stands_for_def)

lemma stands_for_fl_mult:
  assumes "stands_for a A" and "stands_for b B"
  shows "stands_for (fl (a * b)) (A * B)"
proof (cases "A * B \<le> 2 ^ 53")
  case True
  have ge: "1 \<le> A" "1 \<le> B" using assms by (simp_all add: stands_for_def)
  then have "A \<le> A * B" "B \<le> A * B" by (simp_all add: mult_le_cancel_left1 mult_le_cancel_right1)
  then have AB: "A \<le> 2 ^ 53" "B \<le> 2 ^ 53" "1 \<le> A * B" using True ge by linarith+
  then have "a = of_int A" "b = of_int B" using assms by (simp_all add: stands_for_def)
  then have "fl (a * b) = of_int (A * B)"
    using fl_of_int_exact [of "A * B"] True ge by simp
  then show ?thesis using True AB by (simp add: stands_for_def)
next
  case False
  have ge: "1 \<le> a" "1 \<le> b" "1 \<le> A" "1 \<le> B"
    using assms stands_for_ge_1 by (auto simp: stands_for_def)
  have "2 ^ 53 \<le> a * b"
  proof (cases "A \<le> 2 ^ 53 \<and> B \<le> 2 ^ 53")
    case True
    then have "a * b = of_int (A * B)" using assms by (simp add: stands_for_def)
    moreover have "(2 ^ 53 :: rat) \<le> of_int (A * B)"
      using False by (metis le_cases of_int_le_iff of_int_numeral of_int_power)
    ultimately show ?thesis by simp
  next
    case False
    then have "2 ^ 53 \<le> a \<or> 2 ^ 53 \<le> b" using assms by (auto simp: stands_for_def)
    then show ?thesis using ge mult_mono [of "2 ^ 53" a 1 b] mult_mono [of 1 a "2 ^ 53" b] by auto
  qed
  then have "2 ^ 53 \<le> fl (a * b)" using fl_mono [of "2 ^ 53" "a * b"] by simp
  moreover have "1 \<le> A * B" using False by simp
  ultimately show ?thesis using False by (simp add: stands_for_def)
qed

lemma stands_for_pow_loop:
  "stands_for a A \<Longrightarrow> stands_for x X \<Longrightarrow> stands_for (pow_loop a x n) (A * X ^ n)"
proof (induction n arbitrary: a A x X rule: less_induct)
  case (less n)
  show ?case
  proof (cases "n = 0")
    case True
    then show ?thesis using less.prems by simp
  next
    case False
    have sq: "stands_for (fl (x * x)) (X * X)" using less.prems by (simp add: stands_for_fl_mult)
    have "X ^ n = X ^ (n mod 2 + 2 * (n div 2))" by simp
    also have "\<dots> = (if odd n then X else 1) * (X * X) ^ (n div 2)"
      unfolding power_add power_mult by (simp add: power2_eq_square odd_iff_mod_2_eq_one)
    finally have n: "n div 2 < n" "X ^ n = (if odd n then X else 1) * (X * X) ^ (n div 2)"
      using False by simp_all
    show ?thesis
      using less.IH [OF n(1) _ sq, of "if odd n then fl (a * x) else a"
          "if odd n then A * X else A"] less.prems stands_for_fl_mult n False
      by (subst pow_loop.simps) (auto simp: mult.assoc)
  qed
qed

lemma backoffFor_exact:
  assumes factor: "BackoffFactor p = of_int f" "1 \<le> f" "f \<le> 2 ^ 53"
    and base: "0 \<le> BackoffBase p" "BackoffBase p \<le> 2 ^ 53"
    and max: "0 \<le> BackoffMax p" "BackoffMax p \<le> 2 ^ 53" and n: "1 \<le> n"
  shows "backoffFor p n = min (BackoffMax p) (BackoffBase p * f ^ nat (n - 1))"
proof -
  define k where "k = nat (n - 1)"
  have fmax: "float64_of_int (BackoffMax p) = of_int (BackoffMax p)"
    and fbase: "float64_of_int (BackoffBase p) = of_int (BackoffBase p)"
    using base max by (simp_all add: float64_of_int_def fl_of_int_exact)
  have ran: "in_i64 (BackoffMax p)" "\<And>z. 0 \<le> z \<Longrightarrow> z \<le> BackoffMax p \<Longrightarrow> in_i64 z"
    using max by (simp_all add: in_i64_def MinInt64_def MaxInt64_def)
  show ?thesis
  proof (cases "BackoffBase p = 0")
    case True
    then show ?thesis using max ran(2) [of 0] clampToInt64_of_int [of 0] fl_nonneg [of "of_int (BackoffMax p)"]
      by (simp add: backoffFor_def Let_def fmax float64_of_int_def k_def)
  next
    case False
    define P where "P = BackoffBase p * f ^ k"
    define s where "s = fl (of_int (BackoffBase p) * math_Pow (of_int f) k)"
    have "stands_for 1 1" "stands_for (of_int f) f" "stands_for (of_int (BackoffBase p)) (BackoffBase p)"
      using factor base False by (simp_all add: stands_for_def)
    then have sP: "stands_for s P"
      using stands_for_pow_loop [of 1 1 "of_int f" f k] stands_for_fl_mult
      by (simp add: s_def P_def math_Pow_def)
    have b: "backoffFor p n = clampToInt64 (if s > of_int (BackoffMax p) then of_int (BackoffMax p) else s)"
      by (simp add: backoffFor_def fbase fmax s_def k_def factor)
    show ?thesis
    proof (cases "P \<le> 2 ^ 53")
      case True
      then have s: "s = of_int P" and P: "0 \<le> P" using sP by (simp_all add: stands_for_def)
      have "backoffFor p n = clampToInt64 (of_int (min (BackoffMax p) P))"
        unfolding b s of_int_less_iff by (simp add: min_def)
      also have "\<dots> = min (BackoffMax p) P"
        using P max by (intro clampToInt64_of_int ran(2)) simp_all
      finally show ?thesis by (simp add: P_def k_def)
    next
      case False
      have big: "(of_int (BackoffMax p) :: rat) \<le> 2 ^ 53"
        using max by (metis of_int_le_iff of_int_numeral of_int_power)
      then have "of_int (BackoffMax p) \<le> s" using False sP by (simp add: stands_for_def)
      then have "backoffFor p n = BackoffMax p" using b ran clampToInt64_of_int by auto
      then show ?thesis using False max by (simp add: P_def k_def min_def)
    qed
  qed
qed

subsection \<open>The jittered delay and the wake time\<close>

definition delay_lo :: "policy \<Rightarrow> int \<Rightarrow> duration" where
  "delay_lo p n = clampToInt64 (fl (float64_of_int (backoffFor p n) * fl (1 - BackoffJitter p)))"

definition delay_hi :: "policy \<Rightarrow> int \<Rightarrow> duration" where
  "delay_hi p n = (let b = float64_of_int (backoffFor p n); lo = fl (b * fl (1 - BackoffJitter p));
     hi = fl (b * fl (1 + BackoffJitter p)) in clampToInt64 (fl (lo + fl (hi - lo))))"

lemma jitter_parts:
  fixes n :: int
  assumes "policy_ok p"
  defines "b \<equiv> float64_of_int (backoffFor p n)"
  shows "0 \<le> fl (b * fl (1 - BackoffJitter p))"
    and "fl (b * fl (1 - BackoffJitter p)) \<le> fl (b * fl (1 + BackoffJitter p))"
proof -
  have "0 \<le> b" using backoffFor_nonneg [OF assms(1)] by (simp add: b_def float64_of_int_nonneg)
  moreover have "0 \<le> fl (1 - BackoffJitter p)" "fl (1 - BackoffJitter p) \<le> fl (1 + BackoffJitter p)"
    using assms by (simp_all add: policy_ok_def fl_nonneg fl_mono)
  ultimately show "0 \<le> fl (b * fl (1 - BackoffJitter p))"
    "fl (b * fl (1 - BackoffJitter p)) \<le> fl (b * fl (1 + BackoffJitter p))"
    by (auto intro!: fl_nonneg fl_mono mult_left_mono)
qed

lemma jitteredDelay_bounds:
  assumes "policy_ok p" and "draws_ok rng" and "BackoffJitter p \<noteq> 0"
  shows "delay_lo p n \<le> fst (jitteredDelay p n rng k)"
    and "fst (jitteredDelay p n rng k) \<le> delay_hi p n"
proof -
  define b where "b = float64_of_int (backoffFor p n)"
  define lo where "lo = fl (b * fl (1 - BackoffJitter p))"
  define hi where "hi = fl (b * fl (1 + BackoffJitter p))"
  have le: "0 \<le> fl (hi - lo)"
    using jitter_parts [OF assms(1), of n] by (simp add: b_def lo_def hi_def fl_nonneg)
  have u: "0 \<le> rng k" "rng k \<le> 1" using assms(2) by (auto simp: draws_ok_def less_imp_le)
  have "0 \<le> fl (rng k * fl (hi - lo))"
    using mult_nonneg_nonneg [OF u(1) le] by (rule fl_nonneg)
  then have "fl lo \<le> fl (lo + fl (rng k * fl (hi - lo)))" by (intro fl_mono) simp
  moreover have "fl lo = lo" by (simp add: lo_def)
  moreover have "fl (rng k * fl (hi - lo)) \<le> fl (hi - lo)"
    using fl_mono [OF mult_left_le_one_le [OF le u]] by (simp only: fl_idem)
  then have "fl (lo + fl (rng k * fl (hi - lo))) \<le> fl (lo + fl (hi - lo))" by (intro fl_mono) simp
  ultimately show "delay_lo p n \<le> fst (jitteredDelay p n rng k)"
    "fst (jitteredDelay p n rng k) \<le> delay_hi p n"
    using assms(3) unfolding jitteredDelay_def delay_lo_def delay_hi_def Let_def
    by (simp_all add: clampToInt64_mono flip: b_def lo_def hi_def)
qed

lemma jitteredDelay_nonneg:
  assumes "policy_ok p" and "draws_ok rng"
  shows "0 \<le> fst (jitteredDelay p n rng k)"
proof (cases "BackoffJitter p = 0")
  case True
  then show ?thesis using backoffFor_nonneg [OF assms(1)] by (simp add: jitteredDelay_def)
next
  case False
  have "0 \<le> delay_lo p n"
    using jitter_parts [OF assms(1)] by (simp add: delay_lo_def clampToInt64_nonneg)
  then show ?thesis using jitteredDelay_bounds(1) [OF assms False] by (rule order_trans)
qed

lemma NextWake_deadline: "Deadline p = Some dl \<Longrightarrow> fst (NextWake p n r now rng k) \<le> dl"
  by (auto simp: NextWake_def Let_def split: prod.splits)

lemma NextWake_not_past:
  assumes "policy_ok p" and "draws_ok rng" and "\<forall>dl. Deadline p = Some dl \<longrightarrow> now \<le> dl"
  shows "now \<le> fst (NextWake p n r now rng k)"
  using assms jitteredDelay_nonneg [OF assms(1,2), of _ k]
  by (auto simp: NextWake_def Let_def time_Add_def policy_ok_def case_prod_beta
      split: prod.splits option.splits)

lemma NextWake_reset:
  "now < r \<Longrightarrow> Deadline p = None \<or> r + ResetBuffer p \<le> the (Deadline p) \<Longrightarrow>
     NextWake p n (Some r) now rng k = (r + ResetBuffer p, k)"
  by (auto simp: NextWake_def time_Add_def split: option.splits)

lemma NextWake_backoff:
  "resetAt = None \<or> the resetAt \<le> now \<Longrightarrow> Deadline p = None \<Longrightarrow>
     NextWake p n resetAt now rng k
       = (now + fst (jitteredDelay p (max 1 n) rng k), snd (jitteredDelay p (max 1 n) rng k))"
  by (auto simp: NextWake_def Let_def time_Add_def max_def case_prod_beta split: option.splits)

section \<open>Retry caps (\<open>caps.go\<close>)\<close>

datatype cap = CapNone | CapMaxAttempts | CapDeadline | CapMaxTotalWait

fun cap_String :: "cap \<Rightarrow> string" where
  "cap_String CapMaxAttempts = ''max_attempts''"
| "cap_String CapDeadline = ''deadline''"
| "cap_String CapMaxTotalWait = ''max_total_wait''"
| "cap_String CapNone = []"

definition ExceededCap :: "policy \<Rightarrow> int \<Rightarrow> time \<Rightarrow> duration \<Rightarrow> duration \<Rightarrow> cap" where
  "ExceededCap p attemptNo now cumulativeWait proposedWait =
     (if MaxAttempts p \<noteq> 0 \<and> attemptNo \<ge> MaxAttempts p then CapMaxAttempts
      else if (case Deadline p of Some dl \<Rightarrow> \<not> now < dl | None \<Rightarrow> False) then CapDeadline
      else if MaxTotalWait p \<noteq> 0 \<and> i64 (cumulativeWait + proposedWait) > MaxTotalWait p
      then CapMaxTotalWait
      else CapNone)"

lemma ExceededCap_None_iff:
  assumes "in_i64 (cumulativeWait + proposedWait)"
  shows "ExceededCap p a now cumulativeWait proposedWait = CapNone \<longleftrightarrow>
    (MaxAttempts p = 0 \<or> a < MaxAttempts p) \<and> (\<forall>dl. Deadline p = Some dl \<longrightarrow> now < dl) \<and>
    (MaxTotalWait p = 0 \<or> cumulativeWait + proposedWait \<le> MaxTotalWait p)"
  using assms by (auto simp: ExceededCap_def i64_id not_less split: option.splits)

lemma ExceededCap_NoneD:
  assumes "ExceededCap p a now c w = CapNone"
  shows "MaxAttempts p = 0 \<or> a < MaxAttempts p" and "Deadline p = Some dl \<Longrightarrow> now < dl"
  using assms by (auto simp: ExceededCap_def split: if_splits option.splits)

section \<open>Wake timers (\<open>timer.go\<close>)\<close>

text \<open>
  \<open>active\<close> maps a task to its outstanding arm; the identity of an arm (its pointer) is a number
  drawn from \<open>next_arm\<close>. \<open>waiting\<close> holds the arms whose \<open>wait\<close> goroutine has not returned, with
  the task and the duration the timer was made with; \<open>canceled\<close> the arms whose channel is closed.
  When a timer expires its goroutine may still find the arm replaced: the select statement may
  take either ready case, so the step \<open>timer_expire\<close> does not ask whether the arm was canceled.
\<close>

record timers =
  active :: "string \<rightharpoonup> nat"
  waiting :: "nat \<rightharpoonup> string \<times> duration"
  canceled :: "nat set"
  next_arm :: nat

definition NewTimers :: timers where
  "NewTimers = \<lparr>active = Map.empty, waiting = Map.empty, canceled = {}, next_arm = 0\<rparr>"

definition timers_Cancel :: "string \<Rightarrow> timers \<Rightarrow> timers" where
  "timers_Cancel tid t =
     (case active t tid of
        Some a \<Rightarrow> t\<lparr>active := (active t)(tid := None), canceled := insert a (canceled t)\<rparr>
      | None \<Rightarrow> t)"

definition timers_Arm :: "time \<Rightarrow> string \<Rightarrow> time \<Rightarrow> timers \<Rightarrow> timers" where
  "timers_Arm now tid wake t0 =
     (let t = timers_Cancel tid t0; a = next_arm t in
      t\<lparr>active := (active t)(tid \<mapsto> a), waiting := (waiting t)(a \<mapsto> (tid, time_Sub wake now)),
        next_arm := Suc a\<rparr>)"

definition timers_Armed :: "timers \<Rightarrow> string \<Rightarrow> bool" where
  "timers_Armed t tid \<longleftrightarrow> active t tid \<noteq> None"

text \<open>The \<open>wait\<close> goroutine of one arm: the timer case, with the task to fire for, and the cancel
  case, which only a closed channel can take.\<close>

definition timer_expire :: "nat \<Rightarrow> timers \<Rightarrow> timers \<times> string option" where
  "timer_expire a t =
     (case waiting t a of
        None \<Rightarrow> (t, None)
      | Some (tid, _) \<Rightarrow>
          if active t tid = Some a
          then (t\<lparr>active := (active t)(tid := None), waiting := (waiting t)(a := None)\<rparr>, Some tid)
          else (t\<lparr>waiting := (waiting t)(a := None)\<rparr>, None))"

definition timer_canceled :: "nat \<Rightarrow> timers \<Rightarrow> timers" where
  "timer_canceled a t = (if a \<in> canceled t then t\<lparr>waiting := (waiting t)(a := None)\<rparr> else t)"

definition timers_Stop :: "timers \<Rightarrow> timers" where
  "timers_Stop t = t\<lparr>active := Map.empty, canceled := canceled t \<union> ran (active t)\<rparr>"

lemmas timer_ops = timers_Cancel_def timers_Arm_def timer_expire_def timer_canceled_def
  timers_Stop_def

text \<open>An armed task has a live goroutine of its own; canceled and expired arms are never active
  again.\<close>

definition arm_task :: "timers \<Rightarrow> nat \<Rightarrow> string option" where
  "arm_task t a = map_option fst (waiting t a)"

definition timers_ok :: "timers \<Rightarrow> bool" where
  "timers_ok t \<longleftrightarrow>
     (\<forall>tid a. active t tid = Some a \<longrightarrow> arm_task t a = Some tid \<and> a \<notin> canceled t) \<and>
     (\<forall>a. arm_task t a \<noteq> None \<longrightarrow> a < next_arm t) \<and> (\<forall>a. a \<in> canceled t \<longrightarrow> a < next_arm t)"

lemma timers_okI:
  assumes "\<And>tid a. active t tid = Some a \<Longrightarrow> arm_task t a = Some tid"
    and "\<And>tid a. active t tid = Some a \<Longrightarrow> a \<notin> canceled t"
    and "\<And>a tid. arm_task t a = Some tid \<Longrightarrow> a < next_arm t"
    and "\<And>a. a \<in> canceled t \<Longrightarrow> a < next_arm t"
  shows "timers_ok t"
  using assms by (auto simp: timers_ok_def)

lemma timers_okD:
  assumes "timers_ok t"
  shows "active t tid = Some a \<Longrightarrow> arm_task t a = Some tid"
    and "active t tid = Some a \<Longrightarrow> a \<notin> canceled t"
    and "arm_task t a = Some tid \<Longrightarrow> a < next_arm t"
    and "a \<in> canceled t \<Longrightarrow> a < next_arm t"
    and "active t tid = Some a \<Longrightarrow> a < next_arm t"
    and "active t tid = Some a \<Longrightarrow> active t tid' = Some a \<Longrightarrow> tid' = tid"
  using assms by (simp_all add: timers_ok_def) (metis option.inject)

lemma timers_ok_New: "timers_ok NewTimers"
  by (simp add: timers_ok_def NewTimers_def arm_task_def)

lemma timers_ok_Cancel: "timers_ok t \<Longrightarrow> timers_ok (timers_Cancel tid t)"
  by (rule timers_okI)
    (auto simp: timers_Cancel_def arm_task_def [of "_\<lparr>active := _, canceled := _\<rparr>"]
      simp flip: arm_task_def split: option.splits if_splits dest: timers_okD)

lemma timers_ok_Arm:
  assumes "timers_ok t0"
  shows "timers_ok (timers_Arm now tid wake t0)"
proof -
  define t where "t = timers_Cancel tid t0"
  have ok: "timers_ok t" using assms by (simp add: t_def timers_ok_Cancel)
  note D = timers_okD [OF ok]
  have "arm_task (timers_Arm now tid wake t0) a = (if a = next_arm t then Some tid else arm_task t a)" for a
    by (simp add: timers_Arm_def Let_def arm_task_def flip: t_def)
  then show ?thesis
    using D(1,2,5) by (intro timers_okI)
      (auto simp: timers_Arm_def Let_def less_Suc_eq simp flip: t_def split: if_splits
        dest: D)
qed

lemma timers_ok_expire:
  assumes "timers_ok t"
  shows "timers_ok (fst (timer_expire a t))"
proof -
  note D = timers_okD [OF assms]
  have "arm_task (fst (timer_expire a t)) b = (if b = a then None else arm_task t b)" for b
    by (auto simp: timer_expire_def arm_task_def split: option.splits)
  moreover have "active (fst (timer_expire a t)) i = Some b \<Longrightarrow> active t i = Some b \<and> b \<noteq> a" for i b
    using D(1) [of i b] D(6)
    by (auto simp: timer_expire_def arm_task_def split: option.splits if_splits)
  moreover have "canceled (fst (timer_expire a t)) = canceled t"
    "next_arm (fst (timer_expire a t)) = next_arm t"
    by (simp_all add: timer_expire_def split: option.splits)
  ultimately show ?thesis by (intro timers_okI) (auto split: if_splits dest: D)
qed

lemma timers_ok_canceled:
  assumes "timers_ok t"
  shows "timers_ok (timer_canceled a t)"
proof -
  note D = timers_okD [OF assms]
  have "arm_task (timer_canceled a t) b = (if b = a \<and> a \<in> canceled t then None else arm_task t b)" for b
    by (simp add: timer_canceled_def arm_task_def)
  moreover have "active (timer_canceled a t) = active t" "canceled (timer_canceled a t) = canceled t"
    "next_arm (timer_canceled a t) = next_arm t"
    by (simp_all add: timer_canceled_def)
  ultimately show ?thesis by (intro timers_okI) (auto split: if_splits dest: D)
qed

lemma timers_ok_Stop: "timers_ok t \<Longrightarrow> timers_ok (timers_Stop t)"
  by (rule timers_okI)
    (auto simp: timers_Stop_def arm_task_def [of "_\<lparr>active := _, canceled := _\<rparr>"] ran_def
      simp flip: arm_task_def dest: timers_okD)

text \<open>What a client may rely on: the contract of a timer manager.\<close>

locale wake_timers =
  fixes arm :: "time \<Rightarrow> string \<Rightarrow> time \<Rightarrow> 't \<Rightarrow> 't"
    and cancel :: "string \<Rightarrow> 't \<Rightarrow> 't"
    and armed :: "'t \<Rightarrow> string \<Rightarrow> bool"
  assumes armed_arm: "armed (arm now i wake t) j \<longleftrightarrow> i = j \<or> armed t j"
    and armed_cancel: "armed (cancel i t) j \<longleftrightarrow> i \<noteq> j \<and> armed t j"
begin

lemma armed_arm_cancel: "armed (arm now i wake (cancel i t)) j \<longleftrightarrow> armed (arm now i wake t) j"
  by (auto simp: armed_arm armed_cancel)

lemma cancel_arm: "armed (cancel i (arm now i wake t)) j \<longleftrightarrow> armed (cancel i t) j"
  by (auto simp: armed_arm armed_cancel)

end

interpretation wt: wake_timers timers_Arm timers_Cancel timers_Armed
  by unfold_locales
    (auto simp: timers_Armed_def timers_Arm_def timers_Cancel_def Let_def split: option.splits)

text \<open>Any interleaving of the clients' calls with the goroutines of the arms: the tasks fired for,
  in order.\<close>

datatype timer_op =
    OpArm time string time
  | OpCancel string
  | OpExpire nat
  | OpCanceled nat
  | OpStop

fun timer_step :: "timer_op \<Rightarrow> timers \<Rightarrow> timers \<times> string list" where
  "timer_step (OpArm now i wake) t = (timers_Arm now i wake t, [])"
| "timer_step (OpCancel i) t = (timers_Cancel i t, [])"
| "timer_step (OpExpire a) t =
     (let (t', f) = timer_expire a t in (t', case f of Some i \<Rightarrow> [i] | None \<Rightarrow> []))"
| "timer_step (OpCanceled a) t = (timer_canceled a t, [])"
| "timer_step OpStop t = (timers_Stop t, [])"

fun timer_run :: "timer_op list \<Rightarrow> timers \<Rightarrow> timers \<times> string list" where
  "timer_run [] t = (t, [])"
| "timer_run (x # xs) t =
     (let (t', f) = timer_step x t; (t'', g) = timer_run xs t' in (t'', f @ g))"

fun arms_task :: "string \<Rightarrow> timer_op \<Rightarrow> bool" where
  "arms_task i (OpArm now j wake) \<longleftrightarrow> i = j"
| "arms_task i _ \<longleftrightarrow> False"

lemma timer_expire_fires:
  "snd (timer_expire a t) = Some i \<Longrightarrow> active t i = Some a \<and> active (fst (timer_expire a t)) i = None"
  by (auto simp: timer_expire_def split: option.splits if_splits)

lemma timers_Armed_expire:
  "timers_Armed (fst (timer_expire a t)) i \<longleftrightarrow> timers_Armed t i \<and> snd (timer_expire a t) \<noteq> Some i"
  by (auto simp: timer_expire_def timers_Armed_def split: option.splits if_splits)

lemma timers_Armed_rest [simp]:
  "timers_Armed (timer_canceled a t) i = timers_Armed t i"
  "timers_Armed (timers_Stop t) i = False"
  "timers_Armed NewTimers i = False"
  by (simp_all add: timers_Armed_def timer_canceled_def timers_Stop_def NewTimers_def)

text \<open>One step fires for a task at most once, and only if it was armed, which it then is no more.\<close>

lemma timer_step_balance:
  "count_list (snd (timer_step x t)) i + (if timers_Armed (fst (timer_step x t)) i then 1 else 0)
     \<le> (if timers_Armed t i then 1 else 0) + (if arms_task i x then 1 else (0::nat))"
proof (cases x)
  case (OpExpire a)
  show ?thesis
    using timer_expire_fires [of a t i] unfolding OpExpire
    by (cases "snd (timer_expire a t)")
      (auto simp: case_prod_beta timers_Armed_expire, auto simp: timers_Armed_def)
qed (auto simp: wt.armed_arm wt.armed_cancel)

lemma timer_run_balance:
  "count_list (snd (timer_run xs t)) i + (if timers_Armed (fst (timer_run xs t)) i then 1 else 0)
     \<le> (if timers_Armed t i then 1 else 0) + length (filter (arms_task i) xs)"
proof (induction xs arbitrary: t)
  case (Cons x xs)
  show ?case
    using timer_step_balance [of x t i] Cons.IH [of "fst (timer_step x t)"]
    by (simp add: case_prod_beta split: if_splits)
qed simp

lemma timer_run_append:
  "timer_run (xs @ ys) t = (let (t', f) = timer_run xs t; (t'', g) = timer_run ys t' in (t'', f @ g))"
  by (induction xs arbitrary: t) (auto simp: case_prod_beta Let_def)

lemma timers_ok_run: "timers_ok t \<Longrightarrow> timers_ok (fst (timer_run xs t))"
proof (induction xs arbitrary: t)
  case (Cons x xs)
  have "timers_ok (fst (timer_step x t))"
    using Cons.prems by (cases x) (simp_all add: case_prod_beta timers_ok_Arm timers_ok_Cancel
        timers_ok_expire timers_ok_canceled timers_ok_Stop)
  then show ?case using Cons.IH by (simp add: case_prod_beta)
qed simp

section \<open>Properties\<close>

text \<open>For an integral backoff factor and a maximum of at most \<open>2^53\<close> nanoseconds (104 days), the
  float computation of \<open>backoffFor\<close>, Go's repeated squaring with its roundings included, is exactly
  the documented \<open>min(BackoffMax, BackoffBase * BackoffFactor^(n-1))\<close>, however large the power.\<close>

theorem backoffFor_formula:
  assumes "BackoffFactor p = of_int f" and "1 \<le> f" and "f \<le> 2 ^ 53"
    and "0 \<le> BackoffBase p" and "BackoffBase p \<le> 2 ^ 53"
    and "0 \<le> BackoffMax p" and "BackoffMax p \<le> 2 ^ 53" and "1 \<le> n"
  shows "backoffFor p n = min (BackoffMax p) (BackoffBase p * f ^ nat (n - 1))"
  by (rule backoffFor_exact [OF assms])

definition default_policy :: policy where
  "default_policy = \<lparr>BackoffBase = 30 * Second, BackoffFactor = 2, BackoffMax = 1800 * Second,
     BackoffJitter = 1 / 4, ResetBuffer = 5 * Second, MaxAttempts = 0, Deadline = None,
     MaxTotalWait = 0\<rparr>"

theorem backoffFor_formula_witness: "backoffFor default_policy 4 = 240 * Second"
  using backoffFor_formula [of default_policy 2 4] by (simp add: default_policy_def)



text \<open>When the waits add up without overflow, no cap is exceeded exactly if the attempts, the
  deadline and the total wait all leave room; otherwise the reported cap is the first exceeded one in
  the documented order.\<close>

theorem ExceededCap_order:
  assumes "in_i64 (waited + proposed)"
  shows "ExceededCap p a now waited proposed =
    (if MaxAttempts p \<noteq> 0 \<and> MaxAttempts p \<le> a then CapMaxAttempts
     else if \<exists>dl \<in> set_option (Deadline p). dl \<le> now then CapDeadline
     else if MaxTotalWait p \<noteq> 0 \<and> MaxTotalWait p < waited + proposed then CapMaxTotalWait
     else CapNone)
    \<and> (ExceededCap p a now waited proposed = CapNone \<longleftrightarrow>
       cap_String (ExceededCap p a now waited proposed) = [])"
  using assms by (auto simp: ExceededCap_def i64_id split: option.splits)

theorem ExceededCap_order_witness:
  "ExceededCap (default_policy\<lparr>MaxTotalWait := 7\<rparr>) 1 100 5 3 = CapMaxTotalWait"
  using ExceededCap_order [of 5 3 "default_policy\<lparr>MaxTotalWait := 7\<rparr>" 1 100]
  by (simp add: default_policy_def in_i64_def MinInt64_def MaxInt64_def)

text \<open>The sum of the total-wait cap wraps: once a task has waited at all, a reset time so far away
  that \<open>Sub\<close> saturates (the year 9999 is enough) is let through, whatever \<open>max_total_wait\<close> says.\<close>

theorem total_wait_cap_overflow:
  assumes "0 < waited" and "in_i64 waited" and "MaxAttempts p = 0" and "Deadline p = None"
    and "0 \<le> MaxTotalWait p" and "MaxInt64 \<le> reset - now"
  shows "ExceededCap p a now waited (time_Sub reset now) = CapNone"
proof -
  have "time_Sub reset now = MaxInt64"
    using assms(6) by (auto simp: time_Sub_def clamp_i64_def MinInt64_def MaxInt64_def)
  moreover have "i64 (waited + MaxInt64) = waited - 1 - 2 ^ 63"
  proof -
    have "waited + MaxInt64 + 2 ^ 63 = waited - 1 + 2 ^ 64" by (simp add: MaxInt64_def)
    moreover have "(waited - 1 + 2 ^ 64) mod 2 ^ 64 = waited - 1"
      unfolding mod_add_self2
      using assms(1,2) by (intro mod_pos_pos_trivial) (simp_all add: in_i64_def MaxInt64_def)
    ultimately show ?thesis by (simp only: i64_def)
  qed
  ultimately show ?thesis
    using assms by (auto simp: ExceededCap_def in_i64_def MaxInt64_def)
qed

theorem total_wait_cap_overflow_witness:
  "\<exists>r now. parse_RFC3339 ''9999-12-31T00:00:00Z'' = Some r \<and>
     parse_RFC3339 ''2026-01-01T00:00:00Z'' = Some now \<and>
     ExceededCap (default_policy\<lparr>MaxTotalWait := Hour\<rparr>) 2 now Second (time_Sub r now) = CapNone"
proof -
  have r: "parse_RFC3339 ''9999-12-31T00:00:00Z'' = Some 253402214400000000000" by code_simp
  have now: "parse_RFC3339 ''2026-01-01T00:00:00Z'' = Some 1767225600000000000" by code_simp
  show ?thesis
    using total_wait_cap_overflow [of Second "default_policy\<lparr>MaxTotalWait := Hour\<rparr>"
        253402214400000000000 1767225600000000000 2] r now
    by (simp add: default_policy_def in_i64_def MinInt64_def MaxInt64_def)
qed



end
