(* ===== verification/Store.thy ===== *)
theory Store
  imports Scheduler "HOL-Library.Product_Lexorder"
begin

text \<open>
  The durable state (\<open>internal/store\<close>): the tables of \<open>migrations/0001_init.sql\<close> as lists of rows in
  insertion order, the SQL statements of \<open>crud.go\<close> with the constraints the schema declares (primary
  keys, the unique attempt number, foreign keys and their cascades), the write transaction, and the
  migrations of \<open>store.go\<close>. Rows hold timestamps as the texts the code writes. A column with JSON of
  the argument list is represented by the list; the configuration snapshot is an opaque text. Failures
  of the driver to begin or to commit are an argument of the transaction.
\<close>

section \<open>Models (\<open>models.go\<close>)\<close>

datatype status = PENDING | RUNNING | WAITING | PAUSED | SUCCEEDED | FAILED | STOPPED

fun status_String :: "status \<Rightarrow> string" where
  "status_String PENDING = ''PENDING''"
| "status_String RUNNING = ''RUNNING''"
| "status_String WAITING = ''WAITING''"
| "status_String PAUSED = ''PAUSED''"
| "status_String SUCCEEDED = ''SUCCEEDED''"
| "status_String FAILED = ''FAILED''"
| "status_String STOPPED = ''STOPPED''"

text \<open>The struct and the row differ in the type of their timestamps only.\<close>

record 'ts task_rec =
  ID :: string
  Name :: string
  Provider :: string
  Mode :: string
  Cwd :: string
  SessionMode :: string
  SessionRef :: "string option"
  Prompt :: "string option"
  Args :: "string list"
  ConfigJSON :: string
  Status :: status
  CurrentAttempt :: int
  TotalAttempts :: int
  NextWakeAt :: "'ts option"
  LastOutcome :: "string option"
  LastResetAt :: "'ts option"
  CumulativeWaitMS :: int
  DeadlineAt :: "'ts option"
  ExitReason :: "string option"
  CreatedAt :: 'ts
  UpdatedAt :: 'ts

record 'ts attempt_rec =
  a_ID :: string
  a_TaskID :: string
  a_AttemptNo :: int
  a_PID :: "int option"
  a_StartedAt :: 'ts
  a_EndedAt :: "'ts option"
  a_ExitCode :: "int option"
  a_Outcome :: "string option"
  a_ResetAt :: "'ts option"
  a_MatchedRule :: "string option"
  a_StdoutPath :: string
  a_StderrPath :: string

record 'ts event_rec =
  e_ID :: int
  e_TaskID :: string
  e_TS :: 'ts
  e_Type :: string
  e_Detail :: string

type_synonym task = "time task_rec"
type_synonym attempt = "time attempt_rec"
type_synonym event_row = "time event_rec"

definition timeToDB :: "time \<Rightarrow> string" where
  "timeToDB t = format_RFC3339Nano t"

definition timePtrToDB :: "time option \<Rightarrow> string option" where
  "timePtrToDB t = map_option timeToDB t"

definition timeFromDB :: "string \<Rightarrow> time result" where
  "timeFromDB s = (case parse_RFC3339 s of Some t \<Rightarrow> Inr t
     | None \<Rightarrow> Inl (Err (''parsing time '' @ Quote s)))"

definition timePtrFromDB :: "string option \<Rightarrow> time option result" where
  "timePtrFromDB s = (case s of None \<Rightarrow> Inr None
     | Some s \<Rightarrow> (case timeFromDB s of Inl e \<Rightarrow> Inl e | Inr t \<Rightarrow> Inr (Some t)))"

lemma timeFromDB_timeToDB [simp]: "year_ok t \<Longrightarrow> timeFromDB (timeToDB t) = Inr t"
  by (simp add: timeFromDB_def timeToDB_def parse_format_RFC3339Nano)

lemma timePtrFromDB_timePtrToDB [simp]:
  "\<forall>u. t = Some u \<longrightarrow> year_ok u \<Longrightarrow> timePtrFromDB (timePtrToDB t) = Inr t"
  by (cases t) (simp_all add: timePtrFromDB_def timePtrToDB_def)

section \<open>The database\<close>

record db =
  db_tasks :: "string task_rec list"
  db_attempts :: "string attempt_rec list"
  db_events :: "string event_rec list"
  db_event_seq :: int

definition empty_db :: db where
  "empty_db = \<lparr>db_tasks = [], db_attempts = [], db_events = [], db_event_seq = 0\<rparr>"

definition or_empty_object :: "string \<Rightarrow> string" where
  "or_empty_object s = (if s = [] then ''{}'' else s)"

definition row_of_task :: "task \<Rightarrow> string task_rec" where
  "row_of_task t =
     \<lparr>ID = ID t, Name = Name t, Provider = Provider t, Mode = Mode t, Cwd = Cwd t,
      SessionMode = SessionMode t, SessionRef = SessionRef t, Prompt = Prompt t, Args = Args t,
      ConfigJSON = or_empty_object (ConfigJSON t), Status = Status t,
      CurrentAttempt = CurrentAttempt t, TotalAttempts = TotalAttempts t,
      NextWakeAt = timePtrToDB (NextWakeAt t), LastOutcome = LastOutcome t,
      LastResetAt = timePtrToDB (LastResetAt t), CumulativeWaitMS = CumulativeWaitMS t,
      DeadlineAt = timePtrToDB (DeadlineAt t), ExitReason = ExitReason t,
      CreatedAt = timeToDB (CreatedAt t), UpdatedAt = timeToDB (UpdatedAt t)\<rparr>"

definition row_of_attempt :: "attempt \<Rightarrow> string attempt_rec" where
  "row_of_attempt a =
     \<lparr>a_ID = a_ID a, a_TaskID = a_TaskID a, a_AttemptNo = a_AttemptNo a, a_PID = a_PID a,
      a_StartedAt = timeToDB (a_StartedAt a), a_EndedAt = timePtrToDB (a_EndedAt a),
      a_ExitCode = a_ExitCode a, a_Outcome = a_Outcome a, a_ResetAt = timePtrToDB (a_ResetAt a),
      a_MatchedRule = a_MatchedRule a, a_StdoutPath = a_StdoutPath a, a_StderrPath = a_StderrPath a\<rparr>"

definition sql_unique :: "string \<Rightarrow> go_error" where
  "sql_unique cols = Err (''UNIQUE constraint failed: '' @ cols)"

definition sql_foreign_key :: go_error where
  "sql_foreign_key = Err ''FOREIGN KEY constraint failed''"

section \<open>Statements inside a transaction (\<open>crud.go\<close>)\<close>

definition Tx_CreateTask :: "task \<Rightarrow> db \<Rightarrow> db result" where
  "Tx_CreateTask t d =
     (if ID t \<in> ID ` set (db_tasks d)
      then Inl (Wrap (''create task '' @ ID t @ '': '') (sql_unique ''tasks.id'') [])
      else Inr (d\<lparr>db_tasks := db_tasks d @ [row_of_task t]\<rparr>))"

definition Tx_UpdateTask :: "task \<Rightarrow> db \<Rightarrow> db result" where
  "Tx_UpdateTask t d =
     (if ID t \<in> ID ` set (db_tasks d)
      then Inr (d\<lparr>db_tasks := map (\<lambda>r. if ID r = ID t
             then (row_of_task t)\<lparr>CreatedAt := CreatedAt r\<rparr> else r) (db_tasks d)\<rparr>)
      else Inl (Wrap (''update task '' @ ID t @ '': '') ErrNotFound []))"

definition Tx_AddAttempt :: "attempt \<Rightarrow> db \<Rightarrow> db result" where
  "Tx_AddAttempt a d =
     (let wrap = (\<lambda>e. Wrap (''add attempt '' @ Itoa (a_AttemptNo a) @ '' for task '' @ a_TaskID a @ '': '') e [])
      in if a_ID a \<in> a_ID ` set (db_attempts d) then Inl (wrap (sql_unique ''attempts.id''))
         else if \<exists>r \<in> set (db_attempts d). a_TaskID r = a_TaskID a \<and> a_AttemptNo r = a_AttemptNo a
         then Inl (wrap (sql_unique ''attempts.task_id, attempts.attempt_no''))
         else if a_TaskID a \<notin> ID ` set (db_tasks d) then Inl (wrap sql_foreign_key)
         else Inr (d\<lparr>db_attempts := db_attempts d @ [row_of_attempt a]\<rparr>))"

definition Tx_UpdateAttempt :: "attempt \<Rightarrow> db \<Rightarrow> db result" where
  "Tx_UpdateAttempt a d =
     (if a_ID a \<in> a_ID ` set (db_attempts d)
      then Inr (d\<lparr>db_attempts := map (\<lambda>r. if a_ID r = a_ID a
             then (row_of_attempt a)\<lparr>a_TaskID := a_TaskID r, a_AttemptNo := a_AttemptNo r\<rparr> else r)
             (db_attempts d)\<rparr>)
      else Inl (Wrap (''update attempt '' @ a_ID a @ '': '') ErrNotFound []))"

text \<open>The identifier of an event is the next value of its \<open>AUTOINCREMENT\<close> sequence.\<close>

definition Tx_AppendEvent :: "event_row \<Rightarrow> db \<Rightarrow> (int \<times> db) result" where
  "Tx_AppendEvent e d =
     (if e_TaskID e \<notin> ID ` set (db_tasks d)
      then Inl (Wrap (''append event '' @ Quote (e_Type e) @ '' for task '' @ e_TaskID e @ '': '') sql_foreign_key [])
      else (let i = db_event_seq d + 1 in
        Inr (i, d\<lparr>db_events := db_events d @ [\<lparr>e_ID = i, e_TaskID = e_TaskID e, e_TS = timeToDB (e_TS e),
            e_Type = e_Type e, e_Detail = or_empty_object (e_Detail e)\<rparr>], db_event_seq := i\<rparr>)))"

definition Tx_DeleteTask :: "string \<Rightarrow> db \<Rightarrow> db result" where
  "Tx_DeleteTask i d =
     (if i \<in> ID ` set (db_tasks d)
      then Inr (d\<lparr>db_tasks := filter (\<lambda>r. ID r \<noteq> i) (db_tasks d),
             db_attempts := filter (\<lambda>r. a_TaskID r \<noteq> i) (db_attempts d),
             db_events := filter (\<lambda>r. e_TaskID r \<noteq> i) (db_events d)\<rparr>)
      else Inl (Wrap (''delete task '' @ i @ '': '') ErrNotFound []))"

definition drop_id :: "(int \<times> db) result \<Rightarrow> db result" where
  "drop_id r = (case r of Inl e \<Rightarrow> Inl e | Inr (i, d) \<Rightarrow> Inr d)"

section \<open>The write transaction\<close>

datatype tx_fault = NoFault | BeginFails go_error | CommitFails go_error

definition UpdateTaskTx ::
  "tx_fault \<Rightarrow> (db \<Rightarrow> db result) \<Rightarrow> db \<Rightarrow> go_error option \<times> db" where
  "UpdateTaskTx fault fn d =
     (case fault of BeginFails e \<Rightarrow> (Some (Wrap ''begin write transaction: '' e []), d)
      | _ \<Rightarrow> (case fn d of
          Inl e \<Rightarrow> (Some e, d)
        | Inr d' \<Rightarrow> (case fault of CommitFails e \<Rightarrow> (Some (Wrap ''commit write transaction: '' e []), d)
            | _ \<Rightarrow> (None, d'))))"

definition CreateTask :: "tx_fault \<Rightarrow> task \<Rightarrow> db \<Rightarrow> go_error option \<times> db" where
  "CreateTask f t = UpdateTaskTx f (Tx_CreateTask t)"

definition AddAttempt :: "tx_fault \<Rightarrow> attempt \<Rightarrow> db \<Rightarrow> go_error option \<times> db" where
  "AddAttempt f a = UpdateTaskTx f (Tx_AddAttempt a)"

definition AppendEvent :: "tx_fault \<Rightarrow> event_row \<Rightarrow> db \<Rightarrow> go_error option \<times> db" where
  "AppendEvent f e = UpdateTaskTx f (drop_id \<circ> Tx_AppendEvent e)"

definition DeleteTask :: "tx_fault \<Rightarrow> string \<Rightarrow> db \<Rightarrow> go_error option \<times> db" where
  "DeleteTask f i = UpdateTaskTx f (Tx_DeleteTask i)"

section \<open>Reads\<close>

definition scanTask :: "string task_rec \<Rightarrow> task result" where
  "scanTask r =
     (case timePtrFromDB (NextWakeAt r) of Inl e \<Rightarrow> Inl e | Inr nw \<Rightarrow>
     (case timePtrFromDB (LastResetAt r) of Inl e \<Rightarrow> Inl e | Inr lr \<Rightarrow>
     (case timePtrFromDB (DeadlineAt r) of Inl e \<Rightarrow> Inl e | Inr dl \<Rightarrow>
     (case timeFromDB (CreatedAt r) of Inl e \<Rightarrow> Inl e | Inr cr \<Rightarrow>
     (case timeFromDB (UpdatedAt r) of Inl e \<Rightarrow> Inl e | Inr up \<Rightarrow>
       Inr \<lparr>ID = ID r, Name = Name r, Provider = Provider r, Mode = Mode r, Cwd = Cwd r,
         SessionMode = SessionMode r, SessionRef = SessionRef r, Prompt = Prompt r, Args = Args r,
         ConfigJSON = ConfigJSON r, Status = Status r, CurrentAttempt = CurrentAttempt r,
         TotalAttempts = TotalAttempts r, NextWakeAt = nw, LastOutcome = LastOutcome r,
         LastResetAt = lr, CumulativeWaitMS = CumulativeWaitMS r, DeadlineAt = dl,
         ExitReason = ExitReason r, CreatedAt = cr, UpdatedAt = up\<rparr>)))))"

definition scanAttempt :: "string attempt_rec \<Rightarrow> attempt result" where
  "scanAttempt r =
     (case timeFromDB (a_StartedAt r) of Inl e \<Rightarrow> Inl e | Inr st \<Rightarrow>
     (case timePtrFromDB (a_EndedAt r) of Inl e \<Rightarrow> Inl e | Inr en \<Rightarrow>
     (case timePtrFromDB (a_ResetAt r) of Inl e \<Rightarrow> Inl e | Inr re \<Rightarrow>
       Inr \<lparr>a_ID = a_ID r, a_TaskID = a_TaskID r, a_AttemptNo = a_AttemptNo r, a_PID = a_PID r,
         a_StartedAt = st, a_EndedAt = en, a_ExitCode = a_ExitCode r, a_Outcome = a_Outcome r,
         a_ResetAt = re, a_MatchedRule = a_MatchedRule r, a_StdoutPath = a_StdoutPath r,
         a_StderrPath = a_StderrPath r\<rparr>)))"

definition scanEvent :: "string event_rec \<Rightarrow> event_row result" where
  "scanEvent r = (case timeFromDB (e_TS r) of Inl e \<Rightarrow> Inl e | Inr ts \<Rightarrow>
     Inr \<lparr>e_ID = e_ID r, e_TaskID = e_TaskID r, e_TS = ts, e_Type = e_Type r, e_Detail = e_Detail r\<rparr>)"

fun scan_rows :: "('r \<Rightarrow> 'a result) \<Rightarrow> (go_error \<Rightarrow> go_error) \<Rightarrow> 'r list \<Rightarrow> 'a list result" where
  "scan_rows f wrap [] = Inr []"
| "scan_rows f wrap (r # rs) =
     (case f r of Inl e \<Rightarrow> Inl (wrap e)
      | Inr x \<Rightarrow> (case scan_rows f wrap rs of Inl e \<Rightarrow> Inl e | Inr xs \<Rightarrow> Inr (x # xs)))"

definition GetTask :: "string \<Rightarrow> db \<Rightarrow> task result" where
  "GetTask i d =
     (let wrap = (\<lambda>e. Wrap (''get task '' @ i @ '': '') e []) in
      case List.find (\<lambda>r. ID r = i) (db_tasks d) of
        None \<Rightarrow> Inl (wrap ErrNotFound)
      | Some r \<Rightarrow> (case scanTask r of Inl e \<Rightarrow> Inl (wrap e) | Inr t \<Rightarrow> Inr t))"

definition ListTasks :: "db \<Rightarrow> task list result" where
  "ListTasks d = scan_rows scanTask (\<lambda>e. Wrap ''list tasks: '' e [])
     (sort_key (\<lambda>r. (CreatedAt r, ID r)) (db_tasks d))"

definition ListAttempts :: "string \<Rightarrow> db \<Rightarrow> attempt list result" where
  "ListAttempts i d =
     scan_rows scanAttempt (\<lambda>e. Wrap (''list attempts for task '' @ i @ '': '') e [])
       (sort_key a_AttemptNo (filter (\<lambda>r. a_TaskID r = i) (db_attempts d)))"

definition ListEvents :: "string \<Rightarrow> db \<Rightarrow> event_row list result" where
  "ListEvents i d =
     scan_rows scanEvent (\<lambda>e. Wrap (''list events for task '' @ i @ '': '') e [])
       (sort_key e_ID (filter (\<lambda>r. e_TaskID r = i) (db_events d)))"

section \<open>Migrations (\<open>store.go\<close>)\<close>

text \<open>\<open>SchemaVersion\<close> of \<open>internal/version\<close>.\<close>

definition SchemaVersion :: int where
  "SchemaVersion = 1"

record migration =
  mig_version :: int
  mig_name :: string
  mig_sql :: string

record dir_entry =
  de_Name :: string
  de_IsDir :: bool
  de_Contents :: "string result"

definition load_entry :: "dir_entry \<Rightarrow> migration option result" where
  "load_entry e =
     (if de_IsDir e \<or> \<not> HasSuffix (de_Name e) ''.sql'' then Inr None
      else case Cut (de_Name e) (CHR ''_'') of
        None \<Rightarrow> Inl (Err (''migration '' @ Quote (de_Name e) @ '': filename missing version prefix''))
      | Some (ver, _) \<Rightarrow> (case Atoi ver of
          None \<Rightarrow> Inl (Err (''migration '' @ Quote (de_Name e) @ '': invalid version prefix''))
        | Some v \<Rightarrow> (case de_Contents e of
            Inl err \<Rightarrow> Inl (Wrap (''read migration '' @ Quote (de_Name e) @ '': '') err [])
          | Inr c \<Rightarrow> Inr (Some \<lparr>mig_version = v, mig_name = de_Name e, mig_sql = c\<rparr>))))"

fun load_entries :: "dir_entry list \<Rightarrow> migration list result" where
  "load_entries [] = Inr []"
| "load_entries (e # es) =
     (case load_entry e of Inl err \<Rightarrow> Inl err
      | Inr mo \<Rightarrow> (case load_entries es of Inl err \<Rightarrow> Inl err
          | Inr ms \<Rightarrow> Inr (case mo of None \<Rightarrow> ms | Some m \<Rightarrow> m # ms)))"

text \<open>Files with distinct versions: the sort of the code need not be stable then.\<close>

definition loadMigrations :: "dir_entry list result \<Rightarrow> migration list result" where
  "loadMigrations dir =
     (case dir of Inl e \<Rightarrow> Inl (Wrap ''read migrations directory: '' e [])
      | Inr es \<Rightarrow> (case load_entries es of Inl e \<Rightarrow> Inl e | Inr ms \<Rightarrow> Inr (sort_key mig_version ms)))"

text \<open>
  The database as the migrations see it: the \<open>daemon_meta\<close> table, if it exists, and the rest as
  an abstract value. \<open>exec\<close> runs the SQL of a migration.
\<close>

record 's schema_db =
  meta_table :: "(string \<rightharpoonup> string) option"
  schema_data :: 's

definition currentVersion :: "'s schema_db \<Rightarrow> int result" where
  "currentVersion s =
     (case meta_table s of None \<Rightarrow> Inr 0
      | Some m \<Rightarrow> (case m ''schema_version'' of None \<Rightarrow> Inr 0
          | Some raw \<Rightarrow> (case Atoi raw of Some v \<Rightarrow> Inr v
              | None \<Rightarrow> Inl (Err (''parse schema_version '' @ Quote raw)))))"

definition record_version :: "int \<Rightarrow> 's schema_db \<Rightarrow> 's schema_db result" where
  "record_version v s =
     (case meta_table s of None \<Rightarrow> Inl (Err ''no such table: daemon_meta'')
      | Some m \<Rightarrow> Inr (s\<lparr>meta_table := Some (m(''schema_version'' \<mapsto> Itoa v))\<rparr>))"

definition applyMigration ::
  "(string \<Rightarrow> 's schema_db \<Rightarrow> 's schema_db result) \<Rightarrow> tx_fault \<Rightarrow> migration \<Rightarrow> 's schema_db
     \<Rightarrow> go_error option \<times> 's schema_db" where
  "applyMigration exec fault m s =
     (case fault of BeginFails e \<Rightarrow> (Some (Wrap ''begin transaction: '' e []), s)
      | _ \<Rightarrow> (case exec (mig_sql m) s of
          Inl e \<Rightarrow> (Some (Wrap ''execute migration sql: '' e []), s)
        | Inr s1 \<Rightarrow> (case record_version (mig_version m) s1 of
            Inl e \<Rightarrow> (Some (Wrap ''record schema version: '' e []), s)
          | Inr s2 \<Rightarrow> (case fault of CommitFails e \<Rightarrow> (Some (Wrap ''commit transaction: '' e []), s)
              | _ \<Rightarrow> (None, s2)))))"

fun apply_pending ::
  "(string \<Rightarrow> 's schema_db \<Rightarrow> 's schema_db result) \<Rightarrow> (nat \<Rightarrow> tx_fault) \<Rightarrow> int \<Rightarrow> migration list
     \<Rightarrow> 's schema_db \<Rightarrow> go_error option \<times> 's schema_db" where
  "apply_pending exec faults cur [] s = (None, s)"
| "apply_pending exec faults cur (m # ms) s =
     (if mig_version m \<le> cur then apply_pending exec (faults \<circ> Suc) cur ms s
      else (case applyMigration exec (faults 0) m s of
          (Some e, s') \<Rightarrow> (Some (Wrap (''apply migration '' @ Quote (mig_name m) @ '': '') e []), s')
        | (None, s') \<Rightarrow> apply_pending exec (faults \<circ> Suc) cur ms s'))"

definition migrate ::
  "(string \<Rightarrow> 's schema_db \<Rightarrow> 's schema_db result) \<Rightarrow> (nat \<Rightarrow> tx_fault) \<Rightarrow> migration list
     \<Rightarrow> 's schema_db \<Rightarrow> go_error option \<times> 's schema_db" where
  "migrate exec faults ms s =
     (case currentVersion s of Inl e \<Rightarrow> (Some (Wrap ''read schema version: '' e []), s)
      | Inr cur \<Rightarrow>
          if cur > SchemaVersion
          then (Some (Err (''schema version '' @ Itoa cur @ '' is newer than this binary's supported version ''
                  @ Itoa SchemaVersion @ '': written by a newer defib binary'')), s)
          else apply_pending exec faults cur ms s)"

section \<open>The contract of a transactional store\<close>

locale atomic_update =
  fixes run :: "'f \<Rightarrow> ('d \<Rightarrow> go_error + 'd) \<Rightarrow> 'd \<Rightarrow> go_error option \<times> 'd"
  assumes run_error: "run f fn d = (Some e, d') \<Longrightarrow> d' = d"
    and run_ok: "run f fn d = (None, d') \<Longrightarrow> fn d = Inr d'"
begin

lemma run_keeps:
  assumes "run f fn d = (r, d')" and "P d" and "\<And>x. fn d = Inr x \<Longrightarrow> P x"
  shows "P d'"
  using assms run_error run_ok by (cases r) blast+

lemma run_cases: "run f fn d = (r, d') \<Longrightarrow> r \<noteq> None \<and> d' = d \<or> r = None \<and> fn d = Inr d'"
  using run_error run_ok by (cases r) blast+

end

interpretation tx: atomic_update UpdateTaskTx
  by unfold_locales (auto simp: UpdateTaskTx_def split: tx_fault.splits sum.splits)

section \<open>Integrity of the tables\<close>

text \<open>The constraints of the schema concern the keys of the rows only.\<close>

definition attempt_keys :: "db \<Rightarrow> (string \<times> string \<times> int) list" where
  "attempt_keys d = map (\<lambda>r. (a_ID r, a_TaskID r, a_AttemptNo r)) (db_attempts d)"

definition event_keys :: "db \<Rightarrow> (int \<times> string) list" where
  "event_keys d = map (\<lambda>r. (e_ID r, e_TaskID r)) (db_events d)"

definition keys_ok ::
  "string list \<Rightarrow> (string \<times> string \<times> int) list \<Rightarrow> (int \<times> string) list \<Rightarrow> int \<Rightarrow> bool" where
  "keys_ok ts as es sq \<longleftrightarrow>
     distinct ts \<and> distinct (map fst as) \<and> distinct (map snd as) \<and>
     (\<forall>(i, t, n) \<in> set as. t \<in> set ts) \<and> (\<forall>(i, t) \<in> set es. t \<in> set ts \<and> i \<le> sq) \<and>
     sorted_wrt (<) (map fst es)"

definition db_ok :: "db \<Rightarrow> bool" where
  "db_ok d \<longleftrightarrow> keys_ok (map ID (db_tasks d)) (attempt_keys d) (event_keys d) (db_event_seq d)"

lemma row_of_task_sel [simp]: "ID (row_of_task t) = ID t"
  by (simp add: row_of_task_def)

lemma row_of_attempt_sel [simp]: "a_ID (row_of_attempt a) = a_ID a"
  "a_TaskID (row_of_attempt a) = a_TaskID a" "a_AttemptNo (row_of_attempt a) = a_AttemptNo a"
  by (simp_all add: row_of_attempt_def)

lemma db_ok_empty [simp]: "db_ok empty_db"
  by (simp add: db_ok_def keys_ok_def empty_db_def attempt_keys_def event_keys_def)

lemma Tx_CreateTask_Inr:
  "Tx_CreateTask t d = Inr d' \<longleftrightarrow>
     ID t \<notin> ID ` set (db_tasks d) \<and> d' = d\<lparr>db_tasks := db_tasks d @ [row_of_task t]\<rparr>"
  by (auto simp: Tx_CreateTask_def)

lemma db_ok_CreateTask: "Tx_CreateTask t d = Inr d' \<Longrightarrow> db_ok d \<Longrightarrow> db_ok d'"
  by (auto simp: Tx_CreateTask_Inr db_ok_def keys_ok_def attempt_keys_def event_keys_def)

lemma Tx_UpdateTask_keys:
  "Tx_UpdateTask t d = Inr d' \<Longrightarrow> map ID (db_tasks d') = map ID (db_tasks d) \<and>
     attempt_keys d' = attempt_keys d \<and> event_keys d' = event_keys d \<and> db_event_seq d' = db_event_seq d"
  by (auto simp: Tx_UpdateTask_def attempt_keys_def event_keys_def split: if_splits)

lemma db_ok_UpdateTask: "Tx_UpdateTask t d = Inr d' \<Longrightarrow> db_ok d \<Longrightarrow> db_ok d'"
  using Tx_UpdateTask_keys [of t d d'] by (simp add: db_ok_def)

lemma Tx_AddAttempt_Inr:
  "Tx_AddAttempt a d = Inr d' \<longleftrightarrow> a_ID a \<notin> fst ` set (attempt_keys d) \<and>
     (a_TaskID a, a_AttemptNo a) \<notin> snd ` set (attempt_keys d) \<and> a_TaskID a \<in> set (map ID (db_tasks d)) \<and>
     d' = d\<lparr>db_attempts := db_attempts d @ [row_of_attempt a]\<rparr>"
  by (force simp: Tx_AddAttempt_def Let_def attempt_keys_def image_iff)

lemma attempt_keys_append [simp]:
  "attempt_keys (d\<lparr>db_attempts := db_attempts d @ [row_of_attempt a]\<rparr>)
     = attempt_keys d @ [(a_ID a, a_TaskID a, a_AttemptNo a)]"
  by (simp add: attempt_keys_def)

lemma event_keys_attempts [simp]: "event_keys (d\<lparr>db_attempts := as\<rparr>) = event_keys d"
  by (simp add: event_keys_def)

lemma db_ok_AddAttempt: "Tx_AddAttempt a d = Inr d' \<Longrightarrow> db_ok d \<Longrightarrow> db_ok d'"
  by (auto simp: Tx_AddAttempt_Inr db_ok_def keys_ok_def)

lemma Tx_UpdateAttempt_keys:
  "Tx_UpdateAttempt a d = Inr d' \<Longrightarrow> attempt_keys d' = attempt_keys d \<and>
     db_tasks d' = db_tasks d \<and> event_keys d' = event_keys d \<and> db_event_seq d' = db_event_seq d"
  by (auto simp: Tx_UpdateAttempt_def attempt_keys_def event_keys_def split: if_splits)

lemma db_ok_UpdateAttempt: "Tx_UpdateAttempt a d = Inr d' \<Longrightarrow> db_ok d \<Longrightarrow> db_ok d'"
  using Tx_UpdateAttempt_keys [of a d d'] by (simp add: db_ok_def)

lemma db_ok_AppendEvent:
  assumes "Tx_AppendEvent e d = Inr (i, d')" and "db_ok d"
  shows "db_ok d'"
proof -
  have "event_keys d' = event_keys d @ [(db_event_seq d + 1, e_TaskID e)]"
    "attempt_keys d' = attempt_keys d" "db_tasks d' = db_tasks d" "db_event_seq d' = db_event_seq d + 1"
    "e_TaskID e \<in> set (map ID (db_tasks d))"
    using assms(1)
    by (auto simp: Tx_AppendEvent_def Let_def event_keys_def attempt_keys_def split: if_splits)
  then show ?thesis
    using assms(2) by (fastforce simp: db_ok_def keys_ok_def sorted_wrt_append)
qed

lemma db_ok_DeleteTask:
  assumes "Tx_DeleteTask i d = Inr d'" and "db_ok d"
  shows "db_ok d'"
proof -
  have "map ID (db_tasks d') = filter (\<lambda>t. t \<noteq> i) (map ID (db_tasks d))"
    "attempt_keys d' = filter (\<lambda>(a, t, n). t \<noteq> i) (attempt_keys d)"
    "event_keys d' = filter (\<lambda>(j, t). t \<noteq> i) (event_keys d)" "db_event_seq d' = db_event_seq d"
    using assms(1)
    by (auto simp: Tx_DeleteTask_def event_keys_def attempt_keys_def filter_map comp_def split: if_splits)
  then show ?thesis
    using assms(2)
    by (auto simp: db_ok_def keys_ok_def distinct_map_filter sorted_wrt_filter sorted_wrt_map)
qed

lemmas db_ok_tx = db_ok_CreateTask db_ok_UpdateTask db_ok_AddAttempt db_ok_UpdateAttempt
  db_ok_AppendEvent db_ok_DeleteTask

section \<open>Reading back what was written\<close>

definition task_times_ok :: "task \<Rightarrow> bool" where
  "task_times_ok t \<longleftrightarrow> year_ok (CreatedAt t) \<and> year_ok (UpdatedAt t) \<and>
     (\<forall>u. NextWakeAt t = Some u \<longrightarrow> year_ok u) \<and> (\<forall>u. LastResetAt t = Some u \<longrightarrow> year_ok u) \<and>
     (\<forall>u. DeadlineAt t = Some u \<longrightarrow> year_ok u)"

text \<open>A stored task is the task with an empty snapshot replaced by the empty object.\<close>

definition stored :: "task \<Rightarrow> task" where
  "stored t = t\<lparr>ConfigJSON := or_empty_object (ConfigJSON t)\<rparr>"

lemma scanTask_row_of_task [simp]: "task_times_ok t \<Longrightarrow> scanTask (row_of_task t) = Inr (stored t)"
  by (simp add: scanTask_def row_of_task_def task_times_ok_def stored_def)

lemma find_append_new: "x \<notin> k ` set xs \<Longrightarrow> List.find (\<lambda>r. k r = x) (xs @ [y]) = (if k y = x then Some y else None)"
  by (induction xs) auto

lemma find_append_old: "k y \<noteq> x \<Longrightarrow> List.find (\<lambda>r. k r = x) (xs @ [y]) = List.find (\<lambda>r. k r = x) xs"
  by (induction xs) auto

lemma find_map_update:
  "(\<And>r. k (f r) = k r) \<Longrightarrow> List.find (\<lambda>r. k r = x) (map f xs) = map_option f (List.find (\<lambda>r. k r = x) xs)"
  by (induction xs) auto

lemma find_filter_other:
  "i \<noteq> x \<Longrightarrow> List.find (\<lambda>r. k r = x) (filter (\<lambda>r. k r \<noteq> i) xs) = List.find (\<lambda>r. k r = x) xs"
  by (induction xs) auto

lemma find_filter_same: "List.find (\<lambda>r. k r = i) (filter (\<lambda>r. k r \<noteq> i) xs) = None"
  by (induction xs) auto

definition task_row :: "string \<Rightarrow> db \<Rightarrow> string task_rec option" where
  "task_row i d = List.find (\<lambda>r. ID r = i) (db_tasks d)"

lemma task_row_None: "task_row i d = None \<longleftrightarrow> i \<notin> ID ` set (db_tasks d)"
  using find_Some_iff_ex [of "\<lambda>r. ID r = i" "db_tasks d"] by (auto simp: task_row_def)

lemma task_row_Some_ID: "task_row i d = Some r \<Longrightarrow> ID r = i \<and> r \<in> set (db_tasks d)"
  using find_Some_mem unfolding task_row_def by fastforce

lemma task_row_CreateTask:
  "Tx_CreateTask t d = Inr d' \<Longrightarrow> task_row i d' = (if i = ID t then Some (row_of_task t) else task_row i d)"
  by (auto simp: Tx_CreateTask_Inr task_row_def find_append_new find_append_old)

lemma task_row_UpdateTask:
  assumes "Tx_UpdateTask t d = Inr d'"
  shows "task_row i d' = (if i = ID t
    then map_option (\<lambda>r. (row_of_task t)\<lparr>CreatedAt := CreatedAt r\<rparr>) (task_row i d) else task_row i d)"
proof -
  let ?f = "\<lambda>r. if ID r = ID t then (row_of_task t)\<lparr>CreatedAt := CreatedAt r\<rparr> else r"
  have "task_row i d' = map_option ?f (task_row i d)"
    using assms find_map_update [of ID ?f i "db_tasks d"]
    by (auto simp: Tx_UpdateTask_def task_row_def split: if_splits)
  then show ?thesis using task_row_Some_ID by (cases "task_row i d") auto
qed

lemma task_row_DeleteTask:
  "Tx_DeleteTask i d = Inr d' \<Longrightarrow> task_row j d' = (if j = i then None else task_row j d)"
  by (auto simp: Tx_DeleteTask_def task_row_def find_filter_other find_filter_same split: if_splits)

lemma task_row_other:
  "Tx_AddAttempt a d = Inr d' \<Longrightarrow> task_row i d' = task_row i d"
  "Tx_UpdateAttempt a d = Inr d' \<Longrightarrow> task_row i d' = task_row i d"
  "Tx_AppendEvent e d = Inr (k, d') \<Longrightarrow> task_row i d' = task_row i d"
  by (auto simp: Tx_AddAttempt_def Tx_UpdateAttempt_def Tx_AppendEvent_def Let_def task_row_def
      split: if_splits)

lemma GetTask_row:
  "GetTask i d = (case task_row i d of None \<Rightarrow> Inl (Wrap (''get task '' @ i @ '': '') ErrNotFound [])
     | Some r \<Rightarrow> (case scanTask r of Inl e \<Rightarrow> Inl (Wrap (''get task '' @ i @ '': '') e []) | Inr t \<Rightarrow> Inr t))"
  unfolding GetTask_def task_row_def Let_def by (rule refl)

section \<open>Histories\<close>

text \<open>The statements a transaction may run, and the calls of a history.\<close>

datatype stmt =
    SCreateTask task
  | SUpdateTask task
  | SAddAttempt attempt
  | SUpdateAttempt attempt
  | SAppendEvent event_row
  | SDeleteTask string

fun exec_stmt :: "stmt \<Rightarrow> db \<Rightarrow> db result" where
  "exec_stmt (SCreateTask t) d = Tx_CreateTask t d"
| "exec_stmt (SUpdateTask t) d = Tx_UpdateTask t d"
| "exec_stmt (SAddAttempt a) d = Tx_AddAttempt a d"
| "exec_stmt (SUpdateAttempt a) d = Tx_UpdateAttempt a d"
| "exec_stmt (SAppendEvent e) d = drop_id (Tx_AppendEvent e d)"
| "exec_stmt (SDeleteTask i) d = Tx_DeleteTask i d"

fun exec_stmts :: "stmt list \<Rightarrow> db \<Rightarrow> db result" where
  "exec_stmts [] d = Inr d"
| "exec_stmts (x # xs) d = (case exec_stmt x d of Inl e \<Rightarrow> Inl e | Inr d' \<Rightarrow> exec_stmts xs d')"

fun run_history :: "(tx_fault \<times> stmt list) list \<Rightarrow> db \<Rightarrow> db" where
  "run_history [] d = d"
| "run_history ((f, xs) # h) d = run_history h (snd (UpdateTaskTx f (exec_stmts xs) d))"

lemma db_ok_exec_stmt: "exec_stmt x d = Inr d' \<Longrightarrow> db_ok d \<Longrightarrow> db_ok d'"
  by (cases x) (auto simp: drop_id_def split: sum.splits intro: db_ok_tx)

lemma db_ok_exec_stmts: "exec_stmts xs d = Inr d' \<Longrightarrow> db_ok d \<Longrightarrow> db_ok d'"
  by (induction xs arbitrary: d) (auto split: sum.splits dest: db_ok_exec_stmt)

lemma db_ok_run_history: "db_ok d \<Longrightarrow> db_ok (run_history h d)"
proof (induction h arbitrary: d)
  case (Cons c h)
  obtain f xs where c: "c = (f, xs)" by fastforce
  have "db_ok (snd (UpdateTaskTx f (exec_stmts xs) d))"
    using tx.run_keeps [of f "exec_stmts xs" d "fst (UpdateTaskTx f (exec_stmts xs) d)" _ db_ok]
      Cons.prems db_ok_exec_stmts by (metis prod.collapse)
  then show ?case using Cons.IH c by simp
qed simp

section \<open>The order of the task list\<close>

lemma trimmed_last_not_zero:
  "rev (dropWhile (\<lambda>c. c = CHR ''0'') (rev s)) = [] \<Longrightarrow> dec_val s = 0"
proof -
  assume "rev (dropWhile (\<lambda>c. c = CHR ''0'') (rev s)) = []"
  then have "s = replicate (length s) (CHR ''0'')" by (intro replicate_eqI) simp_all
  then show ?thesis using dec_val_append_zeros [of "[]" "length s"] by (simp add: dec_val_def)
qed

lemma frac_text_cases:
  "frac_text n = (if n = 0 then [] else CHR ''.'' # tl (frac_text n))"
proof (cases "n = 0")
  case True
  have "digit_char 0 = CHR ''0''" by code_simp
  then have "nat_dec 0 = [CHR ''0'']" by (subst nat_dec.simps) simp
  then show ?thesis using True by (simp add: frac_text_def pad_dec_def numeral_nat)
next
  case False
  have "rev (dropWhile (\<lambda>c. c = CHR ''0'') (rev (pad_dec 9 n))) \<noteq> []"
    using trimmed_last_not_zero [of "pad_dec 9 n"] False by auto
  then show ?thesis using False by (simp add: frac_text_def Let_def)
qed

lemma lex_prefix_less: "(c::char) < d \<Longrightarrow> p @ c # u < p @ d # v"
  by (induction p) auto

text \<open>Within one second, an instant with a fraction is a smaller text than the full second before it:
  the point sorts before the \<open>Z\<close>.\<close>

lemma format_same_second:
  assumes "t mod Second = 0" and "0 < k" and "k < Second"
  shows "timeToDB (t + k) < timeToDB t"
proof -
  have d: "(t + k) div Second = t div Second" "(t + k) mod Second = k"
    using assms by (auto simp: div_add1_eq [of t] mod_add_eq mod_add_left_eq [symmetric])
  obtain p where p: "\<And>u. u div Second = t div Second \<Longrightarrow>
      timeToDB u = p @ frac_text (nat (u mod Second)) @ ''Z''"
  proof -
    obtain y mo dd where c: "civil_of_days (t div Second div 86400) = (y, mo, dd)" by (metis prod_cases3)
    show ?thesis
      by (rule that [of "append_int y 4 @ ''-'' @ append_int mo 2 @ ''-'' @ append_int dd 2 @ ''T'' @
         append_int (t div Second mod 86400 div 3600) 2 @ '':'' @
         append_int (t div Second mod 86400 mod 3600 div 60) 2 @ '':'' @
         append_int (t div Second mod 86400 mod 60) 2"])
        (simp only: timeToDB_def format_RFC3339Nano_def Let_def c prod.case append_assoc)
  qed
  have "frac_text (nat k) = CHR ''.'' # tl (frac_text (nat k))" "frac_text 0 = []"
    using frac_text_cases [of "nat k"] frac_text_cases [of 0] assms(2) by simp_all
  then have "timeToDB (t + k) = p @ CHR ''.'' # (tl (frac_text (nat k)) @ ''Z'')"
    "timeToDB t = p @ CHR ''Z'' # []"
    using p [OF d(1)] p [OF refl] d(2) assms(1) by (metis append_Cons, simp)
  then show ?thesis using lex_prefix_less [of "CHR ''.''" "CHR ''Z''"] by (simp add: less_char_def)
qed

section \<open>Properties\<close>

text \<open>A write transaction is atomic: if it reports an error, whether the driver cannot begin, a
  statement fails or the commit fails, the database is untouched; if it reports none, the database is
  the one the statements computed.\<close>

theorem UpdateTaskTx_atomic:
  "(fst (UpdateTaskTx f fn d) \<noteq> None \<longrightarrow> snd (UpdateTaskTx f fn d) = d) \<and>
   (fst (UpdateTaskTx f fn d) = None \<longleftrightarrow> f = NoFault \<and> fn d = Inr (snd (UpdateTaskTx f fn d)))"
  by (cases "fn d") (auto simp: UpdateTaskTx_def split: tx_fault.splits)

theorem UpdateTaskTx_atomic_witness:
  "snd (UpdateTaskTx (CommitFails (Err ''disk full'')) (Tx_DeleteTask ''a'') empty_db) = empty_db"
  using UpdateTaskTx_atomic [of "CommitFails (Err ''disk full'')" "Tx_DeleteTask ''a''" empty_db] by simp



definition sample_task :: task where
  "sample_task = \<lparr>ID = ''t1'', Name = ''n'', Provider = ''fake'', Mode = ''headless'', Cwd = ''/w'',
     SessionMode = ''new'', SessionRef = None, Prompt = Some ''p'', Args = [''-x''], ConfigJSON = [],
     Status = PENDING, CurrentAttempt = 0, TotalAttempts = 0, NextWakeAt = None, LastOutcome = None,
     LastResetAt = None, CumulativeWaitMS = 0, DeadlineAt = None, ExitReason = None,
     CreatedAt = 1500000000, UpdatedAt = 1500000000\<rparr>"

lemma year_ok_epoch: "0 \<le> t \<Longrightarrow> t < 86400000000000 \<Longrightarrow> year_ok t" for t :: time
proof -
  assume "0 \<le> t" "t < 86400000000000"
  then have "t div Second div 86400 = 0"
    by (simp add: zdiv_zmult2_eq [symmetric] div_pos_pos_trivial)
  moreover have "fst (civil_of_days 0) = 1970" by code_simp
  ultimately show ?thesis by (cases "civil_of_days 0") (simp add: year_ok_def)
qed


text \<open>Deleting a task removes it with its attempts and events, and nothing else; a missing task is
  reported as not found.\<close>

theorem DeleteTask_cascades:
  "case DeleteTask f i d of
     (None, d') \<Rightarrow> task_row i d \<noteq> None \<and> GetTask i d' = Inl (Wrap (''get task '' @ i @ '': '') ErrNotFound []) \<and>
       ListAttempts i d' = Inr [] \<and> ListEvents i d' = Inr [] \<and>
       (\<forall>j. j \<noteq> i \<longrightarrow> GetTask j d' = GetTask j d \<and> ListAttempts j d' = ListAttempts j d \<and>
          ListEvents j d' = ListEvents j d)
   | (Some e, d') \<Rightarrow> d' = d \<and> (f = NoFault \<longrightarrow> task_row i d = None \<and> errors_Is e ErrNotFound)"
proof (cases "DeleteTask f i d")
  case (Pair r d')
  show ?thesis
  proof (cases r)
    case None
    then have del: "Tx_DeleteTask i d = Inr d'"
      using tx.run_ok Pair unfolding DeleteTask_def by blast
    have "filter (\<lambda>r. a_TaskID r = j) (filter (\<lambda>r. a_TaskID r \<noteq> i) xs)
        = (if j = i then [] else filter (\<lambda>r. a_TaskID r = j) xs)"
      "filter (\<lambda>r. e_TaskID r = j) (filter (\<lambda>r. e_TaskID r \<noteq> i) ys)
        = (if j = i then [] else filter (\<lambda>r. e_TaskID r = j) ys)"
      for j and xs :: "string attempt_rec list" and ys :: "string event_rec list"
      by (auto simp: filter_empty_conv intro: filter_cong)
    then have "ListAttempts j d' = (if j = i then Inr [] else ListAttempts j d)"
      "ListEvents j d' = (if j = i then Inr [] else ListEvents j d)" for j
      using del by (auto simp: Tx_DeleteTask_def ListAttempts_def ListEvents_def split: if_splits)
    moreover have "task_row i d \<noteq> None"
      using del by (auto simp: task_row_None Tx_DeleteTask_def split: if_splits)
    ultimately show ?thesis
      using Pair None by (simp add: GetTask_row task_row_DeleteTask [OF del])
  next
    case (Some e)
    then show ?thesis using Pair
      by (auto simp: DeleteTask_def UpdateTaskTx_def Tx_DeleteTask_def task_row_None
          split: tx_fault.splits if_splits)
  qed
qed

theorem DeleteTask_cascades_witness:
  "ListEvents ''t1'' (snd (DeleteTask NoFault ''t1'' (empty_db\<lparr>db_tasks := [row_of_task sample_task]\<rparr>))) = Inr []"
proof -
  have "fst (DeleteTask NoFault ''t1'' (empty_db\<lparr>db_tasks := [row_of_task sample_task]\<rparr>)) = None"
    by (simp add: DeleteTask_def UpdateTaskTx_def Tx_DeleteTask_def sample_task_def)
  with DeleteTask_cascades [where i = "''t1''" and f = NoFault
      and d = "empty_db\<lparr>db_tasks := [row_of_task sample_task]\<rparr>"]
  show ?thesis by (auto split: prod.splits option.splits)
qed

text \<open>\<open>ListTasks\<close> does not keep its promise of oldest first: the creation times are compared as texts
  whose trailing zeros are dropped, so of two tasks created within one second the later one is listed
  first whenever the earlier one falls on the full second.\<close>

theorem ListTasks_not_oldest_first:
  assumes "task_times_ok t" and "task_times_ok u"
    and "CreatedAt t mod Second = 0" and "CreatedAt t < CreatedAt u" and "CreatedAt u < CreatedAt t + Second"
    and "Tx_CreateTask t empty_db = Inr d1" and "Tx_CreateTask u d1 = Inr d2"
  shows "ListTasks d2 = Inr [stored u, stored t]"
proof -
  have "timeToDB (CreatedAt u) < timeToDB (CreatedAt t)"
    using format_same_second [OF assms(3), of "CreatedAt u - CreatedAt t"] assms(4,5) by simp
  then have "sort_key (\<lambda>r. (CreatedAt r, ID r)) [row_of_task t, row_of_task u]
      = [row_of_task u, row_of_task t]"
    by (auto simp: row_of_task_def less_prod_def less_eq_prod_def less_le_not_le)
  moreover have "db_tasks d2 = [row_of_task t, row_of_task u]"
    using assms(6,7) by (auto simp: Tx_CreateTask_Inr empty_db_def)
  ultimately show ?thesis using assms(1,2) by (simp add: ListTasks_def)
qed

theorem ListTasks_not_oldest_first_witness:
  "\<exists>d1 d2. Tx_CreateTask (sample_task\<lparr>CreatedAt := 0\<rparr>) empty_db = Inr d1 \<and>
     Tx_CreateTask (sample_task\<lparr>ID := ''t2'', CreatedAt := 500 * Millisecond\<rparr>) d1 = Inr d2 \<and>
     map_sum id (map ID) (ListTasks d2) = Inr [''t2'', ''t1'']"
proof -
  let ?t = "sample_task\<lparr>CreatedAt := 0\<rparr>" and ?u = "sample_task\<lparr>ID := ''t2'', CreatedAt := 500 * Millisecond\<rparr>"
  have ok: "task_times_ok ?t" "task_times_ok ?u"
    by (auto simp: task_times_ok_def sample_task_def intro!: year_ok_epoch)
  obtain d1 where d1: "Tx_CreateTask ?t empty_db = Inr d1" by (simp add: Tx_CreateTask_def empty_db_def)
  then obtain d2 where d2: "Tx_CreateTask ?u d1 = Inr d2"
    by (auto simp: Tx_CreateTask_Inr empty_db_def sample_task_def)
  from ListTasks_not_oldest_first [OF ok _ _ _ d1 d2] show ?thesis
    using d1 d2 by (simp add: stored_def) (simp add: sample_task_def)
qed

subsection \<open>Migrations\<close>

definition recorded :: "'s schema_db \<Rightarrow> string option" where
  "recorded s = (case meta_table s of None \<Rightarrow> None | Some m \<Rightarrow> m ''schema_version'')"

lemma currentVersion_recorded:
  "recorded s = Some (Itoa v) \<Longrightarrow> in_i64 v \<Longrightarrow> currentVersion s = Inr v"
  by (auto simp: recorded_def currentVersion_def split: option.splits)

lemma applyMigration_None:
  "applyMigration exec f m s = (None, s') \<Longrightarrow> recorded s' = Some (Itoa (mig_version m))"
  by (auto simp: applyMigration_def record_version_def recorded_def
      split: tx_fault.splits sum.splits option.splits)

lemma applyMigration_Some: "applyMigration exec f m s = (Some e, s') \<Longrightarrow> s' = s"
  by (auto simp: applyMigration_def split: tx_fault.splits sum.splits)

definition pending :: "int \<Rightarrow> migration list \<Rightarrow> migration list" where
  "pending cur ms = filter (\<lambda>m. cur < mig_version m) ms"

text \<open>The state after a run that may fail: the database some prefix of the pending migrations leaves,
  with the last of them recorded.\<close>

lemma apply_pending_prefix:
  "apply_pending exec faults cur ms s = (r, s') \<Longrightarrow>
     \<exists>k. (r = None \<longrightarrow> k = length (pending cur ms)) \<and> (r \<noteq> None \<longrightarrow> k < length (pending cur ms)) \<and>
       (if k = 0 then s' = s
        else recorded s' = Some (Itoa (mig_version (pending cur ms ! (k - 1)))))"
proof (induction ms arbitrary: faults s)
  case (Cons m ms)
  show ?case
  proof (cases "mig_version m \<le> cur")
    case True
    then have "pending cur (m # ms) = pending cur ms" "apply_pending exec (faults \<circ> Suc) cur ms s = (r, s')"
      using Cons.prems by (simp_all add: pending_def)
    then show ?thesis using Cons.IH by metis
  next
    case False
    then have pend: "pending cur (m # ms) = m # pending cur ms" by (simp add: pending_def)
    obtain r1 s1 where ap: "applyMigration exec (faults 0) m s = (r1, s1)" by fastforce
    show ?thesis
    proof (cases r1)
      case None
      then have run: "apply_pending exec (faults \<circ> Suc) cur ms s1 = (r, s')"
        using Cons.prems False ap by simp
      from Cons.IH [OF run] obtain k where k: "r = None \<longrightarrow> k = length (pending cur ms)"
        "r \<noteq> None \<longrightarrow> k < length (pending cur ms)"
        "if k = 0 then s' = s1 else recorded s' = Some (Itoa (mig_version (pending cur ms ! (k - 1))))"
        by blast
      then show ?thesis
        using applyMigration_None [of exec "faults 0" m s s1] ap None pend
        by (intro exI [of _ "Suc k"]) (auto split: if_splits)
    next
      case (Some e)
      then show ?thesis
        using Cons.prems False ap applyMigration_Some pend by (intro exI [of _ 0]) auto
    qed
  qed
qed (auto simp: pending_def)

text \<open>After \<open>migrate\<close> over migrations in ascending order the recorded schema version is that of the
  last migration whose transaction committed: the newest of all when it succeeds, and when it fails
  half-way that of a prefix of the pending ones (nothing is changed before the first). A database of a
  newer binary is refused untouched.\<close>

theorem migrate_version:
  assumes "migrate exec faults ms s = (r, s')" and "sorted (map mig_version ms)"
    and "\<forall>m \<in> set ms. in_i64 (mig_version m)" and "currentVersion s = Inr cur"
  shows "(SchemaVersion < cur \<longrightarrow> r \<noteq> None \<and> s' = s) \<and>
    (r = None \<longrightarrow> currentVersion s' = Inr (Max (insert cur (mig_version ` set ms)))) \<and>
    (s' = s \<or> (\<exists>m \<in> set ms. cur < mig_version m \<and> currentVersion s' = Inr (mig_version m)))"
proof (cases "SchemaVersion < cur")
  case True
  then show ?thesis using assms by (auto simp: migrate_def)
next
  case False
  then have "apply_pending exec faults cur ms s = (r, s')" using assms by (simp add: migrate_def)
  from apply_pending_prefix [OF this] obtain k
    where k: "r = None \<longrightarrow> k = length (pending cur ms)" "r \<noteq> None \<longrightarrow> k < length (pending cur ms)"
      "if k = 0 then s' = s else recorded s' = Some (Itoa (mig_version (pending cur ms ! (k - 1))))"
    by blast
  show ?thesis
  proof (cases "k = 0")
    case True
    then have "Max (insert cur (mig_version ` set ms)) = cur" if "r = None"
      using k(1) that by (intro Max_eqI) (auto simp: pending_def filter_empty_conv)
    then show ?thesis using True k(3) False assms(4) by auto
  next
    case k0: False
    define m where "m = pending cur ms ! (k - 1)"
    have "m \<in> set (pending cur ms)" using k k0 by (cases r) (auto simp: m_def)
    then have m: "m \<in> set ms" "cur < mig_version m" by (simp_all add: pending_def)
    then have cv: "currentVersion s' = Inr (mig_version m)"
      using k(3) k0 assms(3) by (auto intro: currentVersion_recorded simp: m_def)
    have "Max (insert cur (mig_version ` set ms)) = mig_version m" if "r = None"
    proof (intro Max_eqI)
      fix v assume "v \<in> insert cur (mig_version ` set ms)"
      then consider "v \<le> cur" | n where "n \<in> set (pending cur ms)" "v = mig_version n"
        by (fastforce simp: pending_def)
      then show "v \<le> mig_version m"
      proof cases
        case 2
        then obtain j where "j < length (pending cur ms)" "n = pending cur ms ! j"
          by (metis in_set_conv_nth)
        moreover have "sorted (map mig_version (pending cur ms))"
          using assms(2) by (simp add: pending_def sorted_filter)
        ultimately show ?thesis
          using 2 k(1) that sorted_nth_mono [of "map mig_version (pending cur ms)" j "k - 1"]
          by (simp add: m_def)
      qed (use m in simp)
    qed (use m in auto)
    then show ?thesis using False cv m by auto
  qed
qed

theorem migrate_version_witness:
  "\<exists>s'. migrate (\<lambda>sql s. Inr (s\<lparr>meta_table := Some Map.empty\<rparr>)) (\<lambda>_. NoFault)
      [\<lparr>mig_version = 1, mig_name = ''0001_init.sql'', mig_sql = ''CREATE''\<rparr>]
      \<lparr>meta_table = None, schema_data = ()\<rparr> = (None, s') \<and> currentVersion s' = Inr 1"
proof -
  let ?m = "\<lparr>mig_version = 1, mig_name = ''0001_init.sql'', mig_sql = ''CREATE''\<rparr>"
  let ?x = "\<lambda>sql s. Inr (s\<lparr>meta_table := Some Map.empty\<rparr>)" and ?s = "\<lparr>meta_table = None, schema_data = ()\<rparr>"
  obtain s' where s': "migrate ?x (\<lambda>_. NoFault) [?m] ?s = (None, s')"
    by (simp add: migrate_def currentVersion_def SchemaVersion_def applyMigration_def record_version_def)
  have "currentVersion ?s = Inr 0" by (simp add: currentVersion_def)
  from migrate_version [OF s' _ _ this] s' show ?thesis
    by (simp add: in_i64_def MinInt64_def MaxInt64_def)
qed

end
