(* ===== verification/Detect.thy ===== *)
theory Detect
  imports Scheduler
begin

text \<open>
  The detection engine (\<open>internal/detect\<close>): rules that classify the output of a finished attempt
  into an outcome category (\<open>rule.go\<close>, \<open>engine.go\<close>), the extraction of a reset time from it
  (\<open>extract.go\<close>), and the merge of built-in with user rules (\<open>merge.go\<close>). The RE2 library, the HTTP
  date parser and \<open>time.Parse\<close> with a layout from the user's configuration are the parameters
  gathered in \<open>libs\<close>; so is the UTC offset of the host's location, in seconds.
\<close>

section \<open>Rules and inputs\<close>

abbreviation CategorySuccess :: string where "CategorySuccess \<equiv> ''SUCCESS''"
abbreviation CategoryRateLimit :: string where "CategoryRateLimit \<equiv> ''RATE_LIMIT''"
abbreviation CategoryQuotaExhausted :: string where "CategoryQuotaExhausted \<equiv> ''QUOTA_EXHAUSTED''"
abbreviation CategorySessionLimit :: string where "CategorySessionLimit \<equiv> ''SESSION_LIMIT''"
abbreviation CategoryTransientError :: string where "CategoryTransientError \<equiv> ''TRANSIENT_ERROR''"
abbreviation CategoryFatalError :: string where "CategoryFatalError \<equiv> ''FATAL_ERROR''"
abbreviation CategoryUnknown :: string where "CategoryUnknown \<equiv> ''UNKNOWN''"

record match_cond =
  ExitCodeIn :: "int list"
  StdoutRegex :: string
  StderrRegex :: string
  AnyRegex :: string

record extractor =
  x_Source :: string
  x_Regex :: string
  x_Kind :: string
  x_Format :: string

record rule =
  rule_Name :: string
  rule_Category :: string
  rule_Priority :: int
  rule_Match :: match_cond
  rule_Reset :: "extractor option"

record input =
  in_ExitCode :: int
  in_Stdout :: string
  in_Stderr :: string

record detect_result =
  res_Category :: string
  res_MatchedRule :: string
  res_ResetAt :: "time option"

text \<open>\<open>re_submatch\<close> is \<open>FindSubmatch\<close>: the whole match and the groups, empty if the regex misses.\<close>

record libs =
  re_compile :: "string \<Rightarrow> go_error option"
  re_match :: "string \<Rightarrow> string \<Rightarrow> bool"
  re_submatch :: "string \<Rightarrow> string \<Rightarrow> string list"
  http_ParseTime :: "string \<Rightarrow> time option"
  layout_clock :: "string \<Rightarrow> string \<Rightarrow> (int \<times> int \<times> int \<times> int) option"
  zone_off :: int

definition validCategories :: "string list" where
  "validCategories = [CategorySuccess, CategoryRateLimit, CategoryQuotaExhausted,
     CategorySessionLimit, CategoryTransientError, CategoryFatalError, CategoryUnknown]"

definition Tail :: "'a list \<Rightarrow> int \<Rightarrow> 'a list" where
  "Tail b mx = (if mx \<le> 0 \<or> int (length b) \<le> mx then b else drop (length b - nat mx) b)"

definition concatStreams :: "input \<Rightarrow> string" where
  "concatStreams i = in_Stdout i @ [CHR 0x0A] @ in_Stderr i"

lemma Tail_last_n: "0 < mx \<Longrightarrow> Tail b mx = last_n (nat mx) b"
  by (auto simp: Tail_def last_n_def)

section \<open>The engine (\<open>engine.go\<close>)\<close>

text \<open>A compiled regex is represented by its source text.\<close>

record compiledRule =
  cr_rule :: rule
  stdoutRegex :: "string option"
  stderrRegex :: "string option"
  anyRegex :: "string option"
  resetRegex :: "string option"

type_synonym engine = "compiledRule list"

definition compile_field :: "libs \<Rightarrow> string \<Rightarrow> string \<Rightarrow> string \<Rightarrow> string option result" where
  "compile_field L name field re =
     (if re = [] then Inr None
      else case re_compile L re of
        None \<Rightarrow> Inr (Some re)
      | Some e \<Rightarrow> Inl (Wrap (''detect: rule '' @ Quote name @ '': '' @ field @ '': '') e []))"

definition compile_rule :: "libs \<Rightarrow> rule \<Rightarrow> compiledRule result" where
  "compile_rule L r =
     (if rule_Category r \<notin> set validCategories
      then Inl (Err (''detect: rule '' @ Quote (rule_Name r) @ '': invalid category '' @
             Quote (rule_Category r)))
      else case compile_field L (rule_Name r) ''stdout_regex'' (StdoutRegex (rule_Match r)) of
        Inl e \<Rightarrow> Inl e | Inr so \<Rightarrow>
      (case compile_field L (rule_Name r) ''stderr_regex'' (StderrRegex (rule_Match r)) of
        Inl e \<Rightarrow> Inl e | Inr se \<Rightarrow>
      (case compile_field L (rule_Name r) ''any_regex'' (AnyRegex (rule_Match r)) of
        Inl e \<Rightarrow> Inl e | Inr an \<Rightarrow>
      (case rule_Reset r of
        None \<Rightarrow> Inr \<lparr>cr_rule = r, stdoutRegex = so, stderrRegex = se, anyRegex = an, resetRegex = None\<rparr>
      | Some x \<Rightarrow> (case re_compile L (x_Regex x) of
          Some e \<Rightarrow> Inl (Wrap (''detect: rule '' @ Quote (rule_Name r) @ '': reset_extractor regex: '') e [])
        | None \<Rightarrow> Inr \<lparr>cr_rule = r, stdoutRegex = so, stderrRegex = se, anyRegex = an,
                     resetRegex = Some (x_Regex x)\<rparr>)))))"

fun compile_rules :: "libs \<Rightarrow> rule list \<Rightarrow> compiledRule list result" where
  "compile_rules L [] = Inr []"
| "compile_rules L (r # rs) =
     (case compile_rule L r of Inl e \<Rightarrow> Inl e
      | Inr c \<Rightarrow> (case compile_rules L rs of Inl e \<Rightarrow> Inl e | Inr cs \<Rightarrow> Inr (c # cs)))"

definition NewEngine :: "libs \<Rightarrow> rule list \<Rightarrow> engine result" where
  "NewEngine L rules = (case compile_rules L rules of Inl e \<Rightarrow> Inl e
     | Inr cs \<Rightarrow> Inr (sort_desc (\<lambda>c. rule_Priority (cr_rule c)) cs))"

definition regex_holds :: "libs \<Rightarrow> string option \<Rightarrow> string \<Rightarrow> bool" where
  "regex_holds L re s = (case re of None \<Rightarrow> True | Some r \<Rightarrow> re_match L r s)"

definition matches :: "libs \<Rightarrow> compiledRule \<Rightarrow> input \<Rightarrow> string \<Rightarrow> bool" where
  "matches L cr i any =
     ((ExitCodeIn (rule_Match (cr_rule cr)) \<noteq> [] \<longrightarrow>
         in_ExitCode i \<in> set (ExitCodeIn (rule_Match (cr_rule cr)))) \<and>
      regex_holds L (stdoutRegex cr) (in_Stdout i) \<and>
      regex_holds L (stderrRegex cr) (in_Stderr i) \<and>
      regex_holds L (anyRegex cr) any)"

section \<open>Reset times (\<open>extract.go\<close>)\<close>

definition sourceBytes :: "string \<Rightarrow> input \<Rightarrow> string" where
  "sourceBytes src i = (if src = ''stdout'' then in_Stdout i
     else if src = ''stderr'' then in_Stderr i else concatStreams i)"

abbreviation Day :: duration where "Day \<equiv> 86400000000000"

definition nextClockOccurrence :: "libs \<Rightarrow> int \<times> int \<times> int \<times> int \<Rightarrow> time \<Rightarrow> time" where
  "nextClockOccurrence L parsed now =
     (let (h, m, s, ns) = parsed; off = zone_off L * Second;
          candidate = (now + off) div Day * Day + h * Hour + m * Minute + s * Second + ns - off
      in if \<not> candidate > now then candidate + Day else candidate)"

definition default_clock :: "string \<Rightarrow> (int \<times> int) option" where
  "default_clock raw =
     (case parse_15_04 raw of Some hm \<Rightarrow> Some hm
      | None \<Rightarrow> (case parse_3_04pm raw of Some hm \<Rightarrow> Some hm | None \<Rightarrow> parse_3pm raw))"

definition parseReset :: "libs \<Rightarrow> extractor \<Rightarrow> string \<Rightarrow> time \<Rightarrow> time option" where
  "parseReset L x raw now =
     (if x_Kind x = ''rfc3339'' then parse_RFC3339 raw
      else if x_Kind x = ''unix_seconds'' then map_option time_Unix (Atoi raw)
      else if x_Kind x = ''http_retry_after'' then
        (case Atoi raw of Some sec \<Rightarrow> Some (time_Add now (i64 (sec * Second)))
         | None \<Rightarrow> http_ParseTime L raw)
      else if x_Kind x = ''relative_duration'' then
        map_option (time_Add now) (ParseDuration (TrimPrefix raw ''+''))
      else if x_Kind x = ''clock_time'' then
        (if x_Format x \<noteq> [] then
           map_option (\<lambda>p. nextClockOccurrence L p now) (layout_clock L (x_Format x) raw)
         else map_option (\<lambda>(h, m). nextClockOccurrence L (h, m, 0, 0) now) (default_clock raw))
      else None)"

definition extractReset :: "libs \<Rightarrow> extractor option \<Rightarrow> input \<Rightarrow> time \<Rightarrow> time option" where
  "extractReset L xo i now =
     (case xo of None \<Rightarrow> None | Some x \<Rightarrow>
       if re_compile L (x_Regex x) \<noteq> None then None
       else (case re_submatch L (x_Regex x) (sourceBytes (x_Source x) i) of
         _ # raw # _ \<Rightarrow> (case parseReset L x raw now of
             Some t \<Rightarrow> if t > now then Some t else None
           | None \<Rightarrow> None)
       | _ \<Rightarrow> None))"

definition Classify :: "libs \<Rightarrow> engine \<Rightarrow> input \<Rightarrow> time \<Rightarrow> detect_result" where
  "Classify L e i now =
     (case List.find (\<lambda>cr. matches L cr i (concatStreams i)) e of
        Some cr \<Rightarrow> \<lparr>res_Category = rule_Category (cr_rule cr), res_MatchedRule = rule_Name (cr_rule cr),
          res_ResetAt = extractReset L (rule_Reset (cr_rule cr)) i now\<rparr>
      | None \<Rightarrow> \<lparr>res_Category = CategoryUnknown, res_MatchedRule = [], res_ResetAt = None\<rparr>)"

section \<open>Merging rule sets (\<open>merge.go\<close>)\<close>

definition userByName :: "rule list \<Rightarrow> string \<rightharpoonup> rule" where
  "userByName user = map_of (rev (map (\<lambda>u. (rule_Name u, u)) user))"

definition merge_rules :: "rule list \<Rightarrow> rule list \<Rightarrow> rule list" where
  "merge_rules builtin user =
     map (\<lambda>b. case userByName user (rule_Name b) of Some u \<Rightarrow> u | None \<Rightarrow> b) builtin @
     filter (\<lambda>u. rule_Name u \<notin> rule_Name ` set builtin) user"

definition Merge :: "rule list \<Rightarrow> rule list \<Rightarrow> rule list" where
  "Merge builtin user = sort_desc rule_Priority (merge_rules builtin user)"

section \<open>Lemmas\<close>

definition rule_compiles :: "libs \<Rightarrow> rule \<Rightarrow> bool" where
  "rule_compiles L r \<longleftrightarrow> rule_Category r \<in> set validCategories \<and>
     (\<forall>re \<in> {StdoutRegex (rule_Match r), StderrRegex (rule_Match r), AnyRegex (rule_Match r)}.
        re = [] \<or> re_compile L re = None) \<and>
     (\<forall>x. rule_Reset r = Some x \<longrightarrow> re_compile L (x_Regex x) = None)"

definition regex_opt :: "string \<Rightarrow> string option" where
  "regex_opt re = (if re = [] then None else Some re)"

definition compiled :: "rule \<Rightarrow> compiledRule" where
  "compiled r = \<lparr>cr_rule = r, stdoutRegex = regex_opt (StdoutRegex (rule_Match r)),
     stderrRegex = regex_opt (StderrRegex (rule_Match r)),
     anyRegex = regex_opt (AnyRegex (rule_Match r)),
     resetRegex = map_option x_Regex (rule_Reset r)\<rparr>"

lemma cr_rule_compiled [simp]: "cr_rule (compiled r) = r"
  by (simp add: compiled_def)

lemma compile_field_cases:
  "compile_field L n f re = (if re = [] \<or> re_compile L re = None then Inr (regex_opt re)
     else Inl (Wrap (''detect: rule '' @ Quote n @ '': '' @ f @ '': '') (the (re_compile L re)) []))"
  by (auto simp: compile_field_def regex_opt_def split: option.splits)

lemma compile_rule_Inr: "compile_rule L r = Inr c \<longleftrightarrow> rule_compiles L r \<and> c = compiled r"
  by (auto simp: compile_rule_def compile_field_cases rule_compiles_def compiled_def
      split: option.splits if_splits)

lemma compile_rule_ok: "rule_compiles L r \<Longrightarrow> compile_rule L r = Inr (compiled r)"
  by (simp add: compile_rule_Inr)

lemma compile_rules_Inr:
  "compile_rules L rs = Inr cs \<longleftrightarrow> (\<forall>r \<in> set rs. rule_compiles L r) \<and> cs = map compiled rs"
proof (induction rs arbitrary: cs)
  case (Cons r rs)
  show ?case
  proof (cases "rule_compiles L r")
    case True
    then have "compile_rules L (r # rs) = (case compile_rules L rs of Inl e \<Rightarrow> Inl e
        | Inr cs \<Rightarrow> Inr (compiled r # cs))"
      by (simp add: compile_rule_ok)
    then show ?thesis
      using True Cons.IH [of "map compiled rs"] Cons.IH
      by (cases "compile_rules L rs") (simp_all, blast)
  next
    case False
    then have "\<exists>e. compile_rule L r = Inl e"
      using compile_rule_Inr by (metis sum.exhaust)
    then show ?thesis using False by auto
  qed
qed auto

lemma sort_desc_map: "sort_desc f (map g xs) = map g (sort_desc (f \<circ> g) xs)"
proof -
  have *: "insort_key (\<lambda>x. - f x) (g y) (map g ys) = map g (insort_key (\<lambda>x. - (f \<circ> g) x) y ys)"
    for y ys by (induction ys) simp_all
  show ?thesis by (induction xs) (simp_all add: sort_desc_def * [unfolded comp_def] comp_def)
qed

lemma NewEngine_Inr:
  "NewEngine L rules = Inr e \<longleftrightarrow>
     (\<forall>r \<in> set rules. rule_compiles L r) \<and> e = map compiled (sort_desc rule_Priority rules)"
  by (auto simp: NewEngine_def compile_rules_Inr sort_desc_map comp_def split: sum.splits)
    (metis compile_rules_Inr sum.distinct(1))

text \<open>Whether a rule's conditions hold of an input, stated on the rule itself.\<close>

definition rule_matches :: "libs \<Rightarrow> rule \<Rightarrow> input \<Rightarrow> bool" where
  "rule_matches L r i \<longleftrightarrow>
     (ExitCodeIn (rule_Match r) = [] \<or> in_ExitCode i \<in> set (ExitCodeIn (rule_Match r))) \<and>
     (StdoutRegex (rule_Match r) = [] \<or> re_match L (StdoutRegex (rule_Match r)) (in_Stdout i)) \<and>
     (StderrRegex (rule_Match r) = [] \<or> re_match L (StderrRegex (rule_Match r)) (in_Stderr i)) \<and>
     (AnyRegex (rule_Match r) = [] \<or> re_match L (AnyRegex (rule_Match r)) (concatStreams i))"

lemma matches_compiled: "matches L (compiled r) i (concatStreams i) = rule_matches L r i"
  by (auto simp: matches_def rule_matches_def compiled_def regex_opt_def regex_holds_def)

lemma find_map: "List.find P (map f xs) = map_option f (List.find (P \<circ> f) xs)"
  by (induction xs) auto

text \<open>The engine against its specification: classification looks for the first rule of the
  priority order.\<close>

definition result_of :: "libs \<Rightarrow> rule \<Rightarrow> input \<Rightarrow> time \<Rightarrow> detect_result" where
  "result_of L r i now = \<lparr>res_Category = rule_Category r, res_MatchedRule = rule_Name r,
     res_ResetAt = extractReset L (rule_Reset r) i now\<rparr>"

lemma Classify_spec:
  assumes "NewEngine L rules = Inr e"
  shows "Classify L e i now =
    (case List.find (\<lambda>r. rule_matches L r i) (sort_desc rule_Priority rules) of
       Some r \<Rightarrow> result_of L r i now
     | None \<Rightarrow> \<lparr>res_Category = CategoryUnknown, res_MatchedRule = [], res_ResetAt = None\<rparr>)"
  using assms
  by (auto simp: NewEngine_Inr Classify_def find_map comp_def matches_compiled result_of_def
      split: option.splits)

lemma extractReset_future: "extractReset L x i now = Some t \<Longrightarrow> now < t"
  by (auto simp: extractReset_def split: option.splits if_splits list.splits)

lemma extractReset_None: "extractReset L None i now = None"
  by (simp add: extractReset_def)

lemma extractReset_parse:
  "extractReset L (Some x) i now = Some t \<Longrightarrow> \<exists>raw. parseReset L x raw now = Some t \<and> now < t"
  by (auto simp: extractReset_def split: option.splits if_splits list.splits)

lemma clock_ok_seconds:
  "clock_ok (h, m, s, ns) \<Longrightarrow> 0 \<le> h * Hour + m * Minute + s * Second + ns \<and>
     h * Hour + m * Minute + s * Second + ns < Day"
  by (auto simp: clock_ok_def)

lemma nextClockOccurrence_window:
  assumes "clock_ok parsed"
  shows "now < nextClockOccurrence L parsed now" and "nextClockOccurrence L parsed now \<le> now + Day"
    and "\<exists>h m s ns. parsed = (h, m, s, ns) \<and>
      (nextClockOccurrence L parsed now + zone_off L * Second) mod Day
        = h * Hour + m * Minute + s * Second + ns"
proof -
  obtain h m s ns where p: "parsed = (h, m, s, ns)" by (metis prod_cases4)
  define c where "c = h * Hour + m * Minute + s * Second + ns"
  define l where "l = now + zone_off L * Second"
  have c: "0 \<le> c" "c < Day" using clock_ok_seconds assms by (simp_all add: p c_def)
  have l: "l div Day * Day \<le> l" "l < l div Day * Day + Day"
    using div_mult_mod_eq [of l Day] pos_mod_bound [of Day l] pos_mod_sign [of Day l] by linarith+
  have n: "nextClockOccurrence L parsed now = (let k = l div Day * Day + c - zone_off L * Second
      in if \<not> k > now then k + Day else k)"
    by (simp add: nextClockOccurrence_def p Let_def c_def l_def add.assoc)
  show "now < nextClockOccurrence L parsed now" "nextClockOccurrence L parsed now \<le> now + Day"
    unfolding n Let_def using c l by (auto simp: l_def)
  have "(l div Day * Day + c) mod Day = c" "(l div Day * Day + c + Day) mod Day = c"
    using c by (simp_all add: mod_pos_pos_trivial)
  then have "(nextClockOccurrence L parsed now + zone_off L * Second) mod Day = c"
    unfolding n Let_def by (simp add: algebra_simps)
  then show "\<exists>h m s ns. parsed = (h, m, s, ns) \<and>
      (nextClockOccurrence L parsed now + zone_off L * Second) mod Day
        = h * Hour + m * Minute + s * Second + ns"
    using p c_def by blast
qed

lemma default_clock_ok: "default_clock raw = Some (h, m) \<Longrightarrow> clock_ok (h, m, 0, 0)"
  by (auto simp: default_clock_def clock_parsers_ok split: option.splits)

subsection \<open>Merging\<close>

lemma userByName_Some: "userByName user n = Some u \<Longrightarrow> u \<in> set user \<and> rule_Name u = n"
  by (auto simp: userByName_def dest!: map_of_SomeD)

lemma userByName_None: "userByName user n = None \<longleftrightarrow> n \<notin> rule_Name ` set user"
  by (auto simp: userByName_def map_of_eq_None_iff image_iff)

lemma userByName_distinct:
  "distinct (map rule_Name user) \<Longrightarrow> u \<in> set user \<Longrightarrow> userByName user (rule_Name u) = Some u"
  by (cases "userByName user (rule_Name u)")
    (auto simp: userByName_None distinct_map inj_on_def dest: userByName_Some)


lemma set_Merge:
  assumes "distinct (map rule_Name user)"
  shows "set (Merge b user) = set user \<union> {r \<in> set b. rule_Name r \<notin> rule_Name ` set user}"
proof -
  have u: "userByName user n = Some u \<longleftrightarrow> u \<in> set user \<and> rule_Name u = n" for n u
    using userByName_Some userByName_distinct [OF assms] by blast
  have "x \<in> set (merge_rules b user) \<longleftrightarrow>
      x \<in> set user \<or> x \<in> set b \<and> rule_Name x \<notin> rule_Name ` set user" for x
  proof
    assume "x \<in> set (merge_rules b user)"
    then consider "x \<in> set user" | r where "r \<in> set b"
      "x = (case userByName user (rule_Name r) of Some u \<Rightarrow> u | None \<Rightarrow> r)"
      by (auto simp: merge_rules_def)
    then show "x \<in> set user \<or> x \<in> set b \<and> rule_Name x \<notin> rule_Name ` set user"
    proof cases
      case 2
      then show ?thesis
        by (cases "userByName user (rule_Name r)")
          (auto simp: userByName_None dest: userByName_Some)
    qed simp
  next
    assume r: "x \<in> set user \<or> x \<in> set b \<and> rule_Name x \<notin> rule_Name ` set user"
    show "x \<in> set (merge_rules b user)"
    proof (cases "x \<in> set user \<and> rule_Name x \<notin> rule_Name ` set b")
      case True
      then show ?thesis by (simp add: merge_rules_def)
    next
      case False
      then obtain r where "r \<in> set b" "rule_Name r = rule_Name x"
        "x \<in> set user \<and> userByName user (rule_Name r) = Some x \<or> r = x \<and> userByName user (rule_Name r) = None"
        using r u by (auto simp: userByName_None)
      then have "(case userByName user (rule_Name r) of Some u \<Rightarrow> u | None \<Rightarrow> r) = x" "r \<in> set b" by auto
      then have "x \<in> (\<lambda>r. case userByName user (rule_Name r) of Some u \<Rightarrow> u | None \<Rightarrow> r) ` set b"
        by (metis (no_types, lifting) image_eqI)
      then show ?thesis by (simp add: merge_rules_def)
    qed
  qed
  then show ?thesis by (auto simp: Merge_def)
qed

section \<open>Properties\<close>

text \<open>C17: an engine classifies an output by a rule of its set that matches it, no rule of higher
  priority matching, and among the matching rules of that priority the one given first; it says
  UNKNOWN, with no rule and no reset time, exactly when no rule matches.\<close>

theorem Classify_highest_priority_first:
  assumes "NewEngine L rules = Inr e"
  shows "case List.find (\<lambda>r. rule_matches L r i) (sort_desc rule_Priority rules) of
      Some r \<Rightarrow> Classify L e i now = result_of L r i now \<and> r \<in> set rules \<and> rule_matches L r i \<and>
        (\<forall>r' \<in> set rules. rule_matches L r' i \<longrightarrow> rule_Priority r' \<le> rule_Priority r) \<and>
        List.find (\<lambda>r. rule_matches L r i)
          (filter (\<lambda>r'. rule_Priority r' = rule_Priority r) rules) = Some r
    | None \<Rightarrow> (\<forall>r \<in> set rules. \<not> rule_matches L r i) \<and>
        Classify L e i now = \<lparr>res_Category = CategoryUnknown, res_MatchedRule = [], res_ResetAt = None\<rparr>"
proof (cases "List.find (\<lambda>r. rule_matches L r i) (sort_desc rule_Priority rules)")
  case None
  then have "\<forall>r \<in> set rules. \<not> rule_matches L r i"
    using find_Some_iff_ex [of "\<lambda>r. rule_matches L r i" "sort_desc rule_Priority rules"] by simp
  then show ?thesis using None Classify_spec [OF assms] by simp
next
  case (Some r)
  then show ?thesis
    using Classify_spec [OF assms] find_Some_mem [OF Some] find_sort_desc_max [OF Some]
      find_sort_desc_earliest [OF Some] by simp
qed

definition plain_libs :: libs where
  "plain_libs = \<lparr>re_compile = (\<lambda>_. None), re_match = (\<lambda>re s. Contains s re),
     re_submatch = (\<lambda>re s. if Contains s re then [re, drop (length re) s] else []),
     http_ParseTime = (\<lambda>_. None), layout_clock = (\<lambda>_ _. None), zone_off = 0\<rparr>"

definition any_rule :: "string \<Rightarrow> string \<Rightarrow> int \<Rightarrow> string \<Rightarrow> rule" where
  "any_rule n c p re = \<lparr>rule_Name = n, rule_Category = c, rule_Priority = p,
     rule_Match = \<lparr>ExitCodeIn = [], StdoutRegex = [], StderrRegex = [], AnyRegex = re\<rparr>, rule_Reset = None\<rparr>"

theorem Classify_highest_priority_first_witness:
  "\<exists>e. NewEngine plain_libs [any_rule ''a'' ''SUCCESS'' 1 [], any_rule ''b'' ''RATE_LIMIT'' 5 ''429''] = Inr e \<and>
     res_MatchedRule (Classify plain_libs e \<lparr>in_ExitCode = 1, in_Stdout = ''e 429'', in_Stderr = []\<rparr> 0) = ''b''"
proof -
  let ?rs = "[any_rule ''a'' ''SUCCESS'' 1 [], any_rule ''b'' ''RATE_LIMIT'' 5 ''429'']"
  let ?i = "\<lparr>in_ExitCode = 1, in_Stdout = ''e 429'', in_Stderr = []\<rparr>"
  obtain e where e: "NewEngine plain_libs ?rs = Inr e"
    using NewEngine_Inr [of plain_libs ?rs]
    by (auto simp: rule_compiles_def any_rule_def plain_libs_def validCategories_def)
  have "List.find (\<lambda>r. rule_matches plain_libs r ?i) (sort_desc rule_Priority ?rs)
      = Some (any_rule ''b'' ''RATE_LIMIT'' 5 ''429'')"
    by (simp add: sort_desc_def any_rule_def rule_matches_def plain_libs_def concatStreams_def HasPrefix_def)
  then show ?thesis
    using Classify_highest_priority_first [OF e, of ?i 0] e by (simp add: result_of_def any_rule_def)
qed

text \<open>A rule set makes an engine exactly when every rule has a known category and compiling
  regexes; the engine is then the compiled rules in stable descending priority.\<close>

theorem NewEngine_accepts_iff:
  "(\<exists>e. NewEngine L rules = Inr e) \<longleftrightarrow> (\<forall>r \<in> set rules. rule_compiles L r)"
  by (simp add: NewEngine_Inr)

theorem NewEngine_accepts_iff_witness:
  "(\<exists>e. NewEngine plain_libs [any_rule ''a'' ''SUCCESS'' 1 ''ok''] = Inr e) \<and>
   \<not> (\<exists>e. NewEngine plain_libs [any_rule ''a'' ''DONE'' 1 ''ok''] = Inr e)"
  unfolding NewEngine_accepts_iff
  by (simp add: rule_compiles_def any_rule_def validCategories_def plain_libs_def)


definition clock_rule :: rule where
  "clock_rule = \<lparr>rule_Name = ''limit'', rule_Category = CategorySessionLimit, rule_Priority = 10,
     rule_Match = \<lparr>ExitCodeIn = [], StdoutRegex = [], StderrRegex = [], AnyRegex = ''at ''\<rparr>,
     rule_Reset = Some \<lparr>x_Source = ''any'', x_Regex = ''at '', x_Kind = ''clock_time'', x_Format = []\<rparr>\<rparr>"


text \<open>Merging keeps every user rule and exactly the built-in rules whose name no user rule has, in
  descending priority; a user rule that replaces a built-in takes its slot, and at equal priority the
  built-in slots precede the added user rules, which keep their order.\<close>

theorem Merge_override:
  assumes "distinct (map rule_Name user)"
  shows "set (Merge builtin user) = set user \<union> {r \<in> set builtin. rule_Name r \<notin> rule_Name ` set user} \<and>
    sorted_wrt (\<lambda>r s. rule_Priority s \<le> rule_Priority r) (Merge builtin user) \<and>
    filter (\<lambda>r. rule_Priority r = p) (Merge builtin user) =
      filter (\<lambda>r. rule_Priority r = p)
        (map (\<lambda>b. case List.find (\<lambda>u. rule_Name u = rule_Name b) user of Some u \<Rightarrow> u | None \<Rightarrow> b) builtin) @
      filter (\<lambda>r. rule_Name r \<notin> rule_Name ` set builtin \<and> rule_Priority r = p) user"
proof (intro conjI)
  show "set (Merge builtin user) = set user \<union> {r \<in> set builtin. rule_Name r \<notin> rule_Name ` set user}"
    by (rule set_Merge [OF assms])
  show "sorted_wrt (\<lambda>r s. rule_Priority s \<le> rule_Priority r) (Merge builtin user)"
    unfolding Merge_def by (rule sort_desc_sorted)
  have "userByName user n = List.find (\<lambda>u. rule_Name u = n) user" for n
  proof (cases "List.find (\<lambda>u. rule_Name u = n) user")
    case None
    then show ?thesis using find_Some_iff_ex [of "\<lambda>u. rule_Name u = n" user]
      by (auto simp: userByName_None)
  next
    case (Some u)
    then show ?thesis using userByName_distinct [OF assms] find_Some_mem [OF Some] by auto
  qed
  then show "filter (\<lambda>r. rule_Priority r = p) (Merge builtin user) =
      filter (\<lambda>r. rule_Priority r = p)
        (map (\<lambda>b. case List.find (\<lambda>u. rule_Name u = rule_Name b) user of Some u \<Rightarrow> u | None \<Rightarrow> b) builtin) @
      filter (\<lambda>r. rule_Name r \<notin> rule_Name ` set builtin \<and> rule_Priority r = p) user"
    by (simp add: Merge_def sort_desc_stable merge_rules_def)
qed

theorem Merge_override_witness:
  "filter (\<lambda>r. rule_Priority r = 5)
     (Merge [any_rule ''a'' ''SUCCESS'' 1 [], any_rule ''b'' ''UNKNOWN'' 3 []] [any_rule ''b'' ''RATE_LIMIT'' 5 ''429''])
   = [any_rule ''b'' ''RATE_LIMIT'' 5 ''429'']"
proof -
  have "distinct (map rule_Name [any_rule ''b'' ''RATE_LIMIT'' 5 ''429''])" by simp
  from Merge_override [OF this, of "[any_rule ''a'' ''SUCCESS'' 1 [], any_rule ''b'' ''UNKNOWN'' 3 []]" 5,
      THEN conjunct2, THEN conjunct2]
  show ?thesis by (simp add: any_rule_def)
qed

end
