(* ===== verification/Provider.thy ===== *)
theory Provider
  imports Detect
begin

text \<open>
  The provider interface and its adapters (\<open>internal/provider\<close>): Claude Code and Copilot, which build
  argument vectors for an external CLI, and the scripted fake, which replays blocks of a script file.
  An adapter is a record of functions; only the fake keeps state, the next block of each session, so
  that map is the state every adapter is run with. The JSON decoder of an output line and the path of
  the running executable are parameters.
\<close>

section \<open>The interface (\<open>provider.go\<close>)\<close>

datatype cfg_value =
    VBool bool
  | VString string
  | VInt int
  | VStrings "string list"
  | VList "cfg_value list"

record capabilities =
  cap_Resume :: bool
  cap_ClientSuppliedID :: bool
  cap_Headless :: bool
  cap_Interactive :: bool
  cap_StructuredOutput :: bool

record command =
  Argv :: "string list"
  Env :: "(string \<times> string) list"

record task_spec =
  ts_Prompt :: string
  ts_Passthrough :: "string list"
  ts_Cwd :: string
  ts_Mode :: string
  ts_SessionRef :: string
  ts_Model :: string
  ts_ProviderConfig :: "string \<rightharpoonup> cfg_value"

datatype availability_state = Available | Unavailable | Unsupported

fun availability_String :: "availability_state \<Rightarrow> string" where
  "availability_String Available = ''available''"
| "availability_String Unavailable = ''unavailable''"
| "availability_String Unsupported = ''unsupported''"

record availability =
  av_State :: availability_state
  av_NextAt :: "time option"

text \<open>The state of the adapters: \<open>nextBlock\<close> of the fake.\<close>

type_synonym pstate = "string \<rightharpoonup> int"

record provider =
  p_Name :: string
  p_Capabilities :: capabilities
  p_BuildStart :: "task_spec \<Rightarrow> pstate \<Rightarrow> command result \<times> pstate"
  p_BuildResume :: "task_spec \<Rightarrow> string \<Rightarrow> pstate \<Rightarrow> command result \<times> pstate"
  p_ExtractSessionRef :: "input \<Rightarrow> string option"
  p_DetectionRules :: "rule list"
  p_CheckAvailability :: "task_spec \<Rightarrow> availability result"

section \<open>The registry (\<open>registry.go\<close>)\<close>

type_synonym registry = "(string \<times> provider) list"

definition known_names :: "registry \<Rightarrow> string list" where
  "known_names r = sort (map fst r)"

definition registry_Register :: "provider \<Rightarrow> registry \<Rightarrow> registry result" where
  "registry_Register p r =
     (if map_of r (p_Name p) \<noteq> None
      then Inl (Err (''register provider: '' @ Quote (p_Name p) @ '' is already registered''))
      else Inr ((p_Name p, p) # r))"

definition registry_Get :: "registry \<Rightarrow> string \<Rightarrow> provider result" where
  "registry_Get r name =
     (case map_of r name of Some p \<Rightarrow> Inr p
      | None \<Rightarrow> Inl (Err (''get provider '' @ Quote name @ '': not registered (known providers: ['' @
            Join (known_names r) '' '' @ ''])'')))"

definition registry_List :: "registry \<Rightarrow> provider list" where
  "registry_List r = sort_key p_Name (map snd r)"

section \<open>The CLI adapters (\<open>claude\<close>, \<open>copilot\<close>)\<close>

definition full_capabilities :: capabilities where
  "full_capabilities = \<lparr>cap_Resume = True, cap_ClientSuppliedID = True, cap_Headless = True,
     cap_Interactive = True, cap_StructuredOutput = True\<rparr>"

definition config_string :: "task_spec \<Rightarrow> string \<Rightarrow> string \<Rightarrow> string" where
  "config_string t key dflt = (case ts_ProviderConfig t key of
     Some (VString s) \<Rightarrow> if s \<noteq> [] then s else dflt | _ \<Rightarrow> dflt)"

definition claude_binaryName :: "task_spec \<Rightarrow> string" where
  "claude_binaryName t = config_string t ''binary'' ''claude''"

definition copilot_binaryName :: "task_spec \<Rightarrow> string" where
  "copilot_binaryName t = config_string t ''binary'' ''copilot''"

definition defaultResumePrompt :: string where
  "defaultResumePrompt = ''Continue the previous task.''"

definition resumePrompt :: "task_spec \<Rightarrow> string" where
  "resumePrompt t = config_string t ''resume_prompt'' defaultResumePrompt"

definition copilot_resumePrompt :: "task_spec \<Rightarrow> string" where
  "copilot_resumePrompt t = config_string t ''resume_prompt'' defaultResumePrompt"

fun string_items :: "cfg_value list \<Rightarrow> string list" where
  "string_items [] = []"
| "string_items (VString s # vs) = s # string_items vs"
| "string_items (_ # vs) = string_items vs"

definition extraArgs :: "task_spec \<Rightarrow> string list" where
  "extraArgs t = (case ts_ProviderConfig t ''extra_args'' of
     Some (VStrings ss) \<Rightarrow> ss | Some (VList vs) \<Rightarrow> string_items vs | _ \<Rightarrow> [])"

definition copilot_extraArgs :: "task_spec \<Rightarrow> string list" where
  "copilot_extraArgs t = (case ts_ProviderConfig t ''extra_args'' of
     Some (VStrings ss) \<Rightarrow> ss | Some (VList vs) \<Rightarrow> string_items vs | _ \<Rightarrow> [])"

definition claude_skipPermissionsFlag :: string where
  "claude_skipPermissionsFlag = ''--dangerously-skip-permissions''"

definition copilot_skipPermissionsFlag :: string where
  "copilot_skipPermissionsFlag = ''--allow-all-tools''"

definition claude_appendCommonFlags :: "string list \<Rightarrow> task_spec \<Rightarrow> string list" where
  "claude_appendCommonFlags argv t = argv @
     (if ts_Model t \<noteq> [] then [''--model'', ts_Model t] else []) @
     (if ts_ProviderConfig t ''unattended'' = Some (VBool True) then [claude_skipPermissionsFlag] else []) @
     extraArgs t @
     (if ts_Passthrough t \<noteq> [] then ''--'' # ts_Passthrough t else [])"

definition copilot_appendCommonFlags :: "string list \<Rightarrow> task_spec \<Rightarrow> string list" where
  "copilot_appendCommonFlags argv t = argv @
     (if ts_Model t \<noteq> [] then [''--model'', ts_Model t] else []) @
     (if ts_ProviderConfig t ''unattended'' = Some (VBool True) then [copilot_skipPermissionsFlag] else []) @
     copilot_extraArgs t @
     (if ts_Passthrough t \<noteq> [] then ''--'' # ts_Passthrough t else [])"

definition claude_BuildStart :: "task_spec \<Rightarrow> pstate \<Rightarrow> command result \<times> pstate" where
  "claude_BuildStart t st =
     (Inr \<lparr>Argv = claude_appendCommonFlags ([claude_binaryName t, ''-p'', ts_Prompt t] @
        (if ts_SessionRef t \<noteq> [] then [''--session-id'', ts_SessionRef t] else []) @
        [''--output-format'', ''stream-json'', ''--verbose'']) t, Env = []\<rparr>, st)"

definition claude_BuildResume :: "task_spec \<Rightarrow> string \<Rightarrow> pstate \<Rightarrow> command result \<times> pstate" where
  "claude_BuildResume t ref st =
     (if ref = [] then (Inl (Err ''claude provider: BuildResume requires a non-empty sessionRef''), st)
      else (Inr \<lparr>Argv = claude_appendCommonFlags [claude_binaryName t, ''-p'', resumePrompt t, ''--resume'',
              ref, ''--output-format'', ''stream-json'', ''--verbose''] t, Env = []\<rparr>, st))"

definition copilot_BuildStart :: "task_spec \<Rightarrow> pstate \<Rightarrow> command result \<times> pstate" where
  "copilot_BuildStart t st =
     (Inr \<lparr>Argv = copilot_appendCommonFlags ([copilot_binaryName t, ''-p'', ts_Prompt t] @
        (if ts_SessionRef t \<noteq> [] then [''--session-id'', ts_SessionRef t] else []) @
        [''--output-format'', ''json'']) t, Env = []\<rparr>, st)"

definition copilot_BuildResume :: "task_spec \<Rightarrow> string \<Rightarrow> pstate \<Rightarrow> command result \<times> pstate" where
  "copilot_BuildResume t ref st =
     (if ref = [] then (Inl (Err ''copilot provider: BuildResume requires a non-empty sessionRef''), st)
      else (Inr \<lparr>Argv = copilot_appendCommonFlags [copilot_binaryName t, ''-p'', copilot_resumePrompt t,
              ''--session-id'', ref, ''--output-format'', ''json''] t, Env = []\<rparr>, st))"

text \<open>
  \<open>bufio.Scanner\<close> with a one-megabyte buffer over the stdout tail: lines without their terminator,
  up to the first line that does not fit. \<open>decode\<close> is \<open>json.Unmarshal\<close> into the init event, its
  result the fields \<open>type\<close>, \<open>subtype\<close> and \<open>session_id\<close>.
\<close>

definition drop_cr :: "string \<Rightarrow> string" where
  "drop_cr l = (if l \<noteq> [] \<and> last l = CHR 0x0D then butlast l else l)"

definition scanner_lines :: "string \<Rightarrow> string list" where
  "scanner_lines s = (let ls = Split s (CHR 0x0A);
     ls' = (if last ls = [] then butlast ls else ls)
     in map drop_cr (takeWhile (\<lambda>l. length l < 1048576) ls'))"

definition claude_ExtractSessionRef ::
  "(string \<Rightarrow> (string \<times> string \<times> string) option) \<Rightarrow> input \<Rightarrow> string option" where
  "claude_ExtractSessionRef decode out =
     (case List.find (\<lambda>l. case decode l of Some (ty, sub, sid) \<Rightarrow> ty = ''system'' \<and> sub = ''init'' \<and> sid \<noteq> []
             | None \<Rightarrow> False) (scanner_lines (in_Stdout out)) of
        Some l \<Rightarrow> map_option (\<lambda>(ty, sub, sid). sid) (decode l)
      | None \<Rightarrow> None)"

definition unsupported :: "task_spec \<Rightarrow> availability result" where
  "unsupported t = Inr \<lparr>av_State = Unsupported, av_NextAt = None\<rparr>"

section \<open>Built-in rules (\<open>rules.go\<close>)\<close>

abbreviation bs :: string where "bs \<equiv> [CHR 0x5C]"

definition no_cond :: match_cond where
  "no_cond = \<lparr>ExitCodeIn = [], StdoutRegex = [], StderrRegex = [], AnyRegex = []\<rparr>"

definition builtin_rule :: "string \<Rightarrow> string \<Rightarrow> int \<Rightarrow> match_cond \<Rightarrow> extractor option \<Rightarrow> rule" where
  "builtin_rule n c p m x = \<lparr>rule_Name = n, rule_Category = c, rule_Priority = p, rule_Match = m, rule_Reset = x\<rparr>"

definition on_any :: "string \<Rightarrow> match_cond" where
  "on_any re = no_cond\<lparr>AnyRegex := re\<rparr>"

definition on_stdout :: "string \<Rightarrow> match_cond" where
  "on_stdout re = no_cond\<lparr>StdoutRegex := re\<rparr>"

definition on_exit0 :: match_cond where
  "on_exit0 = no_cond\<lparr>ExitCodeIn := [0]\<rparr>"

definition claude_DetectionRules :: "rule list" where
  \<open>claude_DetectionRules =
    [builtin_rule ''claude.auth'' CategoryFatalError 95 (on_any
       ''(?i)"api_error_status":40[13]|"error":"authentication_failed"|invalid api key|authentication failed|unauthorized'') None,
     builtin_rule ''claude.session_not_found'' CategoryFatalError 90 (on_any
       ''(?i)no conversation found with session id'') None,
     builtin_rule ''claude.credit'' CategoryQuotaExhausted 85 (on_any
       ''(?i)credit balance is too low|insufficient credit|quota exceeded|billing'') None,
     builtin_rule ''claude.usage_limit'' CategorySessionLimit 82 (on_any
       ''(?i)hit your (session|weekly|usage) limit|usage limit reached|limit will reset'')
       (Some \<lparr>x_Source = ''any'',
          x_Regex = ''(?i)resets? (?:at )?('' @ bs @ ''d{1,2}(?::'' @ bs @ ''d{2})?(?:am|pm))'',
          x_Kind = ''clock_time'', x_Format = []\<rparr>),
     builtin_rule ''claude.rate_limit'' CategoryRateLimit 80 (on_any
       ''(?i)"api_error_status":429|rate limit'') None,
     builtin_rule ''claude.overloaded'' CategoryTransientError 70 (on_any
       ''(?i)"api_error_status":529|overloaded_error|overloaded'') None,
     builtin_rule ''claude.network'' CategoryTransientError 40 (on_any
       ''(?i)connection reset|connection refused|ETIMEDOUT|ECONNRESET|ENETUNREACH|network error'') None,
     builtin_rule ''claude.success'' CategorySuccess 1 on_exit0 None]\<close>

definition copilot_reset :: extractor where
  \<open>copilot_reset = \<lparr>x_Source = ''any'', x_Regex = ''"resetDate":"([^"]+)"'', x_Kind = ''rfc3339'', x_Format = []\<rparr>\<close>

definition copilot_DetectionRules :: "rule list" where
  \<open>copilot_DetectionRules =
    [builtin_rule ''copilot.auth'' CategoryFatalError 95 (on_any
       ''(?i)"statuscode":40[13]|invalid api key|authentication failed|unauthorized|not logged in'') None,
     builtin_rule ''copilot.session_not_found'' CategoryFatalError 90 (on_any
       ''(?i)no session or task matched|not a valid uuid'') None,
     builtin_rule ''copilot.quota'' CategoryQuotaExhausted 85 (on_any
       ''(?i)"errortype":"quota"|"?quota_exceeded"?|exceeded your monthly quota|"statuscode":402'')
       (Some copilot_reset),
     builtin_rule ''copilot.rate_limit'' CategoryRateLimit 80 (on_any
       ''(?i)"statuscode":429|rate limit'') (Some copilot_reset),
     builtin_rule ''copilot.transient'' CategoryTransientError 70 (on_any
       (''(?i)"statuscode":5'' @ bs @ ''d'' @ bs @ ''d|overloaded|temporarily unavailable|service unavailable'')) None,
     builtin_rule ''copilot.network'' CategoryTransientError 40 (on_any
       ''(?i)connection reset|connection refused|ETIMEDOUT|ECONNRESET|ENETUNREACH|network error'') None,
     builtin_rule ''copilot.success'' CategorySuccess 1 on_exit0 None]\<close>

definition fake_DetectionRules :: "rule list" where
  "fake_DetectionRules =
    [builtin_rule ''fake.reset'' CategoryRateLimit 80 (on_stdout (''FAKE_RESET_AT=('' @ bs @ ''S+)''))
       (Some \<lparr>x_Source = ''stdout'', x_Regex = ''FAKE_RESET_AT=('' @ bs @ ''S+)'', x_Kind = ''rfc3339'', x_Format = []\<rparr>),
     builtin_rule ''fake.quota'' CategoryQuotaExhausted 85 (on_stdout ''FAKE_QUOTA_EXHAUSTED'') None,
     builtin_rule ''fake.fatal'' CategoryFatalError 95 (on_stdout ''FAKE_FATAL'') None,
     builtin_rule ''fake.success'' CategorySuccess 1 on_exit0 None]"

section \<open>The fake provider (\<open>fake.go\<close>)\<close>

definition RunMode :: string where
  "RunMode = ''__defib-fake-run''"

definition fake_Capabilities :: capabilities where
  "fake_Capabilities = full_capabilities\<lparr>cap_StructuredOutput := False\<rparr>"

definition scriptPath :: "task_spec \<Rightarrow> string result" where
  "scriptPath t = (case ts_ProviderConfig t ''script'' of
     None \<Rightarrow> Inl (Err ''fake provider: providers.fake.script is not set'')
   | Some (VString s) \<Rightarrow> if s \<noteq> [] then Inr s
       else Inl (Err ''fake provider: providers.fake.script must be a non-empty string'')
   | Some _ \<Rightarrow> Inl (Err ''fake provider: providers.fake.script must be a non-empty string''))"

definition fake_command ::
  "string result \<Rightarrow> task_spec \<Rightarrow> string \<Rightarrow> int \<Rightarrow> pstate \<Rightarrow> command result \<times> pstate" where
  "fake_command exe t ref block st =
     (case scriptPath t of Inl e \<Rightarrow> (Inl e, st)
      | Inr script \<Rightarrow> (case exe of
          Inl e \<Rightarrow> (Inl (Wrap ''fake provider: resolve executable: '' e []), st)
        | Inr x \<Rightarrow> (Inr \<lparr>Argv = [x, RunMode, ''--script'', script, ''--block'', Itoa block], Env = []\<rparr>,
            st(ref \<mapsto> block + 1))))"

definition fake_BuildStart :: "string result \<Rightarrow> task_spec \<Rightarrow> pstate \<Rightarrow> command result \<times> pstate" where
  "fake_BuildStart exe t st = fake_command exe t (ts_SessionRef t) 1 st"

definition fake_BuildResume :: "string result \<Rightarrow> task_spec \<Rightarrow> string \<Rightarrow> pstate \<Rightarrow> command result \<times> pstate" where
  "fake_BuildResume exe t ref st =
     fake_command exe t ref (case st ref of Some b \<Rightarrow> b | None \<Rightarrow> 2) st"

definition claude :: "(string \<Rightarrow> (string \<times> string \<times> string) option) \<Rightarrow> provider" where
  "claude decode = \<lparr>p_Name = ''claude'', p_Capabilities = full_capabilities,
     p_BuildStart = claude_BuildStart, p_BuildResume = claude_BuildResume,
     p_ExtractSessionRef = claude_ExtractSessionRef decode, p_DetectionRules = claude_DetectionRules,
     p_CheckAvailability = unsupported\<rparr>"

definition copilot :: provider where
  "copilot = \<lparr>p_Name = ''copilot'', p_Capabilities = full_capabilities,
     p_BuildStart = copilot_BuildStart, p_BuildResume = copilot_BuildResume,
     p_ExtractSessionRef = (\<lambda>_. None), p_DetectionRules = copilot_DetectionRules,
     p_CheckAvailability = unsupported\<rparr>"

definition fake :: "string result \<Rightarrow> provider" where
  "fake exe = \<lparr>p_Name = ''fake'', p_Capabilities = fake_Capabilities,
     p_BuildStart = fake_BuildStart exe, p_BuildResume = fake_BuildResume exe,
     p_ExtractSessionRef = (\<lambda>_. None), p_DetectionRules = fake_DetectionRules,
     p_CheckAvailability = unsupported\<rparr>"

section \<open>The script interpreter of the fake (\<open>run.go\<close>)\<close>

fun split_lines :: "string list \<Rightarrow> string list \<Rightarrow> string list list" where
  "split_lines cur [] = (if cur \<noteq> [] then [rev cur] else [])"
| "split_lines cur (line # ls) =
     (let trimmed = TrimSpace line in
      if trimmed = [] then (if cur \<noteq> [] then rev cur # split_lines [] ls else split_lines [] ls)
      else if HasPrefix trimmed ''#'' then split_lines cur ls
      else split_lines (trimmed # cur) ls)"

definition splitBlocks :: "string \<Rightarrow> string list list" where
  "splitBlocks script = split_lines [] (Split script (CHR 0x0A))"

definition directive_error :: "string \<Rightarrow> string \<Rightarrow> go_error" where
  "directive_error line msg = Err (''directive '' @ Quote line @ '': '' @ msg)"

definition parseLine :: "string \<Rightarrow> (string \<times> string) result" where
  "parseLine line =
     (case CutPrefix line ''attempt:'' of
        None \<Rightarrow> Inl (directive_error line (''missing '' @ Quote ''attempt:'' @ '' prefix''))
      | Some after \<Rightarrow>
          (let (directive, rest) = (case Cut (TrimSpace after) (CHR '' '') of
                 Some p \<Rightarrow> p | None \<Rightarrow> (TrimSpace after, []))
           in if directive = [] then Inl (directive_error line ''empty'')
              else Inr (directive, TrimSpace rest)))"

definition quoted :: "string \<Rightarrow> string \<Rightarrow> string result" where
  "quoted line rest =
     (case Cut rest (CHR 0x22) of
        None \<Rightarrow> Inl (directive_error line ''expected a quoted string'')
      | Some (_, r) \<Rightarrow> (case Cut r (CHR 0x22) of
          None \<Rightarrow> Inl (directive_error line ''unterminated quote'')
        | Some (s, _) \<Rightarrow> Inr s))"

definition firstToken :: "string \<Rightarrow> string" where
  "firstToken rest = (let r = (case Cut rest (CHR ''#'') of Some (a, _) \<Rightarrow> a | None \<Rightarrow> rest)
     in case Fields r of [] \<Rightarrow> [] | f # _ \<Rightarrow> f)"

text \<open>What a block does: the texts it writes, the input it consumes, the time it sleeps, the clock
  readings it takes.\<close>

record fake_io =
  io_stdin :: string
  io_stdout :: string
  io_stderr :: string
  io_slept :: duration
  io_ticks :: nat

definition read_line :: "string \<Rightarrow> string \<times> string" where
  "read_line s = (case Cut s (CHR 0x0A) of Some (a, b) \<Rightarrow> (a @ [CHR 0x0A], b) | None \<Rightarrow> (s, []))"

fun runBlock :: "(nat \<Rightarrow> time) \<Rightarrow> string list \<Rightarrow> fake_io \<Rightarrow> int result \<times> fake_io" where
  "runBlock now [] io = (Inr 0, io)"
| "runBlock now (line # lines) io =
     (case parseLine line of Inl e \<Rightarrow> (Inl e, io)
      | Inr (directive, rest) \<Rightarrow>
        if directive = ''emit'' then
          (case quoted line rest of Inl e \<Rightarrow> (Inl e, io)
           | Inr text \<Rightarrow> runBlock now lines (io\<lparr>io_stdout := io_stdout io @ text @ [CHR 0x0A]\<rparr>))
        else if directive = ''emit-err'' then
          (case quoted line rest of Inl e \<Rightarrow> (Inl e, io)
           | Inr text \<Rightarrow> runBlock now lines (io\<lparr>io_stderr := io_stderr io @ text @ [CHR 0x0A]\<rparr>))
        else if directive = ''reply'' then
          (case quoted line rest of Inl e \<Rightarrow> (Inl e, io)
           | Inr prefix \<Rightarrow> (let (i, r) = read_line (io_stdin io) in
               runBlock now lines (io\<lparr>io_stdin := r,
                 io_stdout := io_stdout io @ prefix @ TrimRightSet i [CHR 0x0D, CHR 0x0A] @ [CHR 0x0A]\<rparr>)))
        else if directive = ''sleep'' then
          (case ParseDuration (firstToken rest) of
             None \<Rightarrow> (Inl (directive_error line (''time: invalid duration '' @ Quote (firstToken rest))), io)
           | Some d \<Rightarrow> runBlock now lines (io\<lparr>io_slept := io_slept io + max 0 d\<rparr>))
        else if directive = ''reset-at'' then
          (let arg = TrimPrefix (firstToken rest) ''+'' in
           case ParseDuration arg of
             None \<Rightarrow> (Inl (directive_error line (''time: invalid duration '' @ Quote arg)), io)
           | Some d \<Rightarrow> runBlock now lines (io\<lparr>io_stdout := io_stdout io @ ''FAKE_RESET_AT='' @
               format_RFC3339 (time_Add (now (io_ticks io)) d) @ [CHR 0x0A], io_ticks := Suc (io_ticks io)\<rparr>))
        else if directive = ''exit'' then
          (case Atoi (firstToken rest) of
             None \<Rightarrow> (Inl (directive_error line ''strconv.Atoi: invalid syntax''), io)
           | Some code \<Rightarrow> (Inr code, io))
        else (Inl (Err (''unknown directive '' @ Quote line)), io))"

text \<open>\<open>Main\<close> after its flags are parsed: the content of the script, or the error of reading it, and the
  block.\<close>

definition fake_Main :: "(nat \<Rightarrow> time) \<Rightarrow> string result \<Rightarrow> int \<Rightarrow> fake_io \<Rightarrow> int \<times> fake_io" where
  "fake_Main now script block io =
     (let fail = (\<lambda>msg i. (2, i\<lparr>io_stderr := io_stderr i @ ''fake provider: '' @ msg @ [CHR 0x0A]\<rparr>)) in
      case script of Inl e \<Rightarrow> fail (err_text e) io
      | Inr data \<Rightarrow> (let blocks = splitBlocks data in
          if block < 1 \<or> block > int (length blocks)
          then fail (''script has '' @ Itoa (int (length blocks)) @ '' attempt block(s), block '' @
                     Itoa block @ '' requested'') io
          else (case runBlock now (blocks ! nat (block - 1)) io of
              (Inl e, io') \<Rightarrow> fail (err_text e) io'
            | (Inr code, io') \<Rightarrow> (code, io'))))"

section \<open>The contract of an adapter\<close>

text \<open>What the supervisor relies on: a command it is handed can be started (its argument vector is not
  empty), and a failed build leaves the adapter as it was.\<close>

locale adapter =
  fixes start :: "task_spec \<Rightarrow> pstate \<Rightarrow> command result \<times> pstate"
    and resume :: "task_spec \<Rightarrow> string \<Rightarrow> pstate \<Rightarrow> command result \<times> pstate"
  assumes start_argv: "start t st = (Inr c, st') \<Longrightarrow> Argv c \<noteq> []"
    and resume_argv: "resume t ref st = (Inr c, st') \<Longrightarrow> Argv c \<noteq> []"
    and start_err: "start t st = (Inl e, st') \<Longrightarrow> st' = st"
    and resume_err: "resume t ref st = (Inl e, st') \<Longrightarrow> st' = st"
begin

lemma build_argv:
  "(if b then resume t ref st else start t st) = (Inr c, st') \<Longrightarrow> Argv c \<noteq> []"
  using start_argv resume_argv by (cases b) simp_all

end

text \<open>An adapter of an external CLI moreover is stateless, always can start, passes the session on, and
  ends with the user's own arguments.\<close>

locale cli_adapter = adapter +
  assumes start_ok: "\<exists>c. start t st = (Inr c, st) \<and> (ts_SessionRef t \<noteq> [] \<longrightarrow> ts_SessionRef t \<in> set (Argv c)) \<and>
      (\<exists>u. Argv c = u @ (if ts_Passthrough t \<noteq> [] then ''--'' # ts_Passthrough t else []))"
    and resume_ok: "ref \<noteq> [] \<Longrightarrow> \<exists>c. resume t ref st = (Inr c, st) \<and> ref \<in> set (Argv c) \<and>
      (\<exists>u. Argv c = u @ (if ts_Passthrough t \<noteq> [] then ''--'' # ts_Passthrough t else []))"
    and resume_needs_ref: "\<exists>e. resume t [] st = (Inl e, st)"
begin

lemma resume_succeeds_iff: "(\<exists>c st'. resume t ref st = (Inr c, st')) \<longleftrightarrow> ref \<noteq> []"
  using resume_ok resume_needs_ref by (cases "ref = []") (metis Inl_Inr_False prod.inject)+

end

lemma claude_flags_not_Nil: "argv \<noteq> [] \<Longrightarrow> claude_appendCommonFlags argv t \<noteq> []"
  by (simp add: claude_appendCommonFlags_def)

lemma copilot_flags_not_Nil: "argv \<noteq> [] \<Longrightarrow> copilot_appendCommonFlags argv t \<noteq> []"
  by (simp add: copilot_appendCommonFlags_def)

lemma claude_flags_mem: "x \<in> set argv \<Longrightarrow> x \<in> set (claude_appendCommonFlags argv t)"
  by (simp add: claude_appendCommonFlags_def)

lemma copilot_flags_mem: "x \<in> set argv \<Longrightarrow> x \<in> set (copilot_appendCommonFlags argv t)"
  by (simp add: copilot_appendCommonFlags_def)

lemma claude_flags_suffix:
  "\<exists>u. claude_appendCommonFlags argv t = u @ (if ts_Passthrough t \<noteq> [] then ''--'' # ts_Passthrough t else [])"
  unfolding claude_appendCommonFlags_def by (simp only: append_assoc [symmetric]) blast

lemma copilot_flags_suffix:
  "\<exists>u. copilot_appendCommonFlags argv t = u @ (if ts_Passthrough t \<noteq> [] then ''--'' # ts_Passthrough t else [])"
  unfolding copilot_appendCommonFlags_def by (simp only: append_assoc [symmetric]) blast

interpretation claude_cli: cli_adapter claude_BuildStart claude_BuildResume
proof unfold_locales
  show "\<exists>c. claude_BuildStart t st = (Inr c, st) \<and> (ts_SessionRef t \<noteq> [] \<longrightarrow> ts_SessionRef t \<in> set (Argv c)) \<and>
      (\<exists>u. Argv c = u @ (if ts_Passthrough t \<noteq> [] then ''--'' # ts_Passthrough t else []))" for t st
    using claude_flags_suffix by (auto simp: claude_BuildStart_def intro!: claude_flags_mem)
  show "\<exists>c. claude_BuildResume t ref st = (Inr c, st) \<and> ref \<in> set (Argv c) \<and>
      (\<exists>u. Argv c = u @ (if ts_Passthrough t \<noteq> [] then ''--'' # ts_Passthrough t else []))"
    if "ref \<noteq> []" for t ref st
    using that claude_flags_suffix by (auto simp: claude_BuildResume_def intro!: claude_flags_mem)
qed (auto simp: claude_BuildStart_def claude_BuildResume_def claude_flags_not_Nil split: if_splits)

interpretation copilot_cli: cli_adapter copilot_BuildStart copilot_BuildResume
proof unfold_locales
  show "\<exists>c. copilot_BuildStart t st = (Inr c, st) \<and> (ts_SessionRef t \<noteq> [] \<longrightarrow> ts_SessionRef t \<in> set (Argv c)) \<and>
      (\<exists>u. Argv c = u @ (if ts_Passthrough t \<noteq> [] then ''--'' # ts_Passthrough t else []))" for t st
    using copilot_flags_suffix by (auto simp: copilot_BuildStart_def intro!: copilot_flags_mem)
  show "\<exists>c. copilot_BuildResume t ref st = (Inr c, st) \<and> ref \<in> set (Argv c) \<and>
      (\<exists>u. Argv c = u @ (if ts_Passthrough t \<noteq> [] then ''--'' # ts_Passthrough t else []))"
    if "ref \<noteq> []" for t ref st
    using that copilot_flags_suffix by (auto simp: copilot_BuildResume_def intro!: copilot_flags_mem)
qed (auto simp: copilot_BuildStart_def copilot_BuildResume_def copilot_flags_not_Nil split: if_splits)

interpretation fake_prov: adapter "fake_BuildStart exe" "fake_BuildResume exe" for exe
  by unfold_locales
    (auto simp: fake_BuildStart_def fake_BuildResume_def fake_command_def split: sum.splits option.splits)

section \<open>Lemmas\<close>

definition unattended :: "task_spec \<Rightarrow> bool" where
  "unattended t \<longleftrightarrow> ts_ProviderConfig t ''unattended'' = Some (VBool True)"

text \<open>The words of a command line that are the user's: prompts, session, model, binary, extra and
  passthrough arguments.\<close>

definition user_words :: "task_spec \<Rightarrow> string \<Rightarrow> string set" where
  "user_words t ref = {ts_Prompt t, ts_SessionRef t, ref, ts_Model t, claude_binaryName t,
     copilot_binaryName t, resumePrompt t} \<union> set (extraArgs t) \<union> set (ts_Passthrough t)"

lemma claude_flags_words:
  assumes "x \<in> set (claude_appendCommonFlags argv t)"
  shows "x \<in> set argv \<or> x \<in> user_words t ref \<or> x = ''--model'' \<or> x = ''--'' \<or>
    x = claude_skipPermissionsFlag \<and> unattended t"
  using assms by (auto simp: claude_appendCommonFlags_def user_words_def unattended_def split: if_splits)

lemma copilot_extraArgs_eq: "copilot_extraArgs t = extraArgs t"
  by (simp add: copilot_extraArgs_def extraArgs_def)

lemma copilot_flags_words:
  assumes "x \<in> set (copilot_appendCommonFlags argv t)"
  shows "x \<in> set argv \<or> x \<in> user_words t ref \<or> x = ''--model'' \<or> x = ''--'' \<or>
    x = copilot_skipPermissionsFlag \<and> unattended t"
  using assms by (auto simp: copilot_appendCommonFlags_def user_words_def unattended_def
      copilot_extraArgs_eq split: if_splits)

lemma claude_start_words:
  "claude_BuildStart t st = (Inr c, st') \<Longrightarrow> claude_skipPermissionsFlag \<in> set (Argv c) \<Longrightarrow>
     unattended t \<or> claude_skipPermissionsFlag \<in> user_words t []"
  by (auto simp: claude_BuildStart_def dest!: claude_flags_words [where ref = "[]"] split: if_splits)
    (simp_all add: claude_skipPermissionsFlag_def user_words_def)

lemma claude_resume_words:
  "claude_BuildResume t ref st = (Inr c, st') \<Longrightarrow> claude_skipPermissionsFlag \<in> set (Argv c) \<Longrightarrow>
     unattended t \<or> claude_skipPermissionsFlag \<in> user_words t ref"
  by (auto simp: claude_BuildResume_def dest!: claude_flags_words [where ref = ref] split: if_splits)
    (simp_all add: claude_skipPermissionsFlag_def user_words_def)

lemma copilot_start_words:
  "copilot_BuildStart t st = (Inr c, st') \<Longrightarrow> copilot_skipPermissionsFlag \<in> set (Argv c) \<Longrightarrow>
     unattended t \<or> copilot_skipPermissionsFlag \<in> user_words t []"
  by (auto simp: copilot_BuildStart_def dest!: copilot_flags_words [where ref = "[]"] split: if_splits)
    (simp_all add: copilot_skipPermissionsFlag_def user_words_def)

lemma copilot_resume_words:
  "copilot_BuildResume t ref st = (Inr c, st') \<Longrightarrow> copilot_skipPermissionsFlag \<in> set (Argv c) \<Longrightarrow>
     unattended t \<or> copilot_skipPermissionsFlag \<in> user_words t ref"
  by (auto simp: copilot_BuildResume_def dest!: copilot_flags_words [where ref = ref] split: if_splits)
    (simp_all add: copilot_skipPermissionsFlag_def user_words_def copilot_resumePrompt_def resumePrompt_def)

lemma skip_flag_added:
  "unattended t \<Longrightarrow> claude_skipPermissionsFlag \<in> set (claude_appendCommonFlags argv t)"
  "unattended t \<Longrightarrow> copilot_skipPermissionsFlag \<in> set (copilot_appendCommonFlags argv t)"
  by (simp_all add: claude_appendCommonFlags_def copilot_appendCommonFlags_def unattended_def)

text \<open>A run of the fake: for each call, the session and the block it was built for.\<close>

datatype fake_call = FStart string | FResume string

fun call_ref :: "fake_call \<Rightarrow> string" where
  "call_ref (FStart r) = r"
| "call_ref (FResume r) = r"

fun fake_step :: "string result \<Rightarrow> task_spec \<Rightarrow> fake_call \<Rightarrow> pstate \<Rightarrow> command result \<times> pstate" where
  "fake_step exe t (FStart r) st = fake_BuildStart exe (t\<lparr>ts_SessionRef := r\<rparr>) st"
| "fake_step exe t (FResume r) st = fake_BuildResume exe t r st"

fun fake_run :: "string result \<Rightarrow> task_spec \<Rightarrow> fake_call list \<Rightarrow> pstate \<Rightarrow> command result list \<times> pstate" where
  "fake_run exe t [] st = ([], st)"
| "fake_run exe t (c # cs) st =
     (let (r, st1) = fake_step exe t c st; (rs, st2) = fake_run exe t cs st1 in (r # rs, st2))"

definition block_argv :: "string \<Rightarrow> string \<Rightarrow> int \<Rightarrow> string list" where
  "block_argv exe script b = [exe, RunMode, ''--script'', script, ''--block'', Itoa b]"

lemma scriptPath_cong [simp]: "scriptPath (t\<lparr>ts_SessionRef := r\<rparr>) = scriptPath t"
  by (simp add: scriptPath_def)

lemma fake_command_ok:
  "scriptPath t = Inr script \<Longrightarrow> fake_command (Inr exe) t ref b st
     = (Inr \<lparr>Argv = block_argv exe script b, Env = []\<rparr>, st(ref \<mapsto> b + 1))"
  by (simp add: fake_command_def block_argv_def)

lemma fake_run_resumes:
  assumes "scriptPath t = Inr script" and "st ref = Some b" and "FStart ref \<notin> set cs"
  shows "map snd (filter (\<lambda>(c, r). call_ref c = ref) (zip cs (fst (fake_run (Inr exe) t cs st))))
      = map (\<lambda>k. Inr \<lparr>Argv = block_argv exe script (b + int k), Env = []\<rparr>)
          [0..<length (filter (\<lambda>c. call_ref c = ref) cs)]"
  using assms(3,2)
proof (induction cs arbitrary: st b)
  case (Cons c cs)
  obtain r st1 where s: "fake_step (Inr exe) t c st = (r, st1)" by fastforce
  have nz: "map f [0..<Suc n] = f 0 # map (\<lambda>k. f (Suc k)) [0..<n]" for f :: "nat \<Rightarrow> command result" and n
    by (simp add: map_upt_Suc del: upt_Suc)
  show ?case
  proof (cases "call_ref c = ref")
    case True
    then have "c = FResume ref" using Cons.prems by (cases c) auto
    then have "r = Inr \<lparr>Argv = block_argv exe script b, Env = []\<rparr>" "st1 ref = Some (b + 1)"
      using s Cons.prems(2) by (auto simp: fake_BuildResume_def fake_command_ok [OF assms(1)])
    then show ?thesis
      using Cons.IH [of st1 "b + 1"] Cons.prems(1) s True
      by (simp add: case_prod_beta nz add.assoc del: upt_Suc)
  next
    case False
    then have "st1 ref = st ref"
      using s assms(1) by (cases c) (auto simp: fake_BuildResume_def fake_BuildStart_def fake_command_ok)
    then show ?thesis using Cons.IH [of st1 b] Cons.prems s False by (simp add: case_prod_beta)
  qed
qed simp

section \<open>Properties\<close>

text \<open>C13: the flag that lets an agent act without approval reaches the command line of Claude or Copilot
  exactly on opt-in: with \<open>unattended = true\<close> every command carries it, without it the flag is there
  only if the user typed it (as prompt, model, binary, session or extra argument).\<close>

theorem skip_permissions_opt_in:
  assumes "(f, build) \<in> {(claude_skipPermissionsFlag, claude_BuildStart t st),
      (claude_skipPermissionsFlag, claude_BuildResume t ref st),
      (copilot_skipPermissionsFlag, copilot_BuildStart t st),
      (copilot_skipPermissionsFlag, copilot_BuildResume t ref st)}"
    and "build = (Inr c, st')" and "f \<notin> user_words t []" and "f \<notin> user_words t ref"
  shows "f \<in> set (Argv c) \<longleftrightarrow> unattended t"
proof -
  have "unattended t" if "f \<in> set (Argv c)"
    using assms that claude_start_words claude_resume_words copilot_start_words copilot_resume_words
    by blast
  moreover have "f \<in> set (Argv c)" if "unattended t"
    using assms(1,2) skip_flag_added [OF that]
    by (auto simp: claude_BuildStart_def claude_BuildResume_def copilot_BuildStart_def
        copilot_BuildResume_def split: if_splits)
  ultimately show ?thesis by blast
qed

definition sample_spec :: task_spec where
  "sample_spec = \<lparr>ts_Prompt = ''fix it'', ts_Passthrough = [], ts_Cwd = ''/w'', ts_Mode = ''headless'',
     ts_SessionRef = ''s1'', ts_Model = [], ts_ProviderConfig = [''unattended'' \<mapsto> VBool False,
       ''script'' \<mapsto> VString ''/s'']\<rparr>"

theorem skip_permissions_opt_in_witness:
  "\<exists>c. claude_BuildResume sample_spec ''s1'' Map.empty = (Inr c, Map.empty) \<and>
     claude_skipPermissionsFlag \<notin> set (Argv c)"
proof -
  have w: "claude_skipPermissionsFlag \<notin> user_words sample_spec r" if "r \<in> {[], ''s1''}" for r
    using that by (auto simp: user_words_def sample_spec_def claude_skipPermissionsFlag_def
        claude_binaryName_def copilot_binaryName_def config_string_def resumePrompt_def
        defaultResumePrompt_def extraArgs_def)
  obtain c where c: "claude_BuildResume sample_spec ''s1'' Map.empty = (Inr c, Map.empty)"
    by (simp add: claude_BuildResume_def)
  have "\<not> unattended sample_spec" by (simp add: unattended_def sample_spec_def)
  then show ?thesis
    using skip_permissions_opt_in [OF _ c, where f = claude_skipPermissionsFlag and t = sample_spec
        and st = Map.empty and ref = "''s1''"] c w by simp
qed

text \<open>The fake replays its script block by block: whatever other sessions do in between, the start of
  a session gets block 1 and its resumes blocks 2, 3, ... in order.\<close>

theorem fake_replays_in_order:
  assumes "scriptPath t = Inr script" and "FStart ref \<notin> set cs"
  shows "map snd (filter (\<lambda>(c, r). call_ref c = ref)
      (zip (FStart ref # cs) (fst (fake_run (Inr exe) t (FStart ref # cs) st))))
    = map (\<lambda>k. Inr \<lparr>Argv = block_argv exe script (1 + int k), Env = []\<rparr>)
        [0..<length (filter (\<lambda>c. call_ref c = ref) (FStart ref # cs))]"
proof -
  have s: "fake_step (Inr exe) t (FStart ref) st
      = (Inr \<lparr>Argv = block_argv exe script 1, Env = []\<rparr>, st(ref \<mapsto> 2))"
    using assms(1) by (simp add: fake_BuildStart_def fake_command_ok)
  have nz: "map f [0..<Suc n] = f 0 # map (\<lambda>k. f (Suc k)) [0..<n]" for f :: "nat \<Rightarrow> command result" and n
    by (simp add: map_upt_Suc del: upt_Suc)
  show ?thesis
    using fake_run_resumes [OF assms(1), of "st(ref \<mapsto> 2)" ref 2 cs exe] assms(2)
    by (simp add: s case_prod_beta nz del: upt_Suc fake_step.simps)
qed

theorem fake_replays_in_order_witness:
  "map snd (filter (\<lambda>(c, r). call_ref c = ''a'')
      (zip [FStart ''a'', FStart ''b'', FResume ''a''] (fst (fake_run (Inr ''x'') sample_spec
         [FStart ''a'', FStart ''b'', FResume ''a''] Map.empty))))
    = [Inr \<lparr>Argv = block_argv ''x'' ''/s'' 1, Env = []\<rparr>, Inr \<lparr>Argv = block_argv ''x'' ''/s'' 2, Env = []\<rparr>]"
  using fake_replays_in_order [of sample_spec "''/s''" "''a''" "[FStart ''b'', FResume ''a'']" "''x''" Map.empty]
  by (simp add: scriptPath_def sample_spec_def numeral_2_eq_2)

subsection \<open>The reset hint of the fake\<close>

definition stamp_chars :: "char set" where
  "stamp_chars = {c. is_digit c} \<union> {CHR ''-'', CHR '':'', CHR ''T'', CHR ''Z'', CHR ''.''}"

lemma append_int_chars: "set (append_int x w) \<subseteq> stamp_chars"
  using pad_dec_digits [of w "nat x"] pad_dec_digits [of w "nat (- x)"]
  by (auto simp: append_int_def stamp_chars_def list_all_iff split: if_splits)

lemma frac_text_chars: "set (frac_text n) \<subseteq> stamp_chars"
  using pad_dec_digits [of 9 n]
  by (auto simp: frac_text_def stamp_chars_def list_all_iff Let_def dest: set_dropWhileD)

lemma format_chars: "set (format_RFC3339Nano t) \<subseteq> stamp_chars"
proof -
  obtain y mo d where c: "civil_of_days (t div Second div 86400) = (y, mo, d)" by (metis prod_cases3)
  have "{CHR ''-'', CHR '':'', CHR ''T'', CHR ''Z''} \<subseteq> stamp_chars" by (auto simp: stamp_chars_def)
  then show ?thesis
    using append_int_chars frac_text_chars
    unfolding format_RFC3339Nano_def Let_def c prod.case by (simp only: set_append list.set Un_subset_iff) auto
qed

lemma stamp_chars_plain: "c \<in> stamp_chars \<Longrightarrow> \<not> is_space c \<and> c \<noteq> CHR ''F''"
  by (auto simp: stamp_chars_def is_space_def is_digit_def)

lemma no_Contains: "c \<notin> set s \<Longrightarrow> \<not> Contains s (c # p)"
  by (induction s) (auto simp: HasPrefix_def)

lemma floor_second_ok: "year_ok t \<Longrightarrow> year_ok (t div Second * Second)" for t :: time
  by (simp add: year_ok_def)

lemma format_not_Nil: "format_RFC3339Nano t \<noteq> []"
  by (auto simp: format_RFC3339Nano_def Let_def split: prod.splits)

text \<open>What the rules of the fake use of the regex library.\<close>

definition reset_regex :: string where
  "reset_regex = ''FAKE_RESET_AT=('' @ bs @ ''S+)''"

definition fake_regexes :: "libs \<Rightarrow> bool" where
  "fake_regexes L \<longleftrightarrow>
     (\<forall>re \<in> {reset_regex, ''FAKE_QUOTA_EXHAUSTED'', ''FAKE_FATAL''}. re_compile L re = None) \<and>
     (\<forall>s. re_match L ''FAKE_QUOTA_EXHAUSTED'' s = Contains s ''FAKE_QUOTA_EXHAUSTED'') \<and>
     (\<forall>s. re_match L ''FAKE_FATAL'' s = Contains s ''FAKE_FATAL'') \<and>
     (\<forall>w. w \<noteq> [] \<and> (\<forall>c \<in> set w. \<not> is_space c) \<longrightarrow>
        re_match L reset_regex (''FAKE_RESET_AT='' @ w @ [CHR 0x0A]) \<and>
        re_submatch L reset_regex (''FAKE_RESET_AT='' @ w @ [CHR 0x0A]) = [''FAKE_RESET_AT='' @ w, w])"

lemma sorted_fake_rules:
  "sort_desc rule_Priority fake_DetectionRules = [fake_DetectionRules ! 2, fake_DetectionRules ! 1,
     fake_DetectionRules ! 0, fake_DetectionRules ! 3]"
  by (simp add: sort_desc_def fake_DetectionRules_def builtin_rule_def)

lemma hint_no_Contains:
  assumes "CHR ''F'' \<notin> set w"
  shows "\<not> Contains (''FAKE_RESET_AT='' @ w @ [CHR 0x0A]) ''FAKE_FATAL''"
    and "\<not> Contains (''FAKE_RESET_AT='' @ w @ [CHR 0x0A]) ''FAKE_QUOTA_EXHAUSTED''"
  using assms no_Contains [of "CHR ''F''" "w @ [CHR 0x0A]"] by (simp_all add: HasPrefix_def)

text \<open>A script's \<open>reset-at\<close> directive and the fake's own rules agree: an attempt whose block prints the
  hint and fails is classified as rate limited by \<open>fake.reset\<close>, and its reset time is the promised
  instant, cut to the second by the RFC 3339 text.\<close>

theorem fake_reset_hint_detected:
  assumes "fake_regexes L" and "NewEngine L fake_DetectionRules = Inr e"
    and "parseLine line = Inr (''reset-at'', rest)"
    and "ParseDuration (TrimPrefix (firstToken rest) ''+'') = Some d" and "year_ok (now 0 + d)"
    and "runBlock now [line] \<lparr>io_stdin = i, io_stdout = [], io_stderr = [], io_slept = 0, io_ticks = 0\<rparr> = (r, io)"
  shows "r = Inr 0 \<and>
    Classify L e \<lparr>in_ExitCode = code, in_Stdout = io_stdout io, in_Stderr = []\<rparr> t =
      \<lparr>res_Category = CategoryRateLimit, res_MatchedRule = ''fake.reset'',
       res_ResetAt = (let wk = (now 0 + d) div Second * Second in if t < wk then Some wk else None)\<rparr>"
proof -
  define wk where "wk = (now 0 + d) div Second * Second"
  define w where "w = format_RFC3339Nano wk"
  have io: "r = Inr 0" "io_stdout io = ''FAKE_RESET_AT='' @ w @ [CHR 0x0A]"
    using assms(3,4,6) by (auto simp: Let_def format_RFC3339_def time_Add_def w_def wk_def)
  have w: "w \<noteq> []" "\<forall>c \<in> set w. \<not> is_space c" "CHR ''F'' \<notin> set w"
    using format_not_Nil format_chars [of wk] stamp_chars_plain by (auto simp: w_def)
  have parse: "parse_RFC3339 w = Some wk"
    unfolding w_def wk_def by (intro parse_format_RFC3339Nano floor_second_ok assms(5))
  let ?in = "\<lparr>in_ExitCode = code, in_Stdout = ''FAKE_RESET_AT='' @ w @ [CHR 0x0A], in_Stderr = []\<rparr>"
  have m: "\<not> rule_matches L (fake_DetectionRules ! 2) ?in" "\<not> rule_matches L (fake_DetectionRules ! 1) ?in"
    "rule_matches L (fake_DetectionRules ! 0) ?in"
    using assms(1) w hint_no_Contains [OF w(3)]
    by (simp_all add: rule_matches_def fake_DetectionRules_def builtin_rule_def on_stdout_def no_cond_def
        fake_regexes_def reset_regex_def)
  have x: "rule_Reset (fake_DetectionRules ! 0) = Some \<lparr>x_Source = ''stdout'', x_Regex = reset_regex,
      x_Kind = ''rfc3339'', x_Format = []\<rparr>"
    by (simp add: fake_DetectionRules_def builtin_rule_def reset_regex_def)
  have "extractReset L (rule_Reset (fake_DetectionRules ! 0)) ?in t = (if t < wk then Some wk else None)"
    unfolding x using assms(1) w parse
    by (simp add: extractReset_def sourceBytes_def parseReset_def fake_regexes_def)
  then show ?thesis
    using m io(1) unfolding Classify_spec [OF assms(2)] sorted_fake_rules io(2)
    by (simp add: result_of_def Let_def wk_def) (simp add: fake_DetectionRules_def builtin_rule_def)
qed

definition fake_libs :: libs where
  "fake_libs = plain_libs\<lparr>
     re_match := \<lambda>re s. if re = reset_regex then HasPrefix s ''FAKE_RESET_AT='' else Contains s re,
     re_submatch := \<lambda>re s. (let w = takeWhile (\<lambda>c. \<not> is_space c) (drop 14 s) in [''FAKE_RESET_AT='' @ w, w])\<rparr>"

lemma fake_libs_ok: "fake_regexes fake_libs"
  unfolding fake_regexes_def
proof (intro conjI allI impI)
  fix w :: string
  assume w: "w \<noteq> [] \<and> (\<forall>c \<in> set w. \<not> is_space c)"
  then have "takeWhile (\<lambda>c. \<not> is_space c) (w @ [CHR 0x0A]) = w"
    by (simp add: takeWhile_append is_space_def)
  then show "re_submatch fake_libs reset_regex (''FAKE_RESET_AT='' @ w @ [CHR 0x0A]) = [''FAKE_RESET_AT='' @ w, w]"
    by (simp add: fake_libs_def)
qed (auto simp: fake_libs_def plain_libs_def reset_regex_def HasPrefix_def)

theorem fake_reset_hint_detected_witness:
  "\<exists>e io. NewEngine fake_libs fake_DetectionRules = Inr e \<and>
     runBlock (\<lambda>_. 7) [''attempt: reset-at +2s''] \<lparr>io_stdin = [], io_stdout = [], io_stderr = [], io_slept = 0, io_ticks = 0\<rparr>
       = (Inr 0, io) \<and>
     res_ResetAt (Classify fake_libs e \<lparr>in_ExitCode = 1, in_Stdout = io_stdout io, in_Stderr = []\<rparr> 9) = Some (2 * Second)"
proof -
  have "\<forall>r \<in> set fake_DetectionRules. rule_compiles fake_libs r"
    by (simp add: rule_compiles_def fake_DetectionRules_def builtin_rule_def validCategories_def
        fake_libs_def plain_libs_def)
  then obtain e where e: "NewEngine fake_libs fake_DetectionRules = Inr e"
    using NewEngine_Inr by blast
  have p: "parseLine ''attempt: reset-at +2s'' = Inr (''reset-at'', ''+2s'')" by code_simp
  have d: "ParseDuration (TrimPrefix (firstToken ''+2s'') ''+'') = Some (2 * Second)" by code_simp
  have y: "year_ok ((\<lambda>_. 7) (0::nat) + 2 * Second)" by code_simp
  obtain r io where run: "runBlock (\<lambda>_. 7) [''attempt: reset-at +2s'']
      \<lparr>io_stdin = [], io_stdout = [], io_stderr = [], io_slept = 0, io_ticks = 0\<rparr> = (r, io)" by fastforce
  from fake_reset_hint_detected [OF fake_libs_ok e p d y run, of 1 9] show ?thesis
    using e run by (intro exI [of _ e] exI [of _ io]) simp
qed

end
