(* ===== verification/Supervisor.thy ===== *)
theory Supervisor
  imports Store Provider
begin

text \<open>
  The per-task state machine (\<open>internal/supervisor\<close>): \<open>Handle\<close> takes one event, decides the
  transition, persists it in one transaction and asks its dependencies for the effects. The world it
  acts on is passed explicitly: the database, the timers, the adapters' state, and a trace of what was
  spawned, killed and announced. The answers of the outside (clock readings, process identifiers or
  spawn errors, kill errors, fresh identifiers, transaction failures) are streams read at the world's
  step counter, which every such call advances.
\<close>

section \<open>States and events\<close>

definition Terminal :: "status \<Rightarrow> bool" where
  "Terminal st \<longleftrightarrow> st \<in> {SUCCEEDED, FAILED, STOPPED}"

datatype event =
    EventStart
  | EventTimerFire
  | EventAttemptExit (ev_ExitCode: int) (ev_Stdout: string) (ev_Stderr: string)
  | EventUserPause
  | EventUserResume
  | EventUserStop
  | EventAvailabilityOK

record sup_policy =
  Scheduler_policy :: policy
  OnUnknown :: string
  ScanBytes :: int
  ProbeInterval :: duration

datatype json_val = JInt int | JStr string | JBool bool

record deps =
  d_provider :: provider
  d_libs :: libs
  d_engine :: engine
  d_rng :: rng
  d_clock :: "nat \<Rightarrow> time"
  d_spawn :: "nat \<Rightarrow> int result"
  d_kill :: "nat \<Rightarrow> go_error option"
  d_uuid :: "nat \<Rightarrow> string"
  d_fault :: "nat \<Rightarrow> tx_fault"
  d_files :: "string \<Rightarrow> int \<Rightarrow> (string \<times> string) result"
  d_probe :: bool
  d_json :: "(string \<times> json_val) list \<Rightarrow> string"

datatype effect =
    Spawned int "string list" "int result"
  | Killed "go_error option"
  | Notified task

record world =
  w_db :: db
  w_timers :: timers
  w_pstate :: pstate
  w_step :: nat
  w_rng :: nat
  w_trace :: "effect list"

record supervisor =
  s_task :: task
  s_spec :: task_spec
  s_policy :: sup_policy
  s_waitingSince :: "time option"
  s_currentAttempt :: "attempt option"
  s_prober :: bool

definition New :: "task \<Rightarrow> task_spec \<Rightarrow> sup_policy \<Rightarrow> supervisor" where
  "New t sp pol = \<lparr>s_task = t, s_spec = sp, s_policy = pol, s_waitingSince = None,
     s_currentAttempt = None, s_prober = False\<rparr>"

type_synonym outcome = "go_error option \<times> supervisor \<times> world"

section \<open>Effects\<close>

definition clock_Now :: "deps \<Rightarrow> world \<Rightarrow> time \<times> world" where
  "clock_Now D w = (d_clock D (w_step w), w\<lparr>w_step := Suc (w_step w)\<rparr>)"

definition do_Spawn :: "deps \<Rightarrow> int \<Rightarrow> command \<Rightarrow> world \<Rightarrow> int result \<times> world" where
  "do_Spawn D n cmd w = (let r = d_spawn D (w_step w) in
     (r, w\<lparr>w_step := Suc (w_step w), w_trace := w_trace w @ [Spawned n (Argv cmd) r]\<rparr>))"

definition do_Kill :: "deps \<Rightarrow> world \<Rightarrow> go_error option \<times> world" where
  "do_Kill D w = (let r = d_kill D (w_step w) in
     (r, w\<lparr>w_step := Suc (w_step w), w_trace := w_trace w @ [Killed r]\<rparr>))"

definition NewString :: "deps \<Rightarrow> world \<Rightarrow> string \<times> world" where
  "NewString D w = (d_uuid D (w_step w), w\<lparr>w_step := Suc (w_step w)\<rparr>)"

definition event_stmt :: "string \<Rightarrow> time \<Rightarrow> string \<Rightarrow> string \<Rightarrow> db \<Rightarrow> db result" where
  "event_stmt i ts ty det = drop_id \<circ> Tx_AppendEvent
     \<lparr>e_ID = 0, e_TaskID = i, e_TS = ts, e_Type = ty, e_Detail = det\<rparr>"

definition and_then :: "(db \<Rightarrow> db result) \<Rightarrow> (db \<Rightarrow> db result) \<Rightarrow> db \<Rightarrow> db result" where
  "and_then f g d = (case f d of Inl e \<Rightarrow> Inl e | Inr d' \<Rightarrow> g d')"

text \<open>\<open>persist\<close>: the transition's statements and the task row in one transaction; the task in memory is
  replaced and announced only when it commits.\<close>

definition persist :: "deps \<Rightarrow> task \<Rightarrow> (db \<Rightarrow> db result) \<Rightarrow> supervisor \<Rightarrow> world \<Rightarrow> outcome" where
  "persist D nxt fn s w =
     (let (err, db') = UpdateTaskTx (d_fault D (w_step w)) (and_then fn (Tx_UpdateTask nxt)) (w_db w);
          w1 = w\<lparr>w_db := db', w_step := Suc (w_step w)\<rparr>
      in case err of
           Some e \<Rightarrow> (Some (Wrap (''supervisor: persist transition to '' @ status_String (Status nxt) @ '': '') e []), s, w1)
         | None \<Rightarrow> (None, s\<lparr>s_task := nxt\<rparr>, w1\<lparr>w_trace := w_trace w1 @ [Notified nxt]\<rparr>))"

section \<open>Sessions (\<open>session.go\<close>)\<close>

definition deref :: "string option \<Rightarrow> string" where
  "deref s = (case s of None \<Rightarrow> [] | Some x \<Rightarrow> x)"

definition buildCommand :: "deps \<Rightarrow> supervisor \<Rightarrow> world \<Rightarrow> command result \<times> bool \<times> world" where
  "buildCommand D s w =
     (let ref = deref (SessionRef (s_task s)); caps = p_Capabilities (d_provider D);
          first = (TotalAttempts (s_task s) = 0)
      in if ref \<noteq> [] \<and> cap_Resume caps \<and> (\<not> first \<or> SessionMode (s_task s) = ''existing'')
         then (let (r, ps) = p_BuildResume (d_provider D) (s_spec s) ref (w_pstate w)
               in (r, True, w\<lparr>w_pstate := ps\<rparr>))
         else (let (r, ps) = p_BuildStart (d_provider D) ((s_spec s)\<lparr>ts_SessionRef := ref\<rparr>) (w_pstate w)
               in (r, False, w\<lparr>w_pstate := ps\<rparr>)))"

definition ev_input :: "supervisor \<Rightarrow> event \<Rightarrow> input" where
  "ev_input s ev = \<lparr>in_ExitCode = ev_ExitCode ev, in_Stdout = Tail (ev_Stdout ev) (ScanBytes (s_policy s)),
     in_Stderr = Tail (ev_Stderr ev) (ScanBytes (s_policy s))\<rparr>"

definition adoptSessionRef :: "deps \<Rightarrow> supervisor \<Rightarrow> event \<Rightarrow> task \<Rightarrow> task" where
  "adoptSessionRef D s ev nxt =
     (if deref (SessionRef nxt) \<noteq> [] then nxt
      else case p_ExtractSessionRef (d_provider D) (ev_input s ev) of
        Some ref \<Rightarrow> if ref \<noteq> [] then nxt\<lparr>SessionRef := Some ref\<rparr> else nxt
      | None \<Rightarrow> nxt)"

section \<open>Transitions (\<open>supervisor.go\<close>)\<close>

definition stopProber :: "supervisor \<Rightarrow> supervisor" where
  "stopProber s = s\<lparr>s_prober := False\<rparr>"

definition startProber :: "deps \<Rightarrow> supervisor \<Rightarrow> supervisor" where
  "startProber D s = (if \<not> d_probe D \<or> ProbeInterval (s_policy s) \<le> 0 \<or> s_prober s then s
     else s\<lparr>s_prober := True\<rparr>)"

definition classify :: "deps \<Rightarrow> supervisor \<Rightarrow> event \<Rightarrow> time \<Rightarrow> detect_result" where
  "classify D s ev now = Classify (d_libs D) (d_engine D) (ev_input s ev) now"

definition closeAttempt :: "event \<Rightarrow> detect_result \<Rightarrow> time \<Rightarrow> supervisor \<Rightarrow> supervisor" where
  "closeAttempt ev r now s =
     (case s_currentAttempt s of None \<Rightarrow> s
      | Some a \<Rightarrow> s\<lparr>s_currentAttempt := Some (a\<lparr>a_EndedAt := Some now, a_ExitCode := Some (ev_ExitCode ev),
          a_Outcome := Some (res_Category r), a_ResetAt := res_ResetAt r,
          a_MatchedRule := (if res_MatchedRule r \<noteq> [] then Some (res_MatchedRule r) else a_MatchedRule a)\<rparr>)\<rparr>)"

definition persistAttempt :: "supervisor \<Rightarrow> db \<Rightarrow> db result" where
  "persistAttempt s d = (case s_currentAttempt s of None \<Rightarrow> Inr d | Some a \<Rightarrow> Tx_UpdateAttempt a d)"

definition exitDetail :: "deps \<Rightarrow> event \<Rightarrow> detect_result \<Rightarrow> string" where
  "exitDetail D ev r = d_json D [(''exit_code'', JInt (ev_ExitCode ev)), (''outcome'', JStr (res_Category r)),
     (''rule'', JStr (res_MatchedRule r))]"

definition fail_task :: "deps \<Rightarrow> string \<Rightarrow> supervisor \<Rightarrow> world \<Rightarrow> outcome" where
  "fail_task D reason s w0 =
     (let (now, w) = clock_Now D w0;
          nxt = (s_task s)\<lparr>Status := FAILED, ExitReason := Some reason, NextWakeAt := None, UpdatedAt := now\<rparr>
      in persist D nxt (event_stmt (ID (s_task s)) now ''state_change''
           (d_json D [(''to'', JStr (status_String FAILED)), (''reason'', JStr reason)])) s w)"

definition spawnAttempt :: "deps \<Rightarrow> string \<Rightarrow> supervisor \<Rightarrow> world \<Rightarrow> outcome" where
  "spawnAttempt D cause s w0 =
     (let (now, w1) = clock_Now D w0; t = s_task s; n = TotalAttempts t + 1 in
      case d_files D (ID t) n of
        Inl e \<Rightarrow> (Some (Wrap (''supervisor: attempt '' @ Itoa n @ '' files: '') e []), s, w1)
      | Inr (so, se) \<Rightarrow>
        (let (cmd, resumed, w2) = buildCommand D s w1 in
         case cmd of
           Inl e \<Rightarrow> fail_task D (''build command: '' @ err_text e) s w2
         | Inr c \<Rightarrow>
           (let (r, w3) = do_Spawn D n c w2 in
            case r of
              Inl e \<Rightarrow> fail_task D (''spawn attempt '' @ Itoa n @ '': '' @ err_text e) s w3
            | Inr pid \<Rightarrow>
              (let (uid, w4) = NewString D w3;
                   a = \<lparr>a_ID = uid, a_TaskID = ID t, a_AttemptNo = n, a_PID = Some pid, a_StartedAt = now,
                        a_EndedAt = None, a_ExitCode = None, a_Outcome = None, a_ResetAt = None,
                        a_MatchedRule = None, a_StdoutPath = so, a_StderrPath = se\<rparr>;
                   nxt = t\<lparr>Status := RUNNING, CurrentAttempt := n, TotalAttempts := n, NextWakeAt := None,
                            UpdatedAt := now\<rparr>;
                   (err, s5, w5) = persist D nxt (and_then (Tx_AddAttempt a)
                     (event_stmt (ID t) now ''attempt_start'' (d_json D [(''attempt'', JInt n),
                        (''cause'', JStr cause), (''resumed'', JBool resumed), (''pid'', JInt pid)]))) s w4
               in case err of
                    Some e \<Rightarrow> (Some e, s5, snd (do_Kill D w5))
                  | None \<Rightarrow> (None, s5\<lparr>s_currentAttempt := Some a\<rparr>, w5)))))"

definition wake_cause :: "event \<Rightarrow> string" where
  "wake_cause ev = (case ev of EventTimerFire \<Rightarrow> ''timer_fire'' | EventAvailabilityOK \<Rightarrow> ''availability_ok''
     | EventUserResume \<Rightarrow> ''user_resume'' | _ \<Rightarrow> [])"

definition account_wait :: "time \<Rightarrow> time \<Rightarrow> task \<Rightarrow> task" where
  "account_wait now since t =
     t\<lparr>CumulativeWaitMS := i64 (CumulativeWaitMS t + Milliseconds (time_Sub now since))\<rparr>"

definition wake :: "deps \<Rightarrow> event \<Rightarrow> supervisor \<Rightarrow> world \<Rightarrow> outcome" where
  "wake D ev s0 w0 =
     (let w = w0\<lparr>w_timers := timers_Cancel (ID (s_task s0)) (w_timers w0)\<rparr>; s = stopProber s0;
          (s', w') = (case s_waitingSince s of
              Some since \<Rightarrow> if Status (s_task s) = WAITING
                then (let (now, w1) = clock_Now D w in
                  (s\<lparr>s_task := account_wait now since (s_task s), s_waitingSince := None\<rparr>, w1))
                else (s, w)
            | None \<Rightarrow> (s, w))
      in spawnAttempt D (wake_cause ev) s' w')"

definition finish :: "deps \<Rightarrow> task \<Rightarrow> status \<Rightarrow> string \<Rightarrow> detect_result \<Rightarrow> supervisor \<Rightarrow> world \<Rightarrow> outcome" where
  "finish D nxt0 st reason r s w =
     (let now = UpdatedAt nxt0;
          nxt = nxt0\<lparr>Status := st, ExitReason := Some reason, NextWakeAt := None\<rparr>
      in persist D nxt (and_then (persistAttempt s)
           (event_stmt (ID (s_task s)) now ''state_change'' (d_json D [(''to'', JStr (status_String st)),
              (''reason'', JStr reason), (''outcome'', JStr (res_Category r))]))) s w)"

definition attemptExit :: "deps \<Rightarrow> event \<Rightarrow> supervisor \<Rightarrow> world \<Rightarrow> outcome" where
  "attemptExit D ev s0 w0 =
     (let (now, w) = clock_Now D w0; r = classify D s0 ev now; s = closeAttempt ev r now s0;
          nxt = adoptSessionRef D s ev ((s_task s)\<lparr>UpdatedAt := now, LastOutcome := Some (res_Category r),
                  LastResetAt := res_ResetAt r\<rparr>)
      in if res_Category r = CategorySuccess then finish D nxt SUCCEEDED ''success'' r s w
         else if res_Category r = CategoryFatalError \<or>
                 res_Category r = CategoryUnknown \<and> OnUnknown (s_policy s) = ''fail''
         then finish D nxt FAILED (if res_MatchedRule r = [] then ''unknown outcome (on_unknown=fail)''
                else res_MatchedRule r) r s w
         else
           (let sp = Scheduler_policy (s_policy s);
                (nextWake, k) = NextWake sp (TotalAttempts nxt) (res_ResetAt r) now (d_rng D) (w_rng w);
                w1 = w\<lparr>w_rng := k\<rparr>;
                proposed = time_Sub nextWake now;
                waited = i64 (CumulativeWaitMS nxt * Millisecond);
                hit = ExceededCap sp (TotalAttempts nxt) now waited proposed
            in if hit \<noteq> CapNone then finish D nxt FAILED (''cap exceeded: '' @ cap_String hit) r s w1
               else
                 (let nxt' = nxt\<lparr>Status := WAITING, NextWakeAt := Some nextWake\<rparr>;
                      (err, s2, w2) = persist D nxt' (and_then (persistAttempt s) (and_then
                        (event_stmt (ID (s_task s)) now ''attempt_exit'' (exitDetail D ev r))
                        (event_stmt (ID (s_task s)) now ''scheduled''
                           (d_json D [(''next_wake_at'', JStr (format_RFC3339Nano nextWake))])))) s w1
                  in case err of
                       Some e \<Rightarrow> (Some e, s2, w2)
                     | None \<Rightarrow>
                       (let s3 = s2\<lparr>s_waitingSince := Some now\<rparr>;
                            (tnow, w3) = clock_Now D w2;
                            w4 = w3\<lparr>w_timers := timers_Arm tnow (ID (s_task s)) nextWake (w_timers w3)\<rparr>
                        in (None, if res_Category r = CategoryQuotaExhausted then startProber D s3 else s3, w4)))))"

definition recordPausedExit :: "deps \<Rightarrow> event \<Rightarrow> supervisor \<Rightarrow> world \<Rightarrow> outcome" where
  "recordPausedExit D ev s0 w0 =
     (let (now, w) = clock_Now D w0; r = classify D s0 ev now; s = closeAttempt ev r now s0;
          nxt = adoptSessionRef D s ev ((s_task s)\<lparr>UpdatedAt := now, LastOutcome := Some (res_Category r),
                  LastResetAt := res_ResetAt r\<rparr>)
      in persist D nxt (and_then (persistAttempt s)
           (event_stmt (ID (s_task s)) now ''attempt_exit'' (exitDetail D ev r))) s w)"

definition pause :: "deps \<Rightarrow> supervisor \<Rightarrow> world \<Rightarrow> outcome" where
  "pause D s0 w0 =
     (let (now, w1) = clock_Now D w0;
          w = w1\<lparr>w_timers := timers_Cancel (ID (s_task s0)) (w_timers w1)\<rparr>; s = stopProber s0; t = s_task s;
          (nxt0, s') = (case s_waitingSince s of
              Some since \<Rightarrow> if Status t = WAITING then (account_wait now since t, s\<lparr>s_waitingSince := None\<rparr>)
                else (t, s)
            | None \<Rightarrow> (t, s));
          nxt = nxt0\<lparr>Status := PAUSED, NextWakeAt := None, UpdatedAt := now\<rparr>
      in persist D nxt (event_stmt (ID t) now ''user_action''
           (d_json D [(''action'', JStr ''pause''), (''from'', JStr (status_String (Status t)))])) s' w)"

definition stop :: "deps \<Rightarrow> supervisor \<Rightarrow> world \<Rightarrow> outcome" where
  "stop D s0 w0 =
     (let (now, w1) = clock_Now D w0;
          w = w1\<lparr>w_timers := timers_Cancel (ID (s_task s0)) (w_timers w1)\<rparr>; s = stopProber s0; t = s_task s;
          (kerr, w2) = (if Status t = RUNNING \<or> Status t = PAUSED then do_Kill D w else (None, w))
      in case kerr of
           Some e \<Rightarrow> (Some (Wrap ''supervisor: kill child: '' e []), s, w2)
         | None \<Rightarrow>
             persist D (t\<lparr>Status := STOPPED, ExitReason := Some ''stopped by user'', NextWakeAt := None,
                          UpdatedAt := now\<rparr>)
               (event_stmt (ID t) now ''user_action''
                 (d_json D [(''action'', JStr ''stop''), (''from'', JStr (status_String (Status t)))])) s w2)"

definition Handle :: "deps \<Rightarrow> event \<Rightarrow> supervisor \<Rightarrow> world \<Rightarrow> outcome" where
  "Handle D ev s w =
     (let st = Status (s_task s); ignore = (None, s, w) in
      case ev of
        EventStart \<Rightarrow> if st \<noteq> PENDING then ignore else spawnAttempt D ''start'' s w
      | EventTimerFire \<Rightarrow>
          if st \<noteq> WAITING then ignore
          else (case NextWakeAt (s_task s) of
              Some nw \<Rightarrow> (let (now, w1) = clock_Now D w in
                if now < nw then (None, s, w1) else wake D ev s w1)
            | None \<Rightarrow> wake D ev s w)
      | EventAvailabilityOK \<Rightarrow> if st \<noteq> WAITING then ignore else wake D ev s w
      | EventUserResume \<Rightarrow> if st \<noteq> PAUSED \<and> st \<noteq> WAITING then ignore else wake D ev s w
      | EventAttemptExit _ _ _ \<Rightarrow>
          if st = RUNNING then attemptExit D ev s w
          else if st = PAUSED then recordPausedExit D ev s w
          else ignore
      | EventUserPause \<Rightarrow> if st \<noteq> RUNNING \<and> st \<noteq> WAITING then ignore else pause D s w
      | EventUserStop \<Rightarrow> if Terminal st then ignore else stop D s w)"

text \<open>\<open>Run\<close>: the events of the channel in order, until the task is terminal or a handler fails; the
  context's cancellation is the end of the list.\<close>

fun Run :: "deps \<Rightarrow> event list \<Rightarrow> supervisor \<Rightarrow> world \<Rightarrow> outcome" where
  "Run D [] s w = (None, s, w)"
| "Run D (ev # evs) s w =
     (if Terminal (Status (s_task s)) then (None, s, w)
      else case Handle D ev s w of
        (Some e, s', w') \<Rightarrow> (Some e, s', w')
      | (None, s', w') \<Rightarrow> Run D evs s' w')"

section \<open>What a transaction of the supervisor contains\<close>

fun quiet_stmt :: "stmt \<Rightarrow> bool" where
  "quiet_stmt (SAddAttempt a) = True"
| "quiet_stmt (SUpdateAttempt a) = True"
| "quiet_stmt (SAppendEvent e) = True"
| "quiet_stmt _ = False"

abbreviation quiet :: "stmt list \<Rightarrow> bool" where
  "quiet xs \<equiv> list_all quiet_stmt xs"

lemma exec_stmts_append:
  "exec_stmts (xs @ ys) d = (case exec_stmts xs d of Inl e \<Rightarrow> Inl e | Inr d' \<Rightarrow> exec_stmts ys d')"
  by (induction xs arbitrary: d) (auto split: sum.splits)

lemma and_then_exec: "and_then (exec_stmts xs) (exec_stmts ys) = exec_stmts (xs @ ys)"
  by (rule ext) (simp add: and_then_def exec_stmts_append)

lemma sum_Inr_id [simp]: "(case x of Inl e \<Rightarrow> Inl e | Inr d \<Rightarrow> Inr d) = x"
  by (cases x) simp_all

lemma exec_stmts_single [simp]: "exec_stmts [x] d = exec_stmt x d"
  by (simp split: sum.split)

declare exec_stmts.simps(2) [simp del]

lemma event_stmt_exec:
  "event_stmt i ts ty det = exec_stmts [SAppendEvent \<lparr>e_ID = 0, e_TaskID = i, e_TS = ts, e_Type = ty, e_Detail = det\<rparr>]"
  by (rule ext) (simp add: event_stmt_def)

lemma update_stmt_exec: "Tx_UpdateTask t = exec_stmts [SUpdateTask t]"
  by (rule ext) simp

lemma add_stmt_exec: "Tx_AddAttempt a = exec_stmts [SAddAttempt a]"
  by (rule ext) simp

definition attempt_stmts :: "supervisor \<Rightarrow> stmt list" where
  "attempt_stmts s = (case s_currentAttempt s of None \<Rightarrow> [] | Some a \<Rightarrow> [SUpdateAttempt a])"

lemma persistAttempt_exec: "persistAttempt s = exec_stmts (attempt_stmts s)"
  by (rule ext) (simp add: persistAttempt_def attempt_stmts_def split: option.splits)

lemma quiet_attempt_stmts [simp]: "quiet (attempt_stmts s)"
  by (simp add: attempt_stmts_def split: option.splits)

lemmas tx_exec = event_stmt_exec add_stmt_exec persistAttempt_exec and_then_exec

text \<open>The two outcomes of \<open>persist\<close>, from the contract of the transactional store.\<close>

lemma persist_cases:
  assumes "persist D nxt (exec_stmts xs) s w = (r, s', w')"
  obtains (failed) e where "r = Some e" "s' = s" "w_db w' = w_db w" "w_trace w' = w_trace w"
      "w_timers w' = w_timers w" "w_pstate w' = w_pstate w"
    | (committed) "r = None" "s' = s\<lparr>s_task := nxt\<rparr>"
      "exec_stmts (xs @ [SUpdateTask nxt]) (w_db w) = Inr (w_db w')"
      "w_trace w' = w_trace w @ [Notified nxt]" "w_timers w' = w_timers w" "w_pstate w' = w_pstate w"
proof -
  let ?fn = "exec_stmts (xs @ [SUpdateTask nxt])"
  obtain err db' where u: "UpdateTaskTx (d_fault D (w_step w)) ?fn (w_db w) = (err, db')" by fastforce
  have p: "persist D nxt (exec_stmts xs) s w =
     (case err of Some e \<Rightarrow> (Some (Wrap (''supervisor: persist transition to '' @ status_String (Status nxt) @ '': '') e []),
        s, w\<lparr>w_db := db', w_step := Suc (w_step w)\<rparr>)
      | None \<Rightarrow> (None, s\<lparr>s_task := nxt\<rparr>, w\<lparr>w_db := db', w_step := Suc (w_step w),
           w_trace := w_trace w @ [Notified nxt]\<rparr>))"
    unfolding persist_def update_stmt_exec and_then_exec u by (simp split: option.splits)
  from tx.run_cases [OF u] show ?thesis
    using assms that unfolding p by (cases err) auto
qed

section \<open>The life cycle\<close>

text \<open>The transition table of the documentation, with the infrastructure failures the code adds to the
  rows that start an attempt.\<close>

inductive lifecycle :: "status \<Rightarrow> event \<Rightarrow> status \<Rightarrow> bool" where
  start: "lifecycle PENDING EventStart RUNNING"
| start_fails: "lifecycle PENDING EventStart FAILED"
| wake_up: "ev \<in> {EventTimerFire, EventAvailabilityOK, EventUserResume} \<Longrightarrow> lifecycle WAITING ev RUNNING"
| wake_fails: "ev \<in> {EventTimerFire, EventAvailabilityOK, EventUserResume} \<Longrightarrow> lifecycle WAITING ev FAILED"
| resume: "lifecycle PAUSED EventUserResume RUNNING"
| resume_fails: "lifecycle PAUSED EventUserResume FAILED"
| succeed: "lifecycle RUNNING (EventAttemptExit c so se) SUCCEEDED"
| give_up: "lifecycle RUNNING (EventAttemptExit c so se) FAILED"
| wait: "lifecycle RUNNING (EventAttemptExit c so se) WAITING"
| paused_exit: "lifecycle PAUSED (EventAttemptExit c so se) PAUSED"
| pause_running: "lifecycle RUNNING EventUserPause PAUSED"
| pause_waiting: "lifecycle WAITING EventUserPause PAUSED"
| stop: "\<not> Terminal st \<Longrightarrow> lifecycle st EventUserStop STOPPED"

inductive_cases lifecycle_from_terminal: "lifecycle SUCCEEDED ev st" "lifecycle FAILED ev st"
  "lifecycle STOPPED ev st"

inductive_simps lifecycle_to_running: "lifecycle st ev RUNNING"
inductive_simps lifecycle_to_waiting: "lifecycle st ev WAITING"

lemma lifecycle_not_terminal: "lifecycle st ev st' \<Longrightarrow> \<not> Terminal st"
  by (induction rule: lifecycle.induct) (simp_all add: Terminal_def)

text \<open>What no transition changes of a task; a session reference may be learned, never replaced.\<close>

definition same_identity :: "task \<Rightarrow> task \<Rightarrow> bool" where
  "same_identity t u \<longleftrightarrow> ID u = ID t \<and> Name u = Name t \<and> Provider u = Provider t \<and> Mode u = Mode t \<and>
     Cwd u = Cwd t \<and> SessionMode u = SessionMode t \<and> Prompt u = Prompt t \<and> Args u = Args t \<and>
     ConfigJSON u = ConfigJSON t \<and> DeadlineAt u = DeadlineAt t \<and> CreatedAt u = CreatedAt t \<and>
     (deref (SessionRef t) \<noteq> [] \<longrightarrow> SessionRef u = SessionRef t)"

definition forget_wait :: "task \<Rightarrow> task" where
  "forget_wait t = t\<lparr>CumulativeWaitMS := 0\<rparr>"

definition new_attempt :: "stmt list \<Rightarrow> task \<Rightarrow> bool" where
  "new_attempt xs t \<longleftrightarrow> (\<exists>a e. xs = [SAddAttempt a, SAppendEvent e] \<and> a_TaskID a = ID t \<and>
     a_AttemptNo a = TotalAttempts t + 1 \<and> a_EndedAt a = None)"

fun adds_attempt :: "stmt \<Rightarrow> bool" where
  "adds_attempt (SAddAttempt a) = True"
| "adds_attempt _ = False"

definition attempts_clause :: "stmt list \<Rightarrow> task \<Rightarrow> task \<Rightarrow> bool" where
  "attempts_clause xs t u \<longleftrightarrow>
     (if Status u = RUNNING then TotalAttempts u = TotalAttempts t + 1 \<and> CurrentAttempt u = TotalAttempts u \<and>
        new_attempt xs t
      else TotalAttempts u = TotalAttempts t \<and> CurrentAttempt u = CurrentAttempt t \<and> \<not> list_ex adds_attempt xs)"

text \<open>The summary of a handler that acts: either it reports an error and the database is untouched, or it
  commits one transaction that is a transition of the life cycle.\<close>

definition acted :: "event \<Rightarrow> task \<Rightarrow> db \<Rightarrow> go_error option \<Rightarrow> task \<Rightarrow> db \<Rightarrow> bool" where
  "acted ev t d r u d' \<longleftrightarrow>
     (case r of
        Some e \<Rightarrow> d' = d \<and> forget_wait u = forget_wait t
      | None \<Rightarrow> same_identity t u \<and> lifecycle (Status t) ev (Status u) \<and>
          (NextWakeAt u \<noteq> None \<longleftrightarrow> Status u = WAITING \<or> Status u = PAUSED \<and> NextWakeAt t \<noteq> None \<and>
              (\<exists>c so se. ev = EventAttemptExit c so se)) \<and>
          (\<exists>xs. quiet xs \<and> attempts_clause xs t u \<and> exec_stmts (xs @ [SUpdateTask u]) d = Inr d'))"

definition summary :: "event \<Rightarrow> supervisor \<Rightarrow> world \<Rightarrow> outcome \<Rightarrow> bool" where
  "summary ev s w out \<longleftrightarrow> (case out of (r, s', w') \<Rightarrow>
     r = None \<and> s' = s \<and> w_db w' = w_db w \<and> w_timers w' = w_timers w \<and> w_trace w' = w_trace w \<or>
     acted ev (s_task s) (w_db w) r (s_task s') (w_db w'))"

lemma acted_forget_wait: "forget_wait t = forget_wait t2 \<Longrightarrow> acted ev t d r u d' = acted ev t2 d r u d'"
proof -
  assume "forget_wait t = forget_wait t2"
  then obtain x where "t2 = t\<lparr>CumulativeWaitMS := x\<rparr>"
    by (metis (no_types, lifting) forget_wait_def task_rec.surjective task_rec.update_convs(17))
  then show ?thesis
    by (cases r) (simp_all add: acted_def forget_wait_def same_identity_def attempts_clause_def new_attempt_def)
qed

lemma forget_account_wait [simp]: "forget_wait (account_wait now since t) = forget_wait t"
  by (simp add: forget_wait_def account_wait_def)

lemma account_wait_sel [simp]: "ID (account_wait now since t) = ID t"
  "Status (account_wait now since t) = Status t" "SessionRef (account_wait now since t) = SessionRef t"
  "TotalAttempts (account_wait now since t) = TotalAttempts t" "NextWakeAt (account_wait now since t) = NextWakeAt t"
  by (simp_all add: account_wait_def)

lemma acted_persist:
  assumes "persist D nxt (exec_stmts xs) s w = (r, s', w')" and "w_db w = d"
    and "same_identity t nxt" and "lifecycle (Status t) ev (Status nxt)" and "quiet xs"
    and "attempts_clause xs t nxt" and "forget_wait (s_task s) = forget_wait t"
    and "NextWakeAt nxt \<noteq> None \<longleftrightarrow> Status nxt = WAITING \<or> Status nxt = PAUSED \<and> NextWakeAt t \<noteq> None \<and>
      (\<exists>c so se. ev = EventAttemptExit c so se)"
  shows "acted ev t d r (s_task s') (w_db w')"
  using assms(1)
proof (cases rule: persist_cases)
  case (failed e)
  then show ?thesis using assms by (simp add: acted_def)
next
  case committed
  then show ?thesis using assms by (auto simp: acted_def)
qed

section \<open>The handlers act as the life cycle allows\<close>

lemma clock_Now_sel [simp]:
  "w_db (snd (clock_Now D w)) = w_db w" "w_timers (snd (clock_Now D w)) = w_timers w"
  "w_trace (snd (clock_Now D w)) = w_trace w"
  by (simp_all add: clock_Now_def)

lemma clock_Now_eq: "clock_Now D w = (now, w') \<Longrightarrow> w_db w' = w_db w \<and> w_timers w' = w_timers w \<and> w_trace w' = w_trace w"
  by (auto simp: clock_Now_def)

lemma buildCommand_db: "buildCommand D s w = (c, b, w') \<Longrightarrow> w_db w' = w_db w \<and> w_timers w' = w_timers w \<and> w_trace w' = w_trace w"
  by (auto simp: buildCommand_def Let_def split: prod.splits if_splits)

lemma do_Spawn_db: "do_Spawn D n c w = (r, w') \<Longrightarrow> w_db w' = w_db w \<and> w_timers w' = w_timers w"
  by (auto simp: do_Spawn_def Let_def)

lemma do_Kill_db: "do_Kill D w = (r, w') \<Longrightarrow> w_db w' = w_db w \<and> w_timers w' = w_timers w"
  by (auto simp: do_Kill_def Let_def)

lemma NewString_db: "NewString D w = (u, w') \<Longrightarrow> w_db w' = w_db w \<and> w_timers w' = w_timers w \<and> w_trace w' = w_trace w"
  by (auto simp: NewString_def)

lemmas effect_db = clock_Now_eq buildCommand_db do_Spawn_db do_Kill_db NewString_db

lemma same_identity_refl [simp]: "same_identity t t"
  by (simp add: same_identity_def)

lemma same_identity_updates [simp]:
  "same_identity t (u\<lparr>Status := a\<rparr>) = same_identity t u" "same_identity t (u\<lparr>NextWakeAt := b\<rparr>) = same_identity t u"
  "same_identity t (u\<lparr>UpdatedAt := c\<rparr>) = same_identity t u" "same_identity t (u\<lparr>ExitReason := d\<rparr>) = same_identity t u"
  "same_identity t (u\<lparr>LastOutcome := e\<rparr>) = same_identity t u" "same_identity t (u\<lparr>LastResetAt := f\<rparr>) = same_identity t u"
  "same_identity t (u\<lparr>CurrentAttempt := g\<rparr>) = same_identity t u"
  "same_identity t (u\<lparr>TotalAttempts := h\<rparr>) = same_identity t u"
  "same_identity t (account_wait now since u) = same_identity t u"
  by (simp_all add: same_identity_def account_wait_def)

lemma adoptSessionRef_identity: "same_identity t u \<Longrightarrow> same_identity t (adoptSessionRef D s ev u)"
  by (auto simp: adoptSessionRef_def same_identity_def split: option.splits)

lemma adoptSessionRef_sel [simp]:
  "Status (adoptSessionRef D s ev u) = Status u" "TotalAttempts (adoptSessionRef D s ev u) = TotalAttempts u"
  "CurrentAttempt (adoptSessionRef D s ev u) = CurrentAttempt u" "NextWakeAt (adoptSessionRef D s ev u) = NextWakeAt u"
  "CumulativeWaitMS (adoptSessionRef D s ev u) = CumulativeWaitMS u" "ID (adoptSessionRef D s ev u) = ID u"
  by (simp_all add: adoptSessionRef_def split: option.splits)

lemma quiet_not_add [simp]: "\<not> list_ex adds_attempt (attempt_stmts s)"
  by (simp add: attempt_stmts_def split: option.splits)

lemma fail_task_acted:
  assumes "fail_task D reason s w = (r, s', w')" and "lifecycle (Status (s_task s)) ev FAILED"
  shows "acted ev (s_task s) (w_db w) r (s_task s') (w_db w')"
proof -
  obtain now w1 where n: "clock_Now D w = (now, w1)" by fastforce
  show ?thesis
    using assms unfolding fail_task_def n Let_def prod.case event_stmt_exec
    by (elim acted_persist) (simp_all add: clock_Now_eq [OF n] attempts_clause_def)
qed

text \<open>The ways out of \<open>spawnAttempt\<close>: no log files, a command or process that cannot be had, or a started
  child whose attempt row is persisted (and which is killed if that fails).\<close>

definition spawned_task :: "time \<Rightarrow> task \<Rightarrow> task" where
  "spawned_task now t = t\<lparr>Status := RUNNING, CurrentAttempt := TotalAttempts t + 1,
     TotalAttempts := TotalAttempts t + 1, NextWakeAt := None, UpdatedAt := now\<rparr>"

lemma spawnAttempt_cases:
  assumes "spawnAttempt D cause s w = (r, s', w')"
  obtains (no_files) e where "r = Some e" "s' = s" "w_db w' = w_db w" "w_trace w' = w_trace w"
      "w_timers w' = w_timers w"
    | (infra) reason w1 where "fail_task D reason s w1 = (r, s', w')" "w_db w1 = w_db w"
        "w_timers w1 = w_timers w"
    | (spawned) now a e argv pid w1 s5 w5 where
        "persist D (spawned_task now (s_task s)) (exec_stmts [SAddAttempt a, SAppendEvent e]) s w1 = (r, s5, w5)"
        "w_db w1 = w_db w" "w_timers w1 = w_timers w" "w_timers w' = w_timers w5"
        "w_trace w1 = w_trace w @ [Spawned (TotalAttempts (s_task s) + 1) argv (Inr pid)]"
        "a_TaskID a = ID (s_task s)" "a_AttemptNo a = TotalAttempts (s_task s) + 1" "a_EndedAt a = None"
        "s_task s' = s_task s5" "w_db w' = w_db w5" "r = None \<Longrightarrow> s_currentAttempt s' = Some a \<and> w' = w5"
        "s_waitingSince s' = s_waitingSince s5"
proof -
  define t where "t = s_task s"
  define n where "n = TotalAttempts t + 1"
  obtain now w1 where c1: "clock_Now D w = (now, w1)" by fastforce
  obtain cmd res w2 where c2: "buildCommand D s w1 = (cmd, res, w2)" by (metis prod_cases3)
  note db = clock_Now_eq [OF c1] buildCommand_db [OF c2]
  note sp = assms(1) [unfolded spawnAttempt_def c1 c2 Let_def prod.case, folded t_def, folded n_def]
  show thesis
  proof (cases "d_files D (ID t) n")
    case (Inl e)
    then show thesis using sp db by (intro no_files) auto
  next
    case files: (Inr f)
    obtain so se where f: "f = (so, se)" by fastforce
    show thesis
    proof (cases cmd)
      case (Inl e)
      then have "fail_task D (''build command: '' @ err_text e) s w2 = (r, s', w')"
        using sp files f by simp
      then show thesis by (rule infra) (use db in simp_all)
    next
      case cmd: (Inr c)
      obtain pr w3 where c3: "do_Spawn D n c w2 = (pr, w3)" by fastforce
      show thesis
      proof (cases pr)
        case (Inl e)
        then have "fail_task D (''spawn attempt '' @ Itoa n @ '': '' @ err_text e) s w3 = (r, s', w')"
          using sp files f cmd c3 by simp
        then show thesis by (rule infra) (use db do_Spawn_db [OF c3] in simp_all)
      next
        case (Inr pid)
        obtain uid w4 where c4: "NewString D w3 = (uid, w4)" by fastforce
        define a where "a = \<lparr>a_ID = uid, a_TaskID = ID t, a_AttemptNo = n, a_PID = Some pid, a_StartedAt = now,
          a_EndedAt = None, a_ExitCode = None, a_Outcome = None, a_ResetAt = None,
          a_MatchedRule = None, a_StdoutPath = so, a_StderrPath = se\<rparr>"
        define ev where "ev = \<lparr>e_ID = 0, e_TaskID = ID t, e_TS = now,
          e_Type = ''attempt_start'', e_Detail = d_json D [(''attempt'', JInt n), (''cause'', JStr cause),
          (''resumed'', JBool res), (''pid'', JInt pid)]\<rparr>"
        obtain err s5 w5 where p: "persist D (spawned_task now t) (exec_stmts [SAddAttempt a, SAppendEvent ev]) s w4
            = (err, s5, w5)" by (metis prod_cases3)
        have out: "(case err of Some e \<Rightarrow> (Some e, s5, snd (do_Kill D w5))
            | None \<Rightarrow> (None, s5\<lparr>s_currentAttempt := Some a\<rparr>, w5)) = (r, s', w')"
          using sp p unfolding a_def ev_def spawned_task_def n_def
          by (simp add: files [unfolded n_def] f cmd c3 [unfolded n_def] Inr c4 tx_exec)
        have tr: "w_trace w4 = w_trace w @ [Spawned n (Argv c) (Inr pid)]"
          using db NewString_db [OF c4] c3 Inr by (auto simp: do_Spawn_def Let_def)
        have re: "r = err" using out by (cases err) auto
        show thesis
          by (rule spawned [of now a ev w4 s5 w5 "Argv c" pid])
            (use p out tr re db do_Spawn_db [OF c3] NewString_db [OF c4] in
              \<open>auto simp: a_def t_def n_def do_Kill_def Let_def split: option.splits\<close>)
      qed
    qed
  qed
qed

lemma spawned_task_sel [simp]: "Status (spawned_task now t) = RUNNING" "NextWakeAt (spawned_task now t) = None"
  "TotalAttempts (spawned_task now t) = TotalAttempts t + 1" "CurrentAttempt (spawned_task now t) = TotalAttempts t + 1"
  "same_identity u (spawned_task now t) = same_identity u t"
  by (simp_all add: spawned_task_def)

lemma spawnAttempt_acted:
  assumes "spawnAttempt D cause s w = (r, s', w')"
    and "lifecycle (Status (s_task s)) ev FAILED" and "lifecycle (Status (s_task s)) ev RUNNING"
  shows "acted ev (s_task s) (w_db w) r (s_task s') (w_db w')"
  using assms(1)
proof (cases rule: spawnAttempt_cases)
  case (no_files e)
  then show ?thesis by (simp add: acted_def)
next
  case (infra reason w1)
  from fail_task_acted [OF infra(1) assms(2)] show ?thesis using infra by simp
next
  case (spawned now a e argv pid w1 s5 w5)
  have "acted ev (s_task s) (w_db w1) r (s_task s5) (w_db w5)"
    using assms(3) spawned by (intro acted_persist [OF spawned(1)])
      (simp_all add: attempts_clause_def new_attempt_def)
  then show ?thesis using spawned by simp
qed

lemma wake_acted:
  assumes "wake D ev s w = (r, s', w')"
    and "lifecycle (Status (s_task s)) ev FAILED" and "lifecycle (Status (s_task s)) ev RUNNING"
  shows "acted ev (s_task s) (w_db w) r (s_task s') (w_db w')"
proof -
  define w1 where "w1 = w\<lparr>w_timers := timers_Cancel (ID (s_task s)) (w_timers w)\<rparr>"
  define s1 where "s1 = stopProber s"
  obtain s2 w2 where sw: "(case s_waitingSince s1 of
      Some since \<Rightarrow> if Status (s_task s1) = WAITING
        then (let (now, w') = clock_Now D w1 in
          (s1\<lparr>s_task := account_wait now since (s_task s1), s_waitingSince := None\<rparr>, w'))
        else (s1, w1)
    | None \<Rightarrow> (s1, w1)) = (s2, w2)" by fastforce
  have s2: "forget_wait (s_task s2) = forget_wait (s_task s)" "Status (s_task s2) = Status (s_task s)"
    "w_db w2 = w_db w"
    using sw by (auto simp: s1_def w1_def stopProber_def clock_Now_def split: option.splits if_splits)
  have "spawnAttempt D (wake_cause ev) s2 w2 = (r, s', w')"
    using assms(1) sw unfolding wake_def Let_def s1_def [symmetric] w1_def [symmetric] by simp
  then have "acted ev (s_task s2) (w_db w2) r (s_task s') (w_db w')"
    using spawnAttempt_acted assms s2(2) by metis
  then show ?thesis using acted_forget_wait [OF s2(1)] s2(3) by simp
qed

lemma finish_acted:
  assumes "finish D nxt st reason res s w = (r, s', w')" and "same_identity t nxt"
    and "lifecycle (Status t) ev st" and "st \<in> {SUCCEEDED, FAILED}"
    and "TotalAttempts nxt = TotalAttempts t" and "CurrentAttempt nxt = CurrentAttempt t"
    and "forget_wait (s_task s) = forget_wait t"
  shows "acted ev t (w_db w) r (s_task s') (w_db w')"
  using assms unfolding finish_def Let_def tx_exec
  by (elim acted_persist) (auto simp: attempts_clause_def)

lemma closeAttempt_sel [simp]: "s_task (closeAttempt ev r now s) = s_task s"
  "s_policy (closeAttempt ev r now s) = s_policy s"
  by (simp_all add: closeAttempt_def split: option.splits)

text \<open>The task an exit is recorded on: both exit handlers start from it.\<close>

definition exit_task :: "deps \<Rightarrow> supervisor \<Rightarrow> event \<Rightarrow> detect_result \<Rightarrow> time \<Rightarrow> task" where
  "exit_task D s ev r now = adoptSessionRef D s ev ((s_task s)\<lparr>UpdatedAt := now,
     LastOutcome := Some (res_Category r), LastResetAt := res_ResetAt r\<rparr>)"

lemma exit_task_sel [simp]:
  "Status (exit_task D s ev r now) = Status (s_task s)"
  "TotalAttempts (exit_task D s ev r now) = TotalAttempts (s_task s)"
  "CurrentAttempt (exit_task D s ev r now) = CurrentAttempt (s_task s)"
  "NextWakeAt (exit_task D s ev r now) = NextWakeAt (s_task s)"
  "CumulativeWaitMS (exit_task D s ev r now) = CumulativeWaitMS (s_task s)"
  "ID (exit_task D s ev r now) = ID (s_task s)"
  "same_identity (s_task s) (exit_task D s ev r now)"
  by (simp_all add: exit_task_def adoptSessionRef_identity)

lemma recordPausedExit_acted:
  assumes "recordPausedExit D (EventAttemptExit c so se) s w = (r, s', w')" and "Status (s_task s) = PAUSED"
  shows "acted (EventAttemptExit c so se) (s_task s) (w_db w) r (s_task s') (w_db w')"
proof -
  let ?ev = "EventAttemptExit c so se"
  obtain now w1 where n: "clock_Now D w = (now, w1)" by fastforce
  define res where "res = classify D s ?ev now"
  define s1 where "s1 = closeAttempt ?ev res now s"
  have s1: "s_task s1 = s_task s" by (simp add: s1_def)
  show ?thesis
    using assms unfolding recordPausedExit_def n Let_def prod.case res_def [symmetric] s1_def [symmetric]
      exit_task_def [symmetric] tx_exec
    by (elim acted_persist)
      (auto simp: clock_Now_eq [OF n] s1 attempts_clause_def lifecycle.simps
        simp flip: s1 intro: exit_task_sel(7))
qed

lemma attemptExit_acted:
  assumes "attemptExit D (EventAttemptExit c so se) s w = (r, s', w')" and "Status (s_task s) = RUNNING"
  shows "acted (EventAttemptExit c so se) (s_task s) (w_db w) r (s_task s') (w_db w')"
proof -
  let ?ev = "EventAttemptExit c so se"
  obtain now w1 where n: "clock_Now D w = (now, w1)" by fastforce
  define res where "res = classify D s ?ev now"
  define s1 where "s1 = closeAttempt ?ev res now s"
  define nxt where "nxt = exit_task D s1 ?ev res now"
  have s1: "s_task s1 = s_task s" by (simp add: s1_def)
  have nxt: "same_identity (s_task s) nxt" "TotalAttempts nxt = TotalAttempts (s_task s)"
    "CurrentAttempt nxt = CurrentAttempt (s_task s)"
    using exit_task_sel(7) [where s = s1 and D = D and ev = ?ev and r = res and now = now]
    by (simp_all add: nxt_def s1)
  note fin = finish_acted [OF _ nxt(1) _ _ nxt(2,3), of D _ _ res s1 _ r s' w' ?ev]
  note body = assms(1) [unfolded attemptExit_def n Let_def prod.case, folded res_def, folded s1_def,
      folded exit_task_def, folded nxt_def]
  have lc: "lifecycle (Status (s_task s)) ?ev SUCCEEDED" "lifecycle (Status (s_task s)) ?ev FAILED"
    "lifecycle (Status (s_task s)) ?ev WAITING"
    using assms(2) by (auto simp: lifecycle.simps)
  obtain nw k where nw: "NextWake (Scheduler_policy (s_policy s1)) (TotalAttempts nxt) (res_ResetAt res) now
      (d_rng D) (w_rng w1) = (nw, k)" by fastforce
  consider st reason wx where "finish D nxt st reason res s1 wx = (r, s', w')" "st \<in> {SUCCEEDED, FAILED}"
      "w_db wx = w_db w"
    | (waiting) err s2 w2 xs where "persist D (nxt\<lparr>Status := WAITING, NextWakeAt := Some nw\<rparr>) (exec_stmts xs) s1
        (w1\<lparr>w_rng := k\<rparr>) = (err, s2, w2)" "quiet xs" "\<not> list_ex adds_attempt xs"
      "err = r" "s_task s' = s_task s2" "w_db w' = w_db w2"
  proof (cases "res_Category res = CategorySuccess")
    case True
    then show thesis using that(1) [of SUCCEEDED] body clock_Now_eq [OF n] by auto
  next
    case ns: False
    show thesis
    proof (cases "res_Category res = CategoryFatalError \<or>
        res_Category res = CategoryUnknown \<and> OnUnknown (s_policy s1) = ''fail''")
      case True
      then show thesis using that(1) [of FAILED] body ns clock_Now_eq [OF n] by (auto split: if_splits)
    next
      case nf: False
      show thesis
      proof (cases "ExceededCap (Scheduler_policy (s_policy s1)) (TotalAttempts nxt) now
          (i64 (CumulativeWaitMS nxt * Millisecond)) (time_Sub nw now) = CapNone")
        case False
        then show thesis using that(1) [of FAILED] body ns nf nw clock_Now_eq [OF n] by auto
      next
        case True
        define xs where "xs = attempt_stmts s1 @ [SAppendEvent \<lparr>e_ID = 0, e_TaskID = ID (s_task s1), e_TS = now,
            e_Type = ''attempt_exit'', e_Detail = exitDetail D ?ev res\<rparr>] @
          [SAppendEvent \<lparr>e_ID = 0, e_TaskID = ID (s_task s1), e_TS = now, e_Type = ''scheduled'',
            e_Detail = d_json D [(''next_wake_at'', JStr (format_RFC3339Nano nw))]\<rparr>]"
        obtain err s2 w2 where p: "persist D (nxt\<lparr>Status := WAITING, NextWakeAt := Some nw\<rparr>) (exec_stmts xs) s1
          (w1\<lparr>w_rng := k\<rparr>) = (err, s2, w2)" by (metis prod_cases3)
        have "err = r \<and> s_task s' = s_task s2 \<and> w_db w' = w_db w2"
          using body [unfolded tx_exec] p ns nf True nw unfolding xs_def
          by (cases err) (auto simp: clock_Now_def startProber_def split: if_splits)
        then show thesis using that(2) [OF p] by (simp add: xs_def)
      qed
    qed
  qed
  then show ?thesis
  proof cases
    case 1
    then show ?thesis using fin [OF 1(1)] lc s1 by auto
  next
    case waiting
    then have "acted ?ev (s_task s) (w_db w) err (s_task s2) (w_db w2)"
      using lc nxt s1 clock_Now_eq [OF n] by (intro acted_persist [OF waiting(1)]) (auto simp: attempts_clause_def)
    then show ?thesis using waiting by simp
  qed
qed

lemma pause_acted:
  assumes "pause D s w = (r, s', w')" and "lifecycle (Status (s_task s)) EventUserPause PAUSED"
  shows "acted EventUserPause (s_task s) (w_db w) r (s_task s') (w_db w')"
proof -
  obtain now w1 where n: "clock_Now D w = (now, w1)" by fastforce
  define s1 where "s1 = stopProber s"
  have s1: "s_task s1 = s_task s" by (simp add: s1_def stopProber_def)
  obtain nxt0 s2 where sw: "(case s_waitingSince s1 of
      Some since \<Rightarrow> if Status (s_task s1) = WAITING
        then (account_wait now since (s_task s1), s1\<lparr>s_waitingSince := None\<rparr>) else (s_task s1, s1)
    | None \<Rightarrow> (s_task s1, s1)) = (nxt0, s2)" by fastforce
  then have "(nxt0 = s_task s \<or> (\<exists>since. nxt0 = account_wait now since (s_task s))) \<and> s_task s2 = s_task s"
    using s1 by (auto split: option.splits if_splits)
  then have nx: "same_identity (s_task s) nxt0" "TotalAttempts nxt0 = TotalAttempts (s_task s)"
    "CurrentAttempt nxt0 = CurrentAttempt (s_task s)" "s_task s2 = s_task s"
    by (auto simp: account_wait_def same_identity_def)
  show ?thesis
    using assms sw unfolding pause_def n Let_def prod.case tx_exec s1_def [symmetric] prod.case
    by (simp only: prod.case, elim acted_persist)
      (auto simp: nx attempts_clause_def clock_Now_eq [OF n])
qed

lemma stop_acted:
  assumes "stop D s w = (r, s', w')" and "\<not> Terminal (Status (s_task s))"
  shows "acted EventUserStop (s_task s) (w_db w) r (s_task s') (w_db w')"
proof -
  obtain now w1 where n: "clock_Now D w = (now, w1)" by fastforce
  define w2 where "w2 = w1\<lparr>w_timers := timers_Cancel (ID (s_task s)) (w_timers w1)\<rparr>"
  obtain ke w3 where k: "(if Status (s_task s) = RUNNING \<or> Status (s_task s) = PAUSED then do_Kill D w2
      else (None, w2)) = (ke, w3)" by fastforce
  have db: "w_db w3 = w_db w"
    using k clock_Now_eq [OF n] by (auto simp: w2_def do_Kill_def Let_def split: if_splits)
  have lc: "lifecycle (Status (s_task s)) EventUserStop STOPPED" using assms(2) by (rule lifecycle.stop)
  have s1: "s_task (stopProber s) = s_task s" by (simp add: stopProber_def)
  note body = assms(1) [unfolded stop_def n Let_def prod.case s1, folded w2_def, unfolded k prod.case tx_exec]
  show ?thesis
  proof (cases ke)
    case None
    then show ?thesis
      using body lc by (simp only: option.case, elim acted_persist) (auto simp: s1 db attempts_clause_def)
  next
    case (Some e)
    then have "s' = stopProber s" "w' = w3" "r \<noteq> None" using body by auto
    then show ?thesis by (auto simp: acted_def s1 db)
  qed
qed

lemma Handle_summary: "summary ev s w (Handle D ev s w)"
proof -
  obtain r s' w' where h: "Handle D ev s w = (r, s', w')" by (metis prod_cases3)
  have act: "acted ev (s_task s) (w_db w) r (s_task s') (w_db w') \<Longrightarrow> ?thesis"
    by (simp add: summary_def h)
  have ign: "Handle D ev s w = (None, s, w) \<Longrightarrow> ?thesis"
    by (simp add: summary_def)
  let ?st = "Status (s_task s)"
  show ?thesis
  proof (cases ev)
    case EventStart
    then show ?thesis
    proof (cases "?st = PENDING")
      case True
      then show ?thesis using h EventStart lifecycle.start lifecycle.start_fails
        by (intro act) (auto simp: Handle_def intro!: spawnAttempt_acted)
    qed (intro ign, simp add: Handle_def EventStart)
  next
    case EventTimerFire
    then show ?thesis
    proof (cases "?st = WAITING")
      case True
      have lc: "lifecycle ?st ev FAILED" "lifecycle ?st ev RUNNING"
        using True EventTimerFire by (auto simp: lifecycle.simps)
      show ?thesis
      proof (cases "NextWakeAt (s_task s)")
        case None
        then show ?thesis using h True EventTimerFire lc
          by (intro act) (auto simp: Handle_def intro!: wake_acted)
      next
        case (Some nw)
        obtain now w1 where n: "clock_Now D w = (now, w1)" by fastforce
        show ?thesis
        proof (cases "now < nw")
          case True': True
          then have "(r, s', w') = (None, s, w1)"
            using h True EventTimerFire Some n by (simp add: Handle_def)
          then show ?thesis using clock_Now_eq [OF n] by (simp add: summary_def h)
        next
          case False
          then have "wake D ev s w1 = (r, s', w')"
            using h True EventTimerFire Some n by (simp add: Handle_def)
          from wake_acted [OF this lc] show ?thesis using clock_Now_eq [OF n] by (intro act) simp
        qed
      qed
    qed (intro ign, simp add: Handle_def EventTimerFire)
  next
    case (EventAttemptExit c so se)
    consider "?st = RUNNING" | "?st = PAUSED" | "?st \<noteq> RUNNING" "?st \<noteq> PAUSED" by blast
    then show ?thesis
    proof cases
      case 1
      then show ?thesis using h EventAttemptExit attemptExit_acted [of D c so se s w r s' w']
        by (intro act) (simp add: Handle_def)
    next
      case 2
      then show ?thesis using h EventAttemptExit recordPausedExit_acted [of D c so se s w r s' w']
        by (intro act) (simp add: Handle_def)
    qed (intro ign, simp add: Handle_def EventAttemptExit)
  next
    case EventUserPause
    then show ?thesis
    proof (cases "?st = RUNNING \<or> ?st = WAITING")
      case True
      then show ?thesis using h EventUserPause pause_acted [of D s w r s' w']
        by (intro act) (auto simp: Handle_def lifecycle.simps)
    qed (intro ign, simp add: Handle_def EventUserPause)
  next
    case EventUserResume
    then show ?thesis
    proof (cases "?st = PAUSED \<or> ?st = WAITING")
      case True
      then have "lifecycle ?st ev FAILED" "lifecycle ?st ev RUNNING"
        using EventUserResume by (auto simp: lifecycle.simps)
      then show ?thesis using h EventUserResume True
        by (intro act) (auto simp: Handle_def intro!: wake_acted)
    qed (intro ign, simp add: Handle_def EventUserResume)
  next
    case EventUserStop
    then show ?thesis
    proof (cases "Terminal ?st")
      case False
      then show ?thesis using h EventUserStop stop_acted [of D s w r s' w']
        by (intro act) (auto simp: Handle_def)
    qed (intro ign, simp add: Handle_def EventUserStop)
  next
    case EventAvailabilityOK
    then show ?thesis
    proof (cases "?st = WAITING")
      case True
      then have "lifecycle ?st ev FAILED" "lifecycle ?st ev RUNNING"
        using EventAvailabilityOK by (auto simp: lifecycle.simps)
      then show ?thesis using h EventAvailabilityOK True
        by (intro act) (auto simp: Handle_def intro!: wake_acted)
    qed (intro ign, simp add: Handle_def EventAvailabilityOK)
  qed
qed

section \<open>Memory and database\<close>

text \<open>The supervisor's task is the row of the database, and the attempts of the task are numbered from 1
  to its total, each once.\<close>

definition attempt_nos :: "string \<Rightarrow> db \<Rightarrow> int list" where
  "attempt_nos i d = map a_AttemptNo (filter (\<lambda>r. a_TaskID r = i) (db_attempts d))"

definition sup_inv :: "task \<Rightarrow> db \<Rightarrow> bool" where
  "sup_inv t d \<longleftrightarrow> db_ok d \<and> task_row (ID t) d = Some (row_of_task t) \<and> 0 \<le> TotalAttempts t \<and>
     attempt_nos (ID t) d = [1..TotalAttempts t]"

lemma quiet_task_row:
  "exec_stmts xs d = Inr d' \<Longrightarrow> quiet xs \<Longrightarrow> task_row i d' = task_row i d"
proof (induction xs arbitrary: d)
  case (Cons x xs)
  then obtain d1 where d1: "exec_stmt x d = Inr d1" "exec_stmts xs d1 = Inr d'"
    by (auto simp: exec_stmts.simps(2) split: sum.splits)
  have "task_row i d1 = task_row i d"
    using d1(1) Cons.prems(2) by (cases x) (auto simp: drop_id_def task_row_other split: sum.splits)
  then show ?case using Cons.IH [OF d1(2)] Cons.prems(2) by simp
qed simp

fun stmt_attempt_nos :: "string \<Rightarrow> stmt \<Rightarrow> int list" where
  "stmt_attempt_nos i (SAddAttempt a) = (if a_TaskID a = i then [a_AttemptNo a] else [])"
| "stmt_attempt_nos i _ = []"

lemma attempt_nos_keys: "attempt_nos i d = map (snd \<circ> snd) (filter (\<lambda>k. fst (snd k) = i) (attempt_keys d))"
  by (simp add: attempt_nos_def attempt_keys_def filter_map comp_def)

lemma attempt_nos_exec_stmt:
  assumes "exec_stmt x d = Inr d'" and "quiet_stmt x"
  shows "attempt_nos i d' = attempt_nos i d @ stmt_attempt_nos i x"
proof (cases x)
  case (SUpdateAttempt a)
  then show ?thesis using assms Tx_UpdateAttempt_keys [of a d d'] by (simp add: attempt_nos_keys)
qed (use assms in \<open>auto simp: Tx_AddAttempt_Inr attempt_nos_def Tx_AppendEvent_def drop_id_def Let_def
    split: if_splits sum.splits\<close>)

lemma attempt_nos_exec_stmts:
  "exec_stmts xs d = Inr d' \<Longrightarrow> quiet xs \<Longrightarrow>
     attempt_nos i d' = attempt_nos i d @ concat (map (stmt_attempt_nos i) xs)"
proof (induction xs arbitrary: d)
  case (Cons x xs)
  then obtain d1 where d1: "exec_stmt x d = Inr d1" "exec_stmts xs d1 = Inr d'"
    by (auto simp: exec_stmts.simps(2) split: sum.splits)
  then show ?case using Cons attempt_nos_exec_stmt [OF d1(1)] by simp
qed simp

lemma no_adds_no_numbers: "\<not> list_ex adds_attempt xs \<Longrightarrow> concat (map (stmt_attempt_nos i) xs) = []"
proof (induction xs)
  case (Cons x xs)
  then show ?case by (cases x) auto
qed simp

lemma attempt_nos_UpdateTask: "Tx_UpdateTask t d = Inr d' \<Longrightarrow> attempt_nos i d' = attempt_nos i d"
  using Tx_UpdateTask_keys [of t d d'] by (auto simp: attempt_nos_def Tx_UpdateTask_def split: if_splits)

lemma row_CreatedAt: "CreatedAt (row_of_task t) = timeToDB (CreatedAt t)"
  by (simp add: row_of_task_def)

lemma row_of_task_CreatedAt [simp]: "(row_of_task t)\<lparr>CreatedAt := timeToDB (CreatedAt t)\<rparr> = row_of_task t"
  by (simp add: row_of_task_def)

text \<open>A transaction of a task: statements about attempts and events, then the task's row.\<close>

definition task_tx :: "stmt list \<Rightarrow> task \<Rightarrow> task \<Rightarrow> db \<Rightarrow> db \<Rightarrow> bool" where
  "task_tx xs t u d d' \<longleftrightarrow> quiet xs \<and> attempts_clause xs t u \<and> exec_stmts (xs @ [SUpdateTask u]) d = Inr d' \<and>
     ID u = ID t \<and> CreatedAt u = CreatedAt t"

lemma acted_task_tx: "acted ev t d None u d' \<Longrightarrow> \<exists>xs. task_tx xs t u d d'"
  by (auto simp: acted_def task_tx_def same_identity_def)

lemma task_tx_inv:
  assumes "task_tx xs t u d d'" and "sup_inv t d"
  shows "sup_inv u d'"
proof -
  from assms(1) have xs: "quiet xs" "attempts_clause xs t u" "exec_stmts (xs @ [SUpdateTask u]) d = Inr d'"
    and id: "ID u = ID t" "CreatedAt u = CreatedAt t" by (auto simp: task_tx_def)
  then obtain d1 where d1: "exec_stmts xs d = Inr d1" "Tx_UpdateTask u d1 = Inr d'"
    by (auto simp: exec_stmts_append split: sum.splits)
  have "task_row (ID t) d1 = Some (row_of_task t)"
    using quiet_task_row [OF d1(1) xs(1)] assms(2) by (simp add: sup_inv_def)
  then have row: "task_row (ID u) d' = Some (row_of_task u)"
    using task_row_UpdateTask [OF d1(2)] id by (simp add: row_CreatedAt flip: id(2))
  have nos: "attempt_nos (ID t) d' = [1..TotalAttempts t] @ concat (map (stmt_attempt_nos (ID t)) xs)"
    using attempt_nos_UpdateTask [OF d1(2)] attempt_nos_exec_stmts [OF d1(1) xs(1)] assms(2)
    by (simp add: sup_inv_def)
  have "attempt_nos (ID u) d' = [1..TotalAttempts u] \<and> 0 \<le> TotalAttempts u"
  proof (cases "Status u = RUNNING")
    case True
    then have "new_attempt xs t" "TotalAttempts u = TotalAttempts t + 1"
      using xs(2) by (simp_all add: attempts_clause_def)
    then show ?thesis
      using nos id assms(2) by (auto simp: new_attempt_def sup_inv_def upto_rec2)
  next
    case False
    then show ?thesis
      using nos id assms(2) xs(2) no_adds_no_numbers [of xs "ID t"]
      by (simp add: attempts_clause_def sup_inv_def del: concat_eq_Nil_conv)
  qed
  moreover have "db_ok d'" using db_ok_exec_stmts [OF xs(3)] assms(2) by (simp add: sup_inv_def)
  ultimately show ?thesis using row by (simp add: sup_inv_def)
qed

lemma acted_inv: "acted ev t d None u d' \<Longrightarrow> sup_inv t d \<Longrightarrow> sup_inv u d'"
  using acted_task_tx task_tx_inv by blast

text \<open>It leaves every other task alone.\<close>

lemma task_tx_frame:
  assumes "task_tx xs t u d d'" and "j \<noteq> ID t"
  shows "task_row j d' = task_row j d" "attempt_nos j d' = attempt_nos j d"
proof -
  from assms(1) have xs: "quiet xs" "attempts_clause xs t u" "exec_stmts (xs @ [SUpdateTask u]) d = Inr d'"
    and id: "ID u = ID t" by (auto simp: task_tx_def)
  then obtain d1 where d1: "exec_stmts xs d = Inr d1" "Tx_UpdateTask u d1 = Inr d'"
    by (auto simp: exec_stmts_append split: sum.splits)
  show "task_row j d' = task_row j d"
    using quiet_task_row [OF d1(1) xs(1), of j] task_row_UpdateTask [OF d1(2), of j] assms(2) id by simp
  have "concat (map (stmt_attempt_nos j) xs) = []"
    using xs(2) assms(2) no_adds_no_numbers [of xs j] unfolding attempts_clause_def new_attempt_def
    by (cases "Status u = RUNNING") auto
  then show "attempt_nos j d' = attempt_nos j d"
    using attempt_nos_UpdateTask [OF d1(2), of j] attempt_nos_exec_stmts [OF d1(1) xs(1), of j] by simp
qed

lemma Handle_inv:
  assumes "Handle D ev s w = (None, s', w')" and "sup_inv (s_task s) (w_db w)"
  shows "sup_inv (s_task s') (w_db w')"
  using Handle_summary [of ev s w D] assms acted_inv by (auto simp: summary_def)

lemma Handle_error:
  assumes "Handle D ev s w = (Some e, s', w')"
  shows "w_db w' = w_db w \<and> forget_wait (s_task s') = forget_wait (s_task s)"
  using Handle_summary [of ev s w D] assms by (auto simp: summary_def acted_def)

lemma Handle_transition:
  assumes "Handle D ev s w = (None, s', w')"
  shows "s' = s \<and> w_db w' = w_db w \<and> w_trace w' = w_trace w \<or>
    lifecycle (Status (s_task s)) ev (Status (s_task s')) \<and> same_identity (s_task s) (s_task s') \<and>
    TotalAttempts (s_task s') = TotalAttempts (s_task s) + (if Status (s_task s') = RUNNING then 1 else 0)"
  using Handle_summary [of ev s w D] assms by (auto simp: summary_def acted_def attempts_clause_def)

lemma Handle_terminal: "Terminal (Status (s_task s)) \<Longrightarrow> Handle D ev s w = (None, s, w)"
  by (cases ev) (auto simp: Handle_def Terminal_def Let_def)

lemma Run_inv:
  assumes "Run D evs s w = (r, s', w')" and "sup_inv (s_task s) (w_db w)"
  shows "\<exists>t. sup_inv t (w_db w') \<and> forget_wait t = forget_wait (s_task s') \<and> (r = None \<longrightarrow> t = s_task s')"
  using assms
proof (induction evs arbitrary: s w)
  case Nil
  then show ?case by auto
next
  case (Cons ev evs)
  show ?case
  proof (cases "Terminal (Status (s_task s))")
    case True
    then show ?thesis using Cons.prems by auto
  next
    case False
    obtain r1 s1 w1 where h: "Handle D ev s w = (r1, s1, w1)" by (metis prod_cases3)
    show ?thesis
    proof (cases r1)
      case None
      then have "Run D evs s1 w1 = (r, s', w')" using Cons.prems(1) False h by simp
      then show ?thesis using Cons.IH Handle_inv h None Cons.prems(2) by blast
    next
      case (Some e)
      then have "s' = s1 \<and> w' = w1 \<and> r = Some e" using Cons.prems(1) False h by simp
      then show ?thesis
        using Handle_error [of D ev s w e s1 w1] h Some Cons.prems(2)
        by (intro exI [of _ "s_task s"]) simp
    qed
  qed
qed

lemma Run_append:
  "Run D (xs @ ys) s w = (case Run D xs s w of (Some e, s', w') \<Rightarrow> (Some e, s', w')
     | (None, s', w') \<Rightarrow> Run D ys s' w')"
proof (induction xs arbitrary: s w)
  case (Cons x xs)
  show ?case
  proof (cases "Terminal (Status (s_task s))")
    case True
    have "Run D ys s w = (None, s, w)" using True by (cases ys) simp_all
    then show ?thesis using True by simp
  next
    case False
    then show ?thesis using Cons.IH by (cases "Handle D x s w") (auto split: option.splits)
  qed
qed simp

section \<open>Waiting\<close>

lemma fail_task_not_waiting:
  "fail_task D reason s w = (r, s', w') \<Longrightarrow> r = None \<Longrightarrow> Status (s_task s') = FAILED"
  unfolding fail_task_def Let_def event_stmt_exec
  by (auto split: prod.splits elim!: persist_cases)

lemma finish_not_waiting:
  "finish D nxt st reason res s w = (None, s', w') \<Longrightarrow> Status (s_task s') = st"
  unfolding finish_def Let_def tx_exec by (auto elim!: persist_cases)

text \<open>What it takes to enter WAITING: the wake time of the policy, no exceeded cap, an armed timer.\<close>

lemma attemptExit_waiting:
  assumes "attemptExit D ev s w = (None, s', w')" and "Status (s_task s') = WAITING"
  defines "now \<equiv> d_clock D (w_step w)" and "sp \<equiv> Scheduler_policy (s_policy s)"
  shows "\<exists>nw k. NextWake sp (TotalAttempts (s_task s)) (res_ResetAt (classify D s ev now)) now (d_rng D) (w_rng w) = (nw, k) \<and>
    NextWakeAt (s_task s') = Some nw \<and> s_waitingSince s' = Some now \<and>
    CumulativeWaitMS (s_task s') = CumulativeWaitMS (s_task s) \<and> TotalAttempts (s_task s') = TotalAttempts (s_task s) \<and>
    ExceededCap sp (TotalAttempts (s_task s)) now (i64 (CumulativeWaitMS (s_task s) * Millisecond)) (time_Sub nw now) = CapNone \<and>
    timers_Armed (w_timers w') (ID (s_task s)) \<and>
    res_Category (classify D s ev now) \<notin> {CategorySuccess, CategoryFatalError}"
proof -
  obtain w1 where n: "clock_Now D w = (now, w1)" "w_rng w1 = w_rng w" by (simp add: clock_Now_def now_def)
  define res where "res = classify D s ev now"
  define s1 where "s1 = closeAttempt ev res now s"
  define nxt where "nxt = exit_task D s1 ev res now"
  have s1: "s_task s1 = s_task s" "s_policy s1 = s_policy s" by (simp_all add: s1_def)
  obtain nw k where nw: "NextWake sp (TotalAttempts nxt) (res_ResetAt res) now (d_rng D) (w_rng w1) = (nw, k)"
    by fastforce
  note body = assms(1) [unfolded attemptExit_def n(1) Let_def prod.case, folded res_def, folded s1_def,
      folded exit_task_def, folded nxt_def, unfolded s1(2), folded sp_def]
  have c1: "res_Category res \<noteq> CategorySuccess"
    using body finish_not_waiting assms(2) by (auto split: if_splits)
  have c2: "\<not> (res_Category res = CategoryFatalError \<or> res_Category res = CategoryUnknown \<and> OnUnknown (s_policy s) = ''fail'')"
    using body finish_not_waiting assms(2) c1 by (auto split: if_splits)
  have c3: "ExceededCap sp (TotalAttempts nxt) now (i64 (CumulativeWaitMS nxt * Millisecond)) (time_Sub nw now) = CapNone"
  proof (rule ccontr)
    assume "\<not> ?thesis"
    then have "\<exists>reason wx. finish D nxt FAILED reason res s1 wx = (None, s', w')"
      using body c1 c2 nw by auto
    then show False using finish_not_waiting assms(2) by fastforce
  qed
  define xs where "xs = attempt_stmts s1 @ [SAppendEvent \<lparr>e_ID = 0, e_TaskID = ID (s_task s1), e_TS = now,
      e_Type = ''attempt_exit'', e_Detail = exitDetail D ev res\<rparr>] @
    [SAppendEvent \<lparr>e_ID = 0, e_TaskID = ID (s_task s1), e_TS = now, e_Type = ''scheduled'',
      e_Detail = d_json D [(''next_wake_at'', JStr (format_RFC3339Nano nw))]\<rparr>]"
  obtain err s2 w2 where p: "persist D (nxt\<lparr>Status := WAITING, NextWakeAt := Some nw\<rparr>) (exec_stmts xs) s1
      (w1\<lparr>w_rng := k\<rparr>) = (err, s2, w2)" by (metis prod_cases3)
  have out: "(case err of Some e \<Rightarrow> (Some e, s2, w2) | None \<Rightarrow>
      (let s3 = s2\<lparr>s_waitingSince := Some now\<rparr>; (tnow, w3) = clock_Now D w2;
           w4 = w3\<lparr>w_timers := timers_Arm tnow (ID (s_task s1)) nw (w_timers w3)\<rparr>
       in (None, if res_Category res = CategoryQuotaExhausted then startProber D s3 else s3, w4))) = (None, s', w')"
    using body [unfolded tx_exec] p c1 c2 c3 nw unfolding xs_def Let_def by (cases err) auto
  from out have err: "err = None" by (cases err) auto
  from p [unfolded err] have "s_task s2 = nxt\<lparr>Status := WAITING, NextWakeAt := Some nw\<rparr>"
    by (cases rule: persist_cases) auto
  moreover have "s_task s' = s_task s2 \<and> s_waitingSince s' = Some now \<and> timers_Armed (w_timers w') (ID (s_task s))"
    using out err s1 by (auto simp: clock_Now_def Let_def startProber_def wt.armed_arm split: if_splits)
  ultimately show ?thesis
    using c1 c2 c3 nw n(2) s1 by (simp add: nxt_def res_def)
qed

section \<open>Pausing and resuming\<close>

lemma pause_committed:
  assumes "pause D s w = (None, s', w')"
  shows "Status (s_task s') = PAUSED \<and> s_waitingSince s' = (if Status (s_task s) = WAITING then None else s_waitingSince s) \<and>
    s_currentAttempt s' = s_currentAttempt s \<and> (\<exists>t. w_trace w' = w_trace w @ [Notified t])"
proof -
  obtain now w1 where n: "clock_Now D w = (now, w1)" by fastforce
  show ?thesis
    using assms clock_Now_eq [OF n] unfolding pause_def n Let_def prod.case tx_exec
    by (auto simp: stopProber_def split: option.splits if_splits elim!: persist_cases)
qed

lemma wake_trace:
  assumes "wake D ev s w = (None, s', w')" and "Status (s_task s') = RUNNING"
  shows "\<exists>argv pid a. w_trace w' = w_trace w @ [Spawned (TotalAttempts (s_task s) + 1) argv (Inr pid), Notified (s_task s')] \<and>
    s_currentAttempt s' = Some a \<and> a_AttemptNo a = TotalAttempts (s_task s) + 1"
proof -
  define w1 where "w1 = w\<lparr>w_timers := timers_Cancel (ID (s_task s)) (w_timers w)\<rparr>"
  define s1 where "s1 = stopProber s"
  obtain s2 w2 where sw: "(case s_waitingSince s1 of
      Some since \<Rightarrow> if Status (s_task s1) = WAITING
        then (let (now, w') = clock_Now D w1 in
          (s1\<lparr>s_task := account_wait now since (s_task s1), s_waitingSince := None\<rparr>, w'))
        else (s1, w1)
    | None \<Rightarrow> (s1, w1)) = (s2, w2)" by fastforce
  have s2: "TotalAttempts (s_task s2) = TotalAttempts (s_task s)" "w_trace w2 = w_trace w"
    using sw by (auto simp: s1_def w1_def stopProber_def clock_Now_def split: option.splits if_splits)
  have "spawnAttempt D (wake_cause ev) s2 w2 = (None, s', w')"
    using assms(1) sw unfolding wake_def Let_def s1_def [symmetric] w1_def [symmetric] by simp
  then show ?thesis
  proof (cases rule: spawnAttempt_cases)
    case (infra reason w3)
    then show ?thesis using fail_task_not_waiting assms(2) by force
  next
    case (spawned now a e argv pid w3 s5 w5)
    have "s_task s5 = spawned_task now (s_task s2) \<and> w_trace w5 = w_trace w3 @ [Notified (s_task s5)]"
      using spawned(1) by (cases rule: persist_cases) auto
    then show ?thesis using spawned s2 by auto
  qed simp
qed

lemma forget_wait_ID: "forget_wait t = forget_wait u \<Longrightarrow> ID t = ID u"
  by (metis (no_types) forget_wait_def task_rec.select_convs(1) task_rec.surjective task_rec.update_convs(17))

lemma Run_ID: "Run D es s w = (r, s', w') \<Longrightarrow> ID (s_task s') = ID (s_task s)"
proof (induction es arbitrary: s w)
  case (Cons e es)
  obtain r1 s1 w1 where h: "Handle D e s w = (r1, s1, w1)" by (metis prod_cases3)
  have "ID (s_task s1) = ID (s_task s)"
  proof (cases r1)
    case None
    then show ?thesis using Handle_transition [of D e s w s1 w1] h by (auto simp: same_identity_def)
  next
    case (Some x)
    then show ?thesis using Handle_error h forget_wait_ID by blast
  qed
  then show ?case using Cons h by (cases r1) (auto split: if_splits)
qed simp

end
