(* ===== verification/Config.thy ===== *)
theory Config
  imports Detect "HOL-Library.AList"
begin

text \<open>
  The configuration (\<open>internal/config\<close>): the schema with its defaults (\<open>config.go\<close>), the layered
  resolution with the scalar keys that the environment and overrides may set (\<open>layer.go\<close>), and the
  validation (\<open>validate.go\<close>). The TOML decoder, the text of floating-point numbers and the file
  system are parameters; floating-point values are finite.
\<close>

section \<open>The schema (\<open>config.go\<close>)\<close>

record cfg_retry =
  r_MaxAttempts :: int
  r_Deadline :: string
  r_MaxTotalWait :: string
  r_BackoffBase :: string
  r_BackoffFactor :: rat
  r_BackoffMax :: string
  r_BackoffJitter :: rat
  r_ResetBuffer :: string
  r_OnUnknown :: string
  r_OnInterrupt :: string

record cfg_availability =
  a_PollInterval :: string
  a_Command :: "string list"

record cfg_logging =
  l_Level :: string
  l_RetainAttempts :: int
  l_Redact :: bool

record cfg_notifications =
  n_OnStateChange :: "string list"
  n_Events :: "string list"

record cfg_provider =
  p_Binary :: string
  p_Model :: string
  p_ResumePrompt :: string
  p_Unattended :: bool
  p_ExtraArgs :: "string list"
  p_Script :: string

record cfg_match =
  m_ExitCodeIn :: "int list"
  m_StdoutRegex :: string
  m_StderrRegex :: string
  m_AnyRegex :: string

record cfg_extractor =
  ce_Source :: string
  ce_Regex :: string
  ce_Kind :: string
  ce_Format :: string

record cfg_rule =
  cr_Name :: string
  cr_Category :: string
  cr_Priority :: int
  cr_Match :: cfg_match
  cr_ResetExtractor :: "cfg_extractor option"

text \<open>The structs \<open>Detect\<close> and \<open>Detection\<close> have one field each, which stands for them; the map of
  providers is an association list, one entry a key.\<close>

record config =
  c_DefaultProvider :: string
  c_DefaultMode :: string
  c_Retry :: cfg_retry
  c_Availability :: cfg_availability
  c_Logging :: cfg_logging
  c_Notifications :: cfg_notifications
  c_Providers :: "(string \<times> cfg_provider) list"
  c_ScanBytes :: int
  c_Rules :: "cfg_rule list"

definition Default :: config where
  "Default = \<lparr>c_DefaultProvider = ''claude'', c_DefaultMode = ''headless'',
     c_Retry = \<lparr>r_MaxAttempts = 0, r_Deadline = [], r_MaxTotalWait = ''72h'', r_BackoffBase = ''30s'',
       r_BackoffFactor = 2, r_BackoffMax = ''1h'', r_BackoffJitter = fl (1 / 5), r_ResetBuffer = ''15s'',
       r_OnUnknown = ''retry'', r_OnInterrupt = ''backoff''\<rparr>,
     c_Availability = \<lparr>a_PollInterval = ''15m'', a_Command = []\<rparr>,
     c_Logging = \<lparr>l_Level = ''info'', l_RetainAttempts = 20, l_Redact = True\<rparr>,
     c_Notifications = \<lparr>n_OnStateChange = [], n_Events = [''SUCCEEDED'', ''FAILED'']\<rparr>,
     c_Providers = [
       (''claude'', \<lparr>p_Binary = ''claude'', p_Model = [], p_ResumePrompt = ''Continue the previous task.'',
          p_Unattended = False, p_ExtraArgs = [], p_Script = []\<rparr>),
       (''copilot'', \<lparr>p_Binary = ''copilot'', p_Model = [], p_ResumePrompt = ''Continue the previous task.'',
          p_Unattended = False, p_ExtraArgs = [], p_Script = []\<rparr>),
       (''fake'', \<lparr>p_Binary = [], p_Model = [], p_ResumePrompt = [], p_Unattended = False,
          p_ExtraArgs = [], p_Script = []\<rparr>)],
     c_ScanBytes = 65536, c_Rules = []\<rparr>"

text \<open>What the package calls: \<open>toml.Unmarshal\<close> into an existing config, \<open>strconv.ParseFloat\<close>, the
  shortest rendering of \<open>strconv\<close> and the \<open>%v\<close> of a float, the error of \<open>time.ParseDuration\<close>, and the capture groups of a regex.\<close>

record cfg_libs =
  toml_Unmarshal :: "string \<Rightarrow> config \<Rightarrow> config result"
  ParseFloat :: "string \<Rightarrow> rat result"
  FormatFloat :: "rat \<Rightarrow> string"
  SprintFloat :: "rat \<Rightarrow> string"
  duration_error :: "string \<Rightarrow> go_error"
  re_NumSubexp :: "string \<Rightarrow> int"

datatype file_read = NoFile | ReadError go_error | Contents string
datatype file_stat = Exists | NotExist | StatError go_error

record file_system =
  fs_Read :: "string \<Rightarrow> file_read"
  fs_Stat :: "string \<Rightarrow> file_stat"
  fs_Abs :: "string \<Rightarrow> string list result"

definition parseInto :: "cfg_libs \<Rightarrow> string \<Rightarrow> config \<Rightarrow> config result" where
  "parseInto C data cfg = (case toml_Unmarshal C data cfg of
     Inl e \<Rightarrow> Inl (Wrap ''parse config: '' e []) | Inr c \<Rightarrow> Inr c)"

definition Parse :: "cfg_libs \<Rightarrow> string \<Rightarrow> config result" where
  "Parse C data = parseInto C data Default"

definition Load :: "cfg_libs \<Rightarrow> file_system \<Rightarrow> string \<Rightarrow> config result" where
  "Load C fs path = (case fs_Read fs path of
     NoFile \<Rightarrow> Inr Default
   | ReadError e \<Rightarrow> Inl (Wrap (''read config '' @ path @ '': '') e [])
   | Contents data \<Rightarrow> (case Parse C data of
       Inl e \<Rightarrow> Inl (Wrap (''load config '' @ path @ '': '') e []) | Inr c \<Rightarrow> Inr c))"

section \<open>Scalar keys (\<open>layer.go\<close>)\<close>

datatype scalar = SStr string | SInt int | SFloat rat | SBool bool

fun same_kind :: "scalar \<Rightarrow> scalar \<Rightarrow> bool" where
  "same_kind (SStr _) (SStr _) = True"
| "same_kind (SInt _) (SInt _) = True"
| "same_kind (SFloat _) (SFloat _) = True"
| "same_kind (SBool _) (SBool _) = True"
| "same_kind _ _ = False"

fun formatScalar :: "cfg_libs \<Rightarrow> scalar \<Rightarrow> string" where
  "formatScalar C (SStr s) = s"
| "formatScalar C (SInt i) = Itoa i"
| "formatScalar C (SFloat f) = FormatFloat C f"
| "formatScalar C (SBool b) = FormatBool b"

text \<open>The errors of \<open>strconv\<close>.\<close>

definition num_error :: "string \<Rightarrow> string \<Rightarrow> string \<Rightarrow> go_error" where
  "num_error fn raw why = Err (''strconv.'' @ fn @ '': parsing '' @ Quote raw @ '': '' @ why)"

definition Atoi_error :: "string \<Rightarrow> go_error" where
  "Atoi_error raw = (let ds = snd (split_sign raw) in
     num_error ''Atoi'' raw (if ds = [] \<or> \<not> list_all is_digit ds then ''invalid syntax'' else ''value out of range''))"

text \<open>\<open>setScalar\<close>: the field's kind decides how the text is read.\<close>

fun setScalar :: "cfg_libs \<Rightarrow> scalar \<Rightarrow> string \<Rightarrow> scalar result" where
  "setScalar C (SStr _) raw = Inr (SStr raw)"
| "setScalar C (SInt _) raw = (case Atoi raw of Some n \<Rightarrow> Inr (SInt n)
     | None \<Rightarrow> Inl (Wrap (''invalid integer '' @ Quote raw @ '': '') (Atoi_error raw) []))"
| "setScalar C (SFloat _) raw = (case ParseFloat C raw of Inr f \<Rightarrow> Inr (SFloat f)
     | Inl e \<Rightarrow> Inl (Wrap (''invalid number '' @ Quote raw @ '': '') e []))"
| "setScalar C (SBool _) raw = (case ParseBool raw of Some b \<Rightarrow> Inr (SBool b)
     | None \<Rightarrow> Inl (Wrap (''invalid boolean '' @ Quote raw @ '': '') (num_error ''ParseBool'' raw ''invalid syntax'') []))"

text \<open>A scalar leaf of a struct: its key, how it is read and how it is written. The writers take the
  record's update function.\<close>

type_synonym 'c field = "string \<times> ('c \<Rightarrow> scalar) \<times> (scalar \<Rightarrow> 'c \<Rightarrow> 'c)"

definition put_str :: "((string \<Rightarrow> string) \<Rightarrow> 'c \<Rightarrow> 'c) \<Rightarrow> scalar \<Rightarrow> 'c \<Rightarrow> 'c" where
  "put_str upd v = upd (\<lambda>old. case v of SStr s \<Rightarrow> s | _ \<Rightarrow> old)"

definition put_int :: "((int \<Rightarrow> int) \<Rightarrow> 'c \<Rightarrow> 'c) \<Rightarrow> scalar \<Rightarrow> 'c \<Rightarrow> 'c" where
  "put_int upd v = upd (\<lambda>old. case v of SInt i \<Rightarrow> i | _ \<Rightarrow> old)"

definition put_float :: "((rat \<Rightarrow> rat) \<Rightarrow> 'c \<Rightarrow> 'c) \<Rightarrow> scalar \<Rightarrow> 'c \<Rightarrow> 'c" where
  "put_float upd v = upd (\<lambda>old. case v of SFloat f \<Rightarrow> f | _ \<Rightarrow> old)"

definition put_bool :: "((bool \<Rightarrow> bool) \<Rightarrow> 'c \<Rightarrow> 'c) \<Rightarrow> scalar \<Rightarrow> 'c \<Rightarrow> 'c" where
  "put_bool upd v = upd (\<lambda>old. case v of SBool b \<Rightarrow> b | _ \<Rightarrow> old)"

text \<open>The leaves the reflection walks visit below the root struct. Slices, maps and the optional
  extractor are no scalars and have no key.\<close>

definition struct_fields :: "config field list" where
  "struct_fields = [
     (''default_provider'', SStr \<circ> c_DefaultProvider, put_str c_DefaultProvider_update),
     (''default_mode'', SStr \<circ> c_DefaultMode, put_str c_DefaultMode_update),
     (''retry.max_attempts'', SInt \<circ> r_MaxAttempts \<circ> c_Retry, put_int (c_Retry_update \<circ> r_MaxAttempts_update)),
     (''retry.deadline'', SStr \<circ> r_Deadline \<circ> c_Retry, put_str (c_Retry_update \<circ> r_Deadline_update)),
     (''retry.max_total_wait'', SStr \<circ> r_MaxTotalWait \<circ> c_Retry, put_str (c_Retry_update \<circ> r_MaxTotalWait_update)),
     (''retry.backoff_base'', SStr \<circ> r_BackoffBase \<circ> c_Retry, put_str (c_Retry_update \<circ> r_BackoffBase_update)),
     (''retry.backoff_factor'', SFloat \<circ> r_BackoffFactor \<circ> c_Retry, put_float (c_Retry_update \<circ> r_BackoffFactor_update)),
     (''retry.backoff_max'', SStr \<circ> r_BackoffMax \<circ> c_Retry, put_str (c_Retry_update \<circ> r_BackoffMax_update)),
     (''retry.backoff_jitter'', SFloat \<circ> r_BackoffJitter \<circ> c_Retry, put_float (c_Retry_update \<circ> r_BackoffJitter_update)),
     (''retry.reset_buffer'', SStr \<circ> r_ResetBuffer \<circ> c_Retry, put_str (c_Retry_update \<circ> r_ResetBuffer_update)),
     (''retry.on_unknown'', SStr \<circ> r_OnUnknown \<circ> c_Retry, put_str (c_Retry_update \<circ> r_OnUnknown_update)),
     (''retry.on_interrupt'', SStr \<circ> r_OnInterrupt \<circ> c_Retry, put_str (c_Retry_update \<circ> r_OnInterrupt_update)),
     (''availability.poll_interval'', SStr \<circ> a_PollInterval \<circ> c_Availability, put_str (c_Availability_update \<circ> a_PollInterval_update)),
     (''logging.level'', SStr \<circ> l_Level \<circ> c_Logging, put_str (c_Logging_update \<circ> l_Level_update)),
     (''logging.retain_attempts'', SInt \<circ> l_RetainAttempts \<circ> c_Logging, put_int (c_Logging_update \<circ> l_RetainAttempts_update)),
     (''logging.redact'', SBool \<circ> l_Redact \<circ> c_Logging, put_bool (c_Logging_update \<circ> l_Redact_update)),
     (''detect.scan_bytes'', SInt \<circ> c_ScanBytes, put_int c_ScanBytes_update)]"

definition entry_fields :: "cfg_provider field list" where
  "entry_fields = [
     (''binary'', SStr \<circ> p_Binary, put_str p_Binary_update),
     (''model'', SStr \<circ> p_Model, put_str p_Model_update),
     (''resume_prompt'', SStr \<circ> p_ResumePrompt, put_str p_ResumePrompt_update),
     (''unattended'', SBool \<circ> p_Unattended, put_bool p_Unattended_update),
     (''script'', SStr \<circ> p_Script, put_str p_Script_update)]"

text \<open>The fields of the map entry \<open>pname\<close>: read from the entry, written to a copy that replaces it.\<close>

definition entry_of :: "string \<Rightarrow> config \<Rightarrow> cfg_provider" where
  "entry_of pname c = (case map_of (c_Providers c) pname of Some p \<Rightarrow> p
     | None \<Rightarrow> \<lparr>p_Binary = [], p_Model = [], p_ResumePrompt = [], p_Unattended = False, p_ExtraArgs = [], p_Script = []\<rparr>)"

definition provider_field :: "string \<Rightarrow> cfg_provider field \<Rightarrow> config field" where
  "provider_field pname = (\<lambda>(tag, get, put).
     (''providers.'' @ pname @ ''.'' @ tag,
      \<lambda>c. get (entry_of pname c),
      \<lambda>v c. c\<lparr>c_Providers := AList.update pname (put v (entry_of pname c)) (c_Providers c)\<rparr>))"

definition scalar_fields :: "config \<Rightarrow> config field list" where
  "scalar_fields c = struct_fields @
     concat (map (\<lambda>(pname, _). map (provider_field pname) entry_fields) (c_Providers c))"

definition GetScalar :: "cfg_libs \<Rightarrow> config \<Rightarrow> string \<Rightarrow> string result" where
  "GetScalar C c key = (case map_of (scalar_fields c) key of
     None \<Rightarrow> Inl (Err (''get '' @ key @ '': unknown or non-scalar config key''))
   | Some (get, put) \<Rightarrow> Inr (formatScalar C (get c)))"

definition set_field :: "cfg_libs \<Rightarrow> (config \<Rightarrow> scalar) \<times> (scalar \<Rightarrow> config \<Rightarrow> config) \<Rightarrow> string \<Rightarrow> config \<Rightarrow> config result" where
  "set_field C = (\<lambda>(get, put) raw c. case setScalar C (get c) raw of Inl e \<Rightarrow> Inl e | Inr v \<Rightarrow> Inr (put v c))"

section \<open>Layered resolution (\<open>layer.go\<close>)\<close>

record options =
  o_GlobalPath :: string
  o_WorkDir :: string
  o_Getenv :: "string \<Rightarrow> string"
  o_Overrides :: "(string \<times> string) list"

definition mergeFile :: "cfg_libs \<Rightarrow> file_system \<Rightarrow> config \<Rightarrow> string \<Rightarrow> config result" where
  "mergeFile C fs c path = (case fs_Read fs path of
     NoFile \<Rightarrow> Inr c
   | ReadError e \<Rightarrow> Inl (Wrap (''read config '' @ path @ '': '') e [])
   | Contents data \<Rightarrow> (case parseInto C data c of
       Inl e \<Rightarrow> Inl (Wrap (''load config '' @ path @ '': '') e []) | Inr c' \<Rightarrow> Inr c'))"

text \<open>A clean absolute path is the list of its components, the deepest first.\<close>

definition path_of :: "string list \<Rightarrow> string" where
  "path_of cs = concat (map (\<lambda>c. CHR ''/'' # c) (rev cs))"

fun find_up :: "file_system \<Rightarrow> string list \<Rightarrow> string result" where
  "find_up fs dir = (case fs_Stat fs (path_of (''.defib.toml'' # dir)) of
     Exists \<Rightarrow> Inr (path_of (''.defib.toml'' # dir))
   | StatError e \<Rightarrow> Inl (Wrap (''stat '' @ path_of (''.defib.toml'' # dir) @ '': '') e [])
   | NotExist \<Rightarrow> (case dir of [] \<Rightarrow> Inr [] | _ # parent \<Rightarrow> find_up fs parent))"

declare find_up.simps [simp del]

definition findProjectFile :: "file_system \<Rightarrow> string \<Rightarrow> string result" where
  "findProjectFile fs dir = (case fs_Abs fs dir of
     Inl e \<Rightarrow> Inl (Wrap ''resolve project config dir: '' e [])
   | Inr cs \<Rightarrow> find_up fs (rev cs))"

text \<open>The name of a key's environment variable.\<close>

definition env_var :: "string \<Rightarrow> string" where
  "env_var path = ''DEFIB_'' @ ToUpper (ReplaceAll path ''.'' ''_'')"

text \<open>The two loops of \<open>Resolve\<close>. Go ranges over the setters and over the overrides in an unspecified
  order; the model takes the order of the lists.\<close>

fun env_layer :: "cfg_libs \<Rightarrow> (string \<Rightarrow> string) \<Rightarrow> config field list \<Rightarrow> config \<Rightarrow> config result" where
  "env_layer C getenv [] c = Inr c"
| "env_layer C getenv ((path, acc) # fs) c =
     (let raw = getenv (env_var path) in
      if raw = [] then env_layer C getenv fs c
      else (case set_field C acc raw c of
        Inl e \<Rightarrow> Inl (Wrap (''environment '' @ env_var path @ '' (key '' @ path @ ''): '') e [])
      | Inr c' \<Rightarrow> env_layer C getenv fs c'))"

fun override_layer :: "cfg_libs \<Rightarrow> config field list \<Rightarrow> (string \<times> string) list \<Rightarrow> config \<Rightarrow> config result" where
  "override_layer C setters [] c = Inr c"
| "override_layer C setters ((path, raw) # os) c =
     (case map_of setters path of
        None \<Rightarrow> Inl (Err (''override '' @ path @ '': unknown or non-scalar config key''))
      | Some acc \<Rightarrow> (case set_field C acc raw c of
          Inl e \<Rightarrow> Inl (Wrap (''override '' @ path @ '': '') e [])
        | Inr c' \<Rightarrow> override_layer C setters os c'))"

text \<open>The files: defaults, then the global file, then the nearest project file.\<close>

definition project_layer :: "cfg_libs \<Rightarrow> file_system \<Rightarrow> string \<Rightarrow> config \<Rightarrow> config result" where
  "project_layer C fs dir c =
     (if dir = [] then Inr c
      else case findProjectFile fs dir of
        Inl e \<Rightarrow> Inl e
      | Inr project \<Rightarrow> if project = [] then Inr c else mergeFile C fs c project)"

definition file_layers :: "cfg_libs \<Rightarrow> file_system \<Rightarrow> options \<Rightarrow> config result" where
  "file_layers C fs opts =
     (case (if o_GlobalPath opts = [] then Inr Default else mergeFile C fs Default (o_GlobalPath opts)) of
        Inl e \<Rightarrow> Inl e
      | Inr c \<Rightarrow> project_layer C fs (o_WorkDir opts) c)"

definition Resolve :: "cfg_libs \<Rightarrow> file_system \<Rightarrow> options \<Rightarrow> config result" where
  "Resolve C fs opts =
     (case file_layers C fs opts of
        Inl e \<Rightarrow> Inl e
      | Inr c \<Rightarrow> (case env_layer C (o_Getenv opts) (scalar_fields c) c of
          Inl e \<Rightarrow> Inl e
        | Inr c' \<Rightarrow> override_layer C (scalar_fields c) (o_Overrides opts) c'))"

section \<open>Validation (\<open>validate.go\<close>)\<close>

definition cfg_validCategories :: "string list" where
  "cfg_validCategories = [''SUCCESS'', ''RATE_LIMIT'', ''QUOTA_EXHAUSTED'', ''SESSION_LIMIT'',
     ''TRANSIENT_ERROR'', ''FATAL_ERROR'', ''UNKNOWN'']"

definition validExtractorKinds :: "string list" where
  "validExtractorKinds = [''rfc3339'', ''unix_seconds'', ''http_retry_after'', ''relative_duration'', ''clock_time'']"

definition validateDuration :: "cfg_libs \<Rightarrow> string \<Rightarrow> string \<Rightarrow> bool \<Rightarrow> go_error list" where
  "validateDuration C key value allowEmpty =
     (if allowEmpty \<and> value = [] \<or> ParseDuration value \<noteq> None then []
      else [Wrap (key @ '': invalid duration '' @ Quote value @ '': '') (duration_error C value) []])"

definition validateRegex :: "libs \<Rightarrow> string \<Rightarrow> string \<Rightarrow> go_error list" where
  "validateRegex L key value =
     (if value = [] then []
      else case re_compile L value of None \<Rightarrow> []
      | Some e \<Rightarrow> [Wrap (key @ '': invalid regexp '' @ Quote value @ '': '') e []])"

definition validateExtractor :: "libs \<Rightarrow> cfg_libs \<Rightarrow> string \<Rightarrow> cfg_extractor \<Rightarrow> go_error list" where
  "validateExtractor L C prefix x =
     (if ce_Kind x \<in> set validExtractorKinds then []
      else [Err (prefix @ ''.kind: invalid kind '' @ Quote (ce_Kind x))]) @
     (case re_compile L (ce_Regex x) of
        Some e \<Rightarrow> [Wrap (prefix @ ''.regex: invalid regexp '' @ Quote (ce_Regex x) @ '': '') e []]
      | None \<Rightarrow> if re_NumSubexp C (ce_Regex x) = 1 then []
          else [Err (prefix @ ''.regex: must have exactly one capture group, got '' @ Itoa (re_NumSubexp C (ce_Regex x)))])"

definition validateRule :: "libs \<Rightarrow> cfg_libs \<Rightarrow> nat \<Rightarrow> cfg_rule \<Rightarrow> go_error list" where
  "validateRule L C i r =
     (let prefix = ''detection.rules['' @ Itoa (int i) @ '']'' in
      (if cr_Category r \<in> set cfg_validCategories then []
       else [Err (prefix @ ''.category: invalid category '' @ Quote (cr_Category r))]) @
      validateRegex L (prefix @ ''.match.stdout_regex'') (m_StdoutRegex (cr_Match r)) @
      validateRegex L (prefix @ ''.match.stderr_regex'') (m_StderrRegex (cr_Match r)) @
      validateRegex L (prefix @ ''.match.any_regex'') (m_AnyRegex (cr_Match r)) @
      (case cr_ResetExtractor r of None \<Rightarrow> []
       | Some x \<Rightarrow> validateExtractor L C (prefix @ ''.reset_extractor'') x))"

fun validateRules :: "libs \<Rightarrow> cfg_libs \<Rightarrow> nat \<Rightarrow> cfg_rule list \<Rightarrow> go_error list" where
  "validateRules L C i [] = []"
| "validateRules L C i (r # rs) = validateRule L C i r @ validateRules L C (Suc i) rs"

definition one_of :: "string \<Rightarrow> string \<Rightarrow> string \<Rightarrow> string \<Rightarrow> go_error list" where
  "one_of key a b v = (if v = a \<or> v = b then []
     else [Err (key @ '': must be '' @ Quote a @ '' or '' @ Quote b @ '', got '' @ Quote v)])"

definition validateDeadline :: "string \<Rightarrow> go_error list" where
  "validateDeadline v = (if v = [] \<or> ParseDuration v \<noteq> None \<or> parse_RFC3339 v \<noteq> None then []
     else [Err (''retry.deadline: must be empty, a Go duration, or an RFC3339 timestamp, got '' @ Quote v)])"

text \<open>\<open>validateCommand\<close>: an executable that cannot be found is a warning only. \<open>lookPath\<close> and
  \<open>stat\<close> answer with their error, if any.\<close>

definition validateCommand ::
  "(string \<Rightarrow> go_error option) \<Rightarrow> (string \<Rightarrow> go_error option) \<Rightarrow> string \<Rightarrow> string list \<Rightarrow> string list" where
  "validateCommand lookPath stat key argv = (case argv of [] \<Rightarrow> []
     | name # _ \<Rightarrow> (case (if HasPrefix name ''/'' then stat name else lookPath name) of
         None \<Rightarrow> []
       | Some e \<Rightarrow> [key @ '': executable '' @ Quote name @ '' could not be resolved: '' @ err_text e]))"

definition validate_errors :: "libs \<Rightarrow> cfg_libs \<Rightarrow> config \<Rightarrow> go_error list" where
  "validate_errors L C c =
     one_of ''default_mode'' ''headless'' ''interactive'' (c_DefaultMode c) @
     (if r_BackoffFactor (c_Retry c) < 1
      then [Err (''retry.backoff_factor: must be >= 1.0, got '' @ SprintFloat C (r_BackoffFactor (c_Retry c)))] else []) @
     (if r_BackoffJitter (c_Retry c) < 0 \<or> r_BackoffJitter (c_Retry c) > 1
      then [Err (''retry.backoff_jitter: must be in [0, 1], got '' @ SprintFloat C (r_BackoffJitter (c_Retry c)))] else []) @
     validateDuration C ''retry.backoff_base'' (r_BackoffBase (c_Retry c)) False @
     validateDuration C ''retry.backoff_max'' (r_BackoffMax (c_Retry c)) False @
     validateDuration C ''retry.reset_buffer'' (r_ResetBuffer (c_Retry c)) False @
     validateDuration C ''availability.poll_interval'' (a_PollInterval (c_Availability c)) False @
     validateDuration C ''retry.max_total_wait'' (r_MaxTotalWait (c_Retry c)) True @
     validateDeadline (r_Deadline (c_Retry c)) @
     one_of ''retry.on_unknown'' ''retry'' ''fail'' (r_OnUnknown (c_Retry c)) @
     one_of ''retry.on_interrupt'' ''resume_now'' ''backoff'' (r_OnInterrupt (c_Retry c)) @
     validateRules L C 0 (c_Rules c)"

definition validate ::
  "libs \<Rightarrow> cfg_libs \<Rightarrow> (string \<Rightarrow> go_error option) \<Rightarrow> (string \<Rightarrow> go_error option) \<Rightarrow> config
     \<Rightarrow> string list \<times> go_error option" where
  "validate L C lookPath stat c =
     (validateCommand lookPath stat ''notifications.on_state_change'' (n_OnStateChange (c_Notifications c)) @
      validateCommand lookPath stat ''availability.command'' (a_Command (c_Availability c)),
      (case validate_errors L C c of [] \<Rightarrow> None | es \<Rightarrow> Some (Joined es)))"

section \<open>Keys as lenses\<close>

definition field_ok :: "'c field \<Rightarrow> bool" where
  "field_ok = (\<lambda>(k, get, put). (\<forall>c v. same_kind (get c) v \<longrightarrow> get (put v c) = v) \<and>
     (\<forall>c. put (get c) c = c))"

definition independent :: "'c field \<Rightarrow> 'c field \<Rightarrow> bool" where
  "independent = (\<lambda>(k, get, put) (k', get', put'). \<forall>c v. get' (put v c) = get' c)"

lemma same_kind_simps [simp]:
  "same_kind (SStr s) v \<longleftrightarrow> (\<exists>t. v = SStr t)" "same_kind (SInt i) v \<longleftrightarrow> (\<exists>t. v = SInt t)"
  "same_kind (SFloat f) v \<longleftrightarrow> (\<exists>t. v = SFloat t)" "same_kind (SBool b) v \<longleftrightarrow> (\<exists>t. v = SBool t)"
  by (cases v; simp)+

lemma same_kind_sym: "same_kind u v \<Longrightarrow> same_kind v u"
  by (cases u) auto

lemma same_kind_refl [simp]: "same_kind v v"
  by (cases v) simp_all

lemma setScalar_same_kind: "setScalar C v raw = Inr u \<Longrightarrow> same_kind v u"
  by (cases v) (auto split: option.splits sum.splits)

lemmas put_defs = put_str_def put_int_def put_float_def put_bool_def

lemma struct_fields_ok: "list_all field_ok struct_fields"
  by (auto simp: struct_fields_def field_ok_def put_defs)

lemma entry_fields_ok: "list_all field_ok entry_fields"
  by (auto simp: entry_fields_def field_ok_def put_defs)

lemma entry_independent:
  "list_all (\<lambda>f. list_all (\<lambda>g. fst f \<noteq> fst g \<longrightarrow> independent f g) entry_fields) entry_fields"
  by (simp add: entry_fields_def independent_def put_defs)

lemma struct_independent:
  "list_all (\<lambda>f. list_all (\<lambda>g. fst f \<noteq> fst g \<longrightarrow> independent f g) struct_fields) struct_fields"
  by (simp add: struct_fields_def independent_def put_defs)

text \<open>The fields depend on the names of the providers only, which no setter changes.\<close>

abbreviation provider_names :: "config \<Rightarrow> string list" where
  "provider_names c \<equiv> map fst (c_Providers c)"

lemma scalar_fields_names:
  "scalar_fields c = struct_fields @ concat (map (\<lambda>p. map (provider_field p) entry_fields) (provider_names c))"
  by (simp add: scalar_fields_def comp_def split_def)

lemma scalar_fields_cong: "provider_names c = provider_names c' \<Longrightarrow> scalar_fields c = scalar_fields c'"
  by (simp only: scalar_fields_names)

lemma in_scalar_fields:
  "f \<in> set (scalar_fields c) \<longleftrightarrow> f \<in> set struct_fields \<or>
     (\<exists>p \<in> set (provider_names c). \<exists>e \<in> set entry_fields. f = provider_field p e)"
  by (auto simp: scalar_fields_names)

lemma struct_put_providers: "f \<in> set struct_fields \<Longrightarrow> c_Providers (snd (snd f) v c) = c_Providers c"
proof -
  have "list_all (\<lambda>f. c_Providers (snd (snd f) v c) = c_Providers c) struct_fields"
    by (simp add: struct_fields_def put_defs)
  then show "f \<in> set struct_fields \<Longrightarrow> ?thesis" by (simp add: list_all_iff)
qed

lemma struct_get_providers: "f \<in> set struct_fields \<Longrightarrow> fst (snd f) (c\<lparr>c_Providers := ps\<rparr>) = fst (snd f) c"
proof -
  have "list_all (\<lambda>f. fst (snd f) (c\<lparr>c_Providers := ps\<rparr>) = fst (snd f) c) struct_fields"
    by (simp add: struct_fields_def)
  then show "f \<in> set struct_fields \<Longrightarrow> ?thesis" by (simp add: list_all_iff)
qed

lemma provider_field_sel:
  "fst (provider_field p e) = ''providers.'' @ p @ ''.'' @ fst e"
  "fst (snd (provider_field p e)) c = fst (snd e) (entry_of p c)"
  "snd (snd (provider_field p e)) v c =
     c\<lparr>c_Providers := AList.update p (snd (snd e) v (entry_of p c)) (c_Providers c)\<rparr>"
  by (simp_all add: provider_field_def split: prod.splits)

lemma entry_of_update [simp]:
  "entry_of p (c\<lparr>c_Providers := AList.update q e (c_Providers c)\<rparr>) = (if p = q then e else entry_of p c)"
  by (simp add: entry_of_def update_conv')

lemma names_put:
  assumes "f \<in> set (scalar_fields c)"
  shows "provider_names (snd (snd f) v c) = provider_names c"
  using assms unfolding in_scalar_fields
proof
  assume "f \<in> set struct_fields"
  then show ?thesis by (simp add: struct_put_providers)
next
  assume "\<exists>p \<in> set (provider_names c). \<exists>e \<in> set entry_fields. f = provider_field p e"
  then obtain p e where "p \<in> set (provider_names c)" "f = provider_field p e" by blast
  then show ?thesis by (simp add: provider_field_sel update_keys)
qed

text \<open>The tags have no point, so the key of an entry's field determines the entry and the tag.\<close>

lemma entry_tags_no_point: "e \<in> set entry_fields \<Longrightarrow> CHR ''.'' \<notin> set (fst e)"
  by (auto simp: entry_fields_def)

lemma last_point_unique:
  assumes "p @ ''.'' @ a = q @ ''.'' @ b" and "CHR ''.'' \<notin> set a" and "CHR ''.'' \<notin> set b"
  shows "p = q \<and> a = b"
proof -
  have split: "dropWhile (\<lambda>c. c \<noteq> CHR ''.'') (rev s) = CHR ''.'' # rev p \<and>
      takeWhile (\<lambda>c. c \<noteq> CHR ''.'') (rev s) = rev a" if "CHR ''.'' \<notin> set a" "s = p @ ''.'' @ a" for p a s
    using that by (auto simp: dropWhile_append2 takeWhile_append2 dropWhile_append takeWhile_append)
  from split [OF assms(2) refl] split [OF assms(3,1)] show ?thesis by simp
qed

lemma struct_keys_no_provider: "f \<in> set struct_fields \<Longrightarrow> fst f \<noteq> ''providers.'' @ s"
proof -
  have "list_all (\<lambda>f. \<not> HasPrefix (fst f) ''providers.'') struct_fields"
    by (simp add: struct_fields_def HasPrefix_def)
  then show "f \<in> set struct_fields \<Longrightarrow> ?thesis" by (auto simp: list_all_iff HasPrefix_iff)
qed

lemma struct_keys_distinct: "distinct (map fst struct_fields)"
  by (simp add: struct_fields_def)

lemma entry_keys_distinct: "distinct (map fst entry_fields)"
  by (simp add: entry_fields_def)

lemma provider_key_inj:
  assumes "fst (provider_field p e) = fst (provider_field q e')" and "e \<in> set entry_fields" and "e' \<in> set entry_fields"
  shows "p = q \<and> fst e = fst e'"
  using assms last_point_unique [of p "fst e" q "fst e'"] entry_tags_no_point
  by (simp add: provider_field_sel)

lemma distinct_concat_map:
  "distinct ps \<Longrightarrow> (\<And>p. distinct (f p)) \<Longrightarrow> (\<And>p q. p \<noteq> q \<Longrightarrow> set (f p) \<inter> set (f q) = {}) \<Longrightarrow>
     distinct (concat (map f ps))"
proof (induction ps)
  case (Cons p ps)
  have "set (f p) \<inter> set (f q) = {}" if "q \<in> set ps" for q using Cons.prems(1) Cons.prems(3) [of p q] that
    by (metis distinct.simps(2))
  then show ?case using Cons by auto
qed simp

lemma scalar_keys_distinct:
  assumes "distinct (provider_names c)"
  shows "distinct (map fst (scalar_fields c))"
proof -
  have entries: "distinct (concat (map (\<lambda>p. map (fst \<circ> provider_field p) entry_fields) (provider_names c)))"
    using assms
  proof (rule distinct_concat_map)
    fix p
    have "inj_on (fst \<circ> provider_field p) (set entry_fields)"
    proof (rule inj_onI)
      fix e e' assume "e \<in> set entry_fields" "e' \<in> set entry_fields" "(fst \<circ> provider_field p) e = (fst \<circ> provider_field p) e'"
      then show "e = e'" using provider_key_inj [of p e p e'] entry_keys_distinct by (auto simp: distinct_map inj_on_def)
    qed
    then show "distinct (map (fst \<circ> provider_field p) entry_fields)"
      using entry_keys_distinct by (simp only: distinct_map simp_thms)
  next
    fix p q :: string assume "p \<noteq> q"
    have False if "e \<in> set entry_fields" "e' \<in> set entry_fields" "fst (provider_field p e) = fst (provider_field q e')" for e e'
      using provider_key_inj [OF that(3,1,2)] \<open>p \<noteq> q\<close> by simp
    then show "set (map (fst \<circ> provider_field p) entry_fields) \<inter> set (map (fst \<circ> provider_field q) entry_fields) = {}"
      unfolding set_map comp_def by blast
  qed
  have "map fst (scalar_fields c) = map fst struct_fields @
      concat (map (\<lambda>p. map (fst \<circ> provider_field p) entry_fields) (provider_names c))"
    by (simp add: scalar_fields_names map_concat comp_def)
  moreover have "set (map fst struct_fields) \<inter>
      set (concat (map (\<lambda>p. map (fst \<circ> provider_field p) entry_fields) ps)) = {}" for ps
    using struct_keys_no_provider by (auto simp: provider_field_sel)
  ultimately show ?thesis
    using struct_keys_distinct entries by (simp only: distinct_append simp_thms)
qed

text \<open>Reading and writing by key.\<close>

definition scalar_keys :: "config \<Rightarrow> string set" where
  "scalar_keys c = fst ` set (scalar_fields c)"

definition scalar_get :: "string \<Rightarrow> config \<Rightarrow> scalar" where
  "scalar_get k c = (case map_of (scalar_fields c) k of Some (get, put) \<Rightarrow> get c | None \<Rightarrow> SStr [])"

definition scalar_put :: "string \<Rightarrow> scalar \<Rightarrow> config \<Rightarrow> config" where
  "scalar_put k v c = (case map_of (scalar_fields c) k of Some (get, put) \<Rightarrow> put v c | None \<Rightarrow> c)"

text \<open>What the layers rely on: a key reads back what was written to it, writing what is there changes
  nothing, and writing a key disturbs no other key.\<close>

locale scalar_table =
  fixes keys :: "'c \<Rightarrow> string set"
    and get :: "string \<Rightarrow> 'c \<Rightarrow> scalar"
    and put :: "string \<Rightarrow> scalar \<Rightarrow> 'c \<Rightarrow> 'c"
  assumes get_put: "k \<in> keys c \<Longrightarrow> same_kind (get k c) v \<Longrightarrow> get k (put k v c) = v"
    and put_get: "k \<in> keys c \<Longrightarrow> put k (get k c) c = c"
    and get_put_other: "k \<in> keys c \<Longrightarrow> k' \<in> keys c \<Longrightarrow> k' \<noteq> k \<Longrightarrow> get k' (put k v c) = get k' c"
    and keys_put: "k \<in> keys c \<Longrightarrow> keys (put k v c) = keys c"

text \<open>The common shape of the two loops: settings applied one after the other.\<close>

fun apply_settings ::
  "(string \<Rightarrow> 'c \<Rightarrow> scalar) \<Rightarrow> (string \<Rightarrow> scalar \<Rightarrow> 'c \<Rightarrow> 'c) \<Rightarrow> cfg_libs \<Rightarrow> (string \<times> string) list \<Rightarrow> 'c \<Rightarrow> 'c option" where
  "apply_settings get put C [] c = Some c"
| "apply_settings get put C ((k, raw) # ws) c =
     (case setScalar C (get k c) raw of Inl e \<Rightarrow> None | Inr v \<Rightarrow> apply_settings get put C ws (put k v c))"

context scalar_table begin

lemma settings_get:
  assumes "apply_settings get put C ws c = Some c'" and "fst ` set ws \<subseteq> keys c" and "distinct (map fst ws)"
  shows "keys c' = keys c \<and> (\<forall>k \<in> keys c.
    case map_of ws k of None \<Rightarrow> get k c' = get k c | Some raw \<Rightarrow> setScalar C (get k c) raw = Inr (get k c'))"
  using assms
proof (induction ws arbitrary: c)
  case (Cons s ws)
  obtain k raw where s: "s = (k, raw)" by fastforce
  then obtain v where v: "setScalar C (get k c) raw = Inr v" "apply_settings get put C ws (put k v c) = Some c'"
    using Cons.prems(1) by (auto split: sum.splits)
  have k: "k \<in> keys c" "k \<notin> fst ` set ws" "distinct (map fst ws)" using Cons.prems s by auto
  have keys: "keys (put k v c) = keys c" using keys_put k(1) .
  from Cons.IH [OF v(2) _ k(3)] Cons.prems(2) keys
  have IH: "keys c' = keys c" "\<forall>j \<in> keys c. case map_of ws j of None \<Rightarrow> get j c' = get j (put k v c)
      | Some raw \<Rightarrow> setScalar C (get j (put k v c)) raw = Inr (get j c')" by auto
  have "map_of ws k = None" using k(2) by (simp add: map_of_eq_None_iff)
  then have "get k c' = v"
    using IH(2) k(1) get_put [OF k(1) setScalar_same_kind [OF v(1)]] by fastforce
  then show ?case
    using IH get_put_other [OF k(1)] v(1) s by (auto split: option.splits)
qed simp

lemma settings_same:
  "(\<And>k raw. (k, raw) \<in> set ws \<Longrightarrow> k \<in> keys c \<and> setScalar C (get k c) raw = Inr (get k c)) \<Longrightarrow>
     apply_settings get put C ws c = Some c"
proof (induction ws)
  case (Cons s ws)
  obtain k raw where s: "s = (k, raw)" by fastforce
  have "apply_settings get put C ws c = Some c" using Cons.prems by (intro Cons.IH) auto
  moreover have "k \<in> keys c" "setScalar C (get k c) raw = Inr (get k c)" using Cons.prems [of k raw] s by auto
  ultimately show ?case using s put_get [of k c] by simp
qed simp

end

lemma field_cases:
  assumes "f \<in> set (scalar_fields c)"
  obtains "f \<in> set struct_fields"
  | p e where "p \<in> set (provider_names c)" "e \<in> set entry_fields" "f = provider_field p e"
  using assms unfolding in_scalar_fields by blast

lemma entry_triv: "p \<in> set (provider_names c) \<Longrightarrow> AList.update p (entry_of p c) (c_Providers c) = c_Providers c"
  by (auto simp: entry_of_def update_triv map_of_eq_None_iff split: option.splits)

lemma fields_get_put:
  assumes "f \<in> set (scalar_fields c)" and "same_kind (fst (snd f) c) v"
  shows "fst (snd f) (snd (snd f) v c) = v"
  using assms(1)
proof (cases rule: field_cases)
  case 1
  then show ?thesis using struct_fields_ok assms(2) by (auto simp: list_all_iff field_ok_def)
next
  case (2 p e)
  then show ?thesis using entry_fields_ok assms(2)
    by (auto simp: provider_field_sel list_all_iff field_ok_def)
qed

lemma fields_put_get:
  assumes "f \<in> set (scalar_fields c)"
  shows "snd (snd f) (fst (snd f) c) c = c"
  using assms
proof (cases rule: field_cases)
  case 1
  then show ?thesis using struct_fields_ok by (auto simp: list_all_iff field_ok_def)
next
  case (2 p e)
  then have "snd (snd e) (fst (snd e) (entry_of p c)) (entry_of p c) = entry_of p c"
    using entry_fields_ok by (auto simp: list_all_iff field_ok_def)
  then show ?thesis using 2 by (simp add: provider_field_sel entry_triv)
qed

lemma independentD: "independent f g \<Longrightarrow> fst (snd g) (snd (snd f) v c) = fst (snd g) c"
  by (simp add: independent_def split: prod.splits)

lemma fields_independent:
  assumes "f \<in> set (scalar_fields c)" and "g \<in> set (scalar_fields c)" and "fst f \<noteq> fst g"
  shows "fst (snd g) (snd (snd f) v c) = fst (snd g) c"
  using assms(1)
proof (cases rule: field_cases)
  case f: 1
  from assms(2) show ?thesis
  proof (cases rule: field_cases)
    case 1
    then have "independent f g" using struct_independent f assms(3) by (auto simp: list_all_iff)
    then show ?thesis by (rule independentD)
  next
    case (2 q e)
    then show ?thesis using f by (simp add: provider_field_sel entry_of_def struct_put_providers)
  qed
next
  case f: (2 p e)
  from assms(2) show ?thesis
  proof (cases rule: field_cases)
    case 1
    then show ?thesis using f by (simp add: provider_field_sel struct_get_providers)
  next
    case (2 q e')
    show ?thesis
    proof (cases "p = q")
      case True
      then have "fst e \<noteq> fst e'" using 2 f assms(3) by (auto simp: provider_field_sel)
      then have "independent e e'" using entry_independent f(2) 2(2) by (auto simp: list_all_iff)
      then show ?thesis using 2 f True by (simp add: provider_field_sel independentD)
    qed (use 2 f in \<open>auto simp: provider_field_sel\<close>)
  qed
qed

lemma scalar_key_field:
  assumes "k \<in> scalar_keys c"
  obtains f where "f \<in> set (scalar_fields c)" "fst f = k" "scalar_get k c = fst (snd f) c"
    "\<And>v. scalar_put k v c = snd (snd f) v c" "map_of (scalar_fields c) k = Some (snd f)"
proof -
  obtain a where a: "map_of (scalar_fields c) k = Some a"
    using assms unfolding scalar_keys_def by (metis (mono_tags) imageE map_of_eq_None_iff not_None_eq)
  show thesis
    using that [of "(k, a)"] map_of_SomeD [OF a] a by (auto simp: scalar_get_def scalar_put_def split: prod.splits)
qed

lemma scalar_fields_put: "k \<in> scalar_keys c \<Longrightarrow> scalar_fields (scalar_put k v c) = scalar_fields c"
  by (elim scalar_key_field) (metis names_put scalar_fields_cong)

lemma scalar_get_same_fields:
  "scalar_fields c' = scalar_fields c \<Longrightarrow> map_of (scalar_fields c) k = Some a \<Longrightarrow> scalar_get k c' = fst a c'"
  by (simp add: scalar_get_def split: prod.splits)

interpretation sc: scalar_table scalar_keys scalar_get scalar_put
proof
  fix k c v assume k: "k \<in> scalar_keys c"
  obtain f where f: "f \<in> set (scalar_fields c)" "fst f = k" "scalar_get k c = fst (snd f) c"
    "\<And>v. scalar_put k v c = snd (snd f) v c" "map_of (scalar_fields c) k = Some (snd f)"
    using scalar_key_field [OF k] by blast
  note fields = scalar_fields_put [OF k]
  show "scalar_get k (scalar_put k v c) = v" if "same_kind (scalar_get k c) v"
    using fields_get_put [OF f(1)] that scalar_get_same_fields [OF fields f(5)] f(3,4) by simp
  show "scalar_put k (scalar_get k c) c = c" using fields_put_get [OF f(1)] f(3,4) by simp
  show "scalar_keys (scalar_put k v c) = scalar_keys c" using fields by (simp add: scalar_keys_def)
  show "scalar_get k' (scalar_put k v c) = scalar_get k' c" if k': "k' \<in> scalar_keys c" "k' \<noteq> k" for k'
  proof -
    obtain g where g: "g \<in> set (scalar_fields c)" "fst g = k'" "scalar_get k' c = fst (snd g) c"
      "map_of (scalar_fields c) k' = Some (snd g)"
      using scalar_key_field [OF k'(1)] by metis
    have "fst f \<noteq> fst g" using f(2) g(2) k'(2) by simp
    from fields_independent [OF f(1) g(1) this] show ?thesis
      using scalar_get_same_fields [OF fields g(4)] f(4) g(3) by simp
  qed
qed

section \<open>The layers\<close>

lemma set_field_key:
  "(k, acc) \<in> set (scalar_fields c0) \<Longrightarrow> scalar_fields c = scalar_fields c0 \<Longrightarrow> map_of (scalar_fields c0) k = Some acc \<Longrightarrow>
   set_field C acc raw c = (case setScalar C (scalar_get k c) raw of Inl e \<Rightarrow> Inl e | Inr v \<Rightarrow> Inr (scalar_put k v c))"
  by (cases acc) (simp add: set_field_def scalar_get_def scalar_put_def split: sum.split)

lemma override_layer_settings:
  assumes "override_layer C (scalar_fields c0) ws c = Inr c'" and "scalar_fields c = scalar_fields c0"
  shows "apply_settings scalar_get scalar_put C ws c = Some c' \<and> fst ` set ws \<subseteq> scalar_keys c0"
  using assms
proof (induction ws arbitrary: c)
  case (Cons s ws)
  obtain k raw where s: "s = (k, raw)" by fastforce
  then obtain acc where acc: "map_of (scalar_fields c0) k = Some acc"
    using Cons.prems(1) by (auto split: option.splits)
  then have k: "k \<in> scalar_keys c0" "(k, acc) \<in> set (scalar_fields c0)"
    using map_of_SomeD [OF acc] by (force simp: scalar_keys_def)+
  obtain v where v: "setScalar C (scalar_get k c) raw = Inr v"
    "override_layer C (scalar_fields c0) ws (scalar_put k v c) = Inr c'"
    using Cons.prems(1) set_field_key [OF k(2) Cons.prems(2) acc] by (auto simp: s acc split: sum.splits)
  have "scalar_fields (scalar_put k v c) = scalar_fields c0"
    using scalar_fields_put [of k c v] k(1) Cons.prems(2) by (simp add: scalar_keys_def)
  from Cons.IH [OF v(2) this] k(1) v(1) s show ?case by simp
qed simp

definition env_settings :: "(string \<Rightarrow> string) \<Rightarrow> config field list \<Rightarrow> (string \<times> string) list" where
  "env_settings getenv fs = filter (\<lambda>(k, raw). raw \<noteq> []) (map (\<lambda>(k, _). (k, getenv (env_var k))) fs)"

lemma env_layer_settings:
  assumes "env_layer C getenv fs c = Inr c'" and "set fs \<subseteq> set (scalar_fields c0)"
    and "scalar_fields c = scalar_fields c0" and "distinct (map fst (scalar_fields c0))"
  shows "apply_settings scalar_get scalar_put C (env_settings getenv fs) c = Some c' \<and> scalar_fields c' = scalar_fields c0"
  using assms(1,2,3)
proof (induction fs arbitrary: c)
  case (Cons f fs)
  obtain k acc where f: "f = (k, acc)" by (cases f)
  have mem: "(k, acc) \<in> set (scalar_fields c0)" using Cons.prems(2) f by simp
  have acc: "map_of (scalar_fields c0) k = Some acc" using mem assms(4) by (simp add: map_of_eq_Some_iff)
  show ?case
  proof (cases "getenv (env_var k) = []")
    case True
    then show ?thesis using Cons f by (simp add: env_settings_def)
  next
    case False
    then obtain v where v: "setScalar C (scalar_get k c) (getenv (env_var k)) = Inr v"
      "env_layer C getenv fs (scalar_put k v c) = Inr c'"
      using Cons.prems(1) set_field_key [OF mem Cons.prems(3) acc] by (auto simp: f Let_def split: sum.splits)
    have "k \<in> scalar_keys c" using mem Cons.prems(3) by (force simp: scalar_keys_def)
    then have "scalar_fields (scalar_put k v c) = scalar_fields c0"
      using scalar_fields_put Cons.prems(3) by simp
    from Cons.IH [OF v(2) _ this] Cons.prems(2) v(1) False f show ?thesis
      by (simp add: env_settings_def)
  qed
qed (simp add: env_settings_def)

lemma env_settings_keys_subset: "fst ` set (env_settings getenv fs) \<subseteq> fst ` set fs"
  by (force simp: env_settings_def)

lemma env_settings_Cons:
  "env_settings getenv ((k, acc) # fs) =
     (if getenv (env_var k) = [] then [] else [(k, getenv (env_var k))]) @ env_settings getenv fs"
  by (simp add: env_settings_def)

lemma env_settings_distinct: "distinct (map fst fs) \<Longrightarrow> distinct (map fst (env_settings getenv fs))"
proof (induction fs)
  case (Cons f fs)
  then show ?case using env_settings_keys_subset [of getenv fs] by (cases f) (auto simp: env_settings_Cons)
qed (simp add: env_settings_def)

lemma map_of_env_settings:
  "distinct (map fst fs) \<Longrightarrow> map_of (env_settings getenv fs) k =
     (if k \<in> fst ` set fs \<and> getenv (env_var k) \<noteq> [] then Some (getenv (env_var k)) else None)"
proof (induction fs)
  case (Cons f fs)
  then show ?case by (cases f) (auto simp: env_settings_def)
qed (simp add: env_settings_def)

lemma setScalar_kind_cong: "same_kind u v \<Longrightarrow> setScalar C u raw = setScalar C v raw"
  by (cases u) auto

text \<open>C12: the layers take effect in the documented order. When \<open>Resolve\<close> succeeds, every override named a
  scalar key, and each scalar key ends up with the parsed override if there is one, otherwise with the
  parsed environment variable if that is set and not empty, otherwise with the value the files (and the
  defaults below them) gave it; no key is disturbed by another.\<close>

theorem Resolve_precedence:
  assumes "file_layers C fs opts = Inr base" and "distinct (provider_names base)"
    and "distinct (map fst (o_Overrides opts))" and "Resolve C fs opts = Inr c"
  shows "fst ` set (o_Overrides opts) \<subseteq> scalar_keys base \<and> scalar_keys c = scalar_keys base \<and>
    (\<forall>k \<in> scalar_keys base. case map_of (o_Overrides opts) k of
        Some raw \<Rightarrow> setScalar C (scalar_get k base) raw = Inr (scalar_get k c)
      | None \<Rightarrow> (if o_Getenv opts (env_var k) \<noteq> []
          then setScalar C (scalar_get k base) (o_Getenv opts (env_var k)) = Inr (scalar_get k c)
          else scalar_get k c = scalar_get k base))"
proof -
  define es where "es = env_settings (o_Getenv opts) (scalar_fields base)"
  obtain m where m: "env_layer C (o_Getenv opts) (scalar_fields base) base = Inr m"
    "override_layer C (scalar_fields base) (o_Overrides opts) m = Inr c"
    using assms(1,4) by (auto simp: Resolve_def split: sum.splits)
  note distinct = scalar_keys_distinct [OF assms(2)]
  from env_layer_settings [OF m(1) subset_refl refl distinct]
  have env: "apply_settings scalar_get scalar_put C es base = Some m" and fields_m: "scalar_fields m = scalar_fields base"
    by (simp_all add: es_def)
  have es: "fst ` set es \<subseteq> scalar_keys base" "distinct (map fst es)"
    using env_settings_keys_subset env_settings_distinct [OF distinct] by (simp_all add: es_def scalar_keys_def)
  from sc.settings_get [OF env es] have m1: "scalar_keys m = scalar_keys base"
    "\<forall>k \<in> scalar_keys base. case map_of es k of None \<Rightarrow> scalar_get k m = scalar_get k base
       | Some raw \<Rightarrow> setScalar C (scalar_get k base) raw = Inr (scalar_get k m)" by blast+
  from override_layer_settings [OF m(2) fields_m]
  have ov: "apply_settings scalar_get scalar_put C (o_Overrides opts) m = Some c"
    "fst ` set (o_Overrides opts) \<subseteq> scalar_keys base" by blast+
  from sc.settings_get [OF ov(1) _ assms(3)] ov(2) m1(1) have c1: "scalar_keys c = scalar_keys base"
    "\<forall>k \<in> scalar_keys base. case map_of (o_Overrides opts) k of None \<Rightarrow> scalar_get k c = scalar_get k m
       | Some raw \<Rightarrow> setScalar C (scalar_get k m) raw = Inr (scalar_get k c)" by simp_all
  have kind: "same_kind (scalar_get k m) (scalar_get k base)" if "k \<in> scalar_keys base" for k
    using bspec [OF m1(2) that] setScalar_same_kind same_kind_sym by (auto split: option.splits)
  show ?thesis
  proof (intro conjI ballI)
    fix k assume k: "k \<in> scalar_keys base"
    show "case map_of (o_Overrides opts) k of
        Some raw \<Rightarrow> setScalar C (scalar_get k base) raw = Inr (scalar_get k c)
      | None \<Rightarrow> (if o_Getenv opts (env_var k) \<noteq> []
          then setScalar C (scalar_get k base) (o_Getenv opts (env_var k)) = Inr (scalar_get k c)
          else scalar_get k c = scalar_get k base)"
      using bspec [OF m1(2) k] bspec [OF c1(2) k] setScalar_kind_cong [OF kind [OF k]]
        map_of_env_settings [OF distinct, of "o_Getenv opts" k] k
      by (auto simp: es_def scalar_keys_def split: option.splits if_splits)
  qed (use ov(2) c1(1) in auto)
qed

definition plain_cfg_libs :: cfg_libs where
  "plain_cfg_libs = \<lparr>toml_Unmarshal = (\<lambda>_ c. Inr c), ParseFloat = (\<lambda>s. if s = ''2'' then Inr 2 else Inl (Err s)),
     FormatFloat = (\<lambda>_. ''2''), SprintFloat = (\<lambda>_. ''2''), duration_error = Err, re_NumSubexp = (\<lambda>_. 1)\<rparr>"

definition empty_fs :: file_system where
  "empty_fs = \<lparr>fs_Read = (\<lambda>_. NoFile), fs_Stat = (\<lambda>_. NotExist), fs_Abs = (\<lambda>_. Inr [''w''])\<rparr>"

definition sample_options :: options where
  "sample_options = \<lparr>o_GlobalPath = ''g'', o_WorkDir = ''w'',
     o_Getenv = (\<lambda>k. if k = ''DEFIB_LOGGING_LEVEL'' then ''debug'' else []),
     o_Overrides = [(''retry.max_attempts'', ''3''), (''providers.claude.model'', ''m'')]\<rparr>"

text \<open>The one variable the sample sets is that of a text, so the environment's layer accepts it.\<close>

lemma length_env_var: "length (env_var p) = 6 + length p"
  by (simp add: env_var_def ToUpper_def length_ReplaceAll)

lemma env_layer_Inr:
  assumes "\<And>p acc c. (p, acc) \<in> set fs \<Longrightarrow> getenv (env_var p) \<noteq> [] \<Longrightarrow> \<exists>c'. set_field C acc (getenv (env_var p)) c = Inr c'"
  shows "\<exists>c'. env_layer C getenv fs c = Inr c'"
  using assms
proof (induction fs arbitrary: c)
  case (Cons f fs)
  obtain p acc where f: "f = (p, acc)" by (cases f)
  show ?case
  proof (cases "getenv (env_var p) = []")
    case True
    then show ?thesis using Cons f by auto
  next
    case False
    then obtain c' where "set_field C acc (getenv (env_var p)) c = Inr c'" using Cons.prems [of p acc c] f by auto
    then show ?thesis using Cons f False by auto
  qed
qed simp

lemma sample_env: "\<exists>c'. env_layer plain_cfg_libs (o_Getenv sample_options) (scalar_fields Default) c = Inr c'"
proof (rule env_layer_Inr)
  have "list_all (\<lambda>(p, acc). length p = 13 \<longrightarrow> (\<forall>raw c. \<exists>c'. set_field plain_cfg_libs acc raw c = Inr c')) (scalar_fields Default)"
    by (simp add: scalar_fields_def struct_fields_def provider_field_def entry_fields_def Default_def set_field_def)
  moreover fix p acc c assume "(p, acc) \<in> set (scalar_fields Default)" "o_Getenv sample_options (env_var p) \<noteq> []"
  moreover from this have "env_var p = ''DEFIB_LOGGING_LEVEL''" by (simp add: sample_options_def split: if_splits)
  then have "length p = 13" using length_env_var [of p] by simp
  ultimately show "\<exists>c'. set_field plain_cfg_libs acc (o_Getenv sample_options (env_var p)) c = Inr c'"
    by (auto simp: list_all_iff)
qed

theorem Resolve_precedence_witness:
  "\<exists>c. Resolve plain_cfg_libs empty_fs sample_options = Inr c \<and>
     scalar_get ''retry.max_attempts'' c = SInt 3 \<and> scalar_get ''logging.level'' c = SStr ''debug''"
proof -
  have base: "file_layers plain_cfg_libs empty_fs sample_options = Inr Default"
    by (simp add: file_layers_def sample_options_def mergeFile_def empty_fs_def project_layer_def
        findProjectFile_def find_up.simps)
  have names: "distinct (provider_names Default)" by (simp add: Default_def)
  have ov: "distinct (map fst (o_Overrides sample_options))" by (simp add: sample_options_def)
  obtain c1 where env: "env_layer plain_cfg_libs (o_Getenv sample_options) (scalar_fields Default) Default = Inr c1"
    using sample_env by blast
  have three: "Atoi ''3'' = Some 3" by code_simp
  obtain c where c: "Resolve plain_cfg_libs empty_fs sample_options = Inr c"
    using env base by (simp add: Resolve_def) (simp add: sample_options_def scalar_fields_def struct_fields_def provider_field_def
      entry_fields_def Default_def set_field_def three)
  note prec = Resolve_precedence [OF base names ov c]
  have k: "''retry.max_attempts'' \<in> scalar_keys Default" "''logging.level'' \<in> scalar_keys Default"
    by (simp_all add: scalar_keys_def scalar_fields_def struct_fields_def)
  have old: "scalar_get ''retry.max_attempts'' Default = SInt 0" "scalar_get ''logging.level'' Default = SStr ''info''"
    by (simp_all add: scalar_get_def scalar_fields_def struct_fields_def Default_def)
  have p: "Atoi ''3'' = Some 3" "env_var ''logging.level'' = ''DEFIB_LOGGING_LEVEL''" by code_simp+
  show ?thesis
    using c bspec [OF conjunct2 [OF conjunct2 [OF prec]] k(1)] bspec [OF conjunct2 [OF conjunct2 [OF prec]] k(2)]
    by (simp add: sample_options_def old p)
qed

text \<open>Reading a scalar key and setting it to the text that was read changes nothing, and after a key has
  been set to a text its own rendering is what the parsed value renders to. So every key that can be read
  can be set, and the values survive the trip, given that \<open>ParseFloat\<close> inverts \<open>FormatFloat\<close>, as the
  shortest rendering promises, and that integers fit their width.\<close>

theorem scalar_text_roundtrip:
  assumes "GetScalar C c k = Inr raw" and "\<And>f. scalar_get k c = SFloat f \<Longrightarrow> ParseFloat C (FormatFloat C f) = Inr f"
    and "\<And>i. scalar_get k c = SInt i \<Longrightarrow> in_i64 i"
  shows "override_layer C (scalar_fields c) [(k, raw)] c = Inr c"
proof -
  obtain acc where acc: "map_of (scalar_fields c) k = Some acc" "raw = formatScalar C (fst acc c)"
    using assms(1) by (auto simp: GetScalar_def split: option.splits)
  then have k: "(k, acc) \<in> set (scalar_fields c)" "k \<in> scalar_keys c" "raw = formatScalar C (scalar_get k c)"
    using map_of_SomeD [OF acc(1)] by (force simp: scalar_keys_def scalar_get_def split: prod.splits)+
  have "setScalar C (scalar_get k c) raw = Inr (scalar_get k c)"
    using k(3) assms(2,3) by (cases "scalar_get k c") auto
  then show ?thesis
    using set_field_key [OF k(1) refl acc(1), of C raw] sc.put_get [OF k(2)] acc(1) by simp
qed

theorem scalar_text_roundtrip_witness:
  "override_layer plain_cfg_libs (scalar_fields Default) [(''retry.backoff_factor'', ''2'')] Default = Inr Default \<and>
   override_layer plain_cfg_libs (scalar_fields Default) [(''logging.retain_attempts'', ''20'')] Default = Inr Default"
proof -
  have g: "GetScalar plain_cfg_libs Default ''retry.backoff_factor'' = Inr ''2''"
    "GetScalar plain_cfg_libs Default ''logging.retain_attempts'' = Inr ''20''" by code_simp+
  have old: "scalar_get ''retry.backoff_factor'' Default = SFloat 2" "scalar_get ''logging.retain_attempts'' Default = SInt 20"
    by (simp_all add: scalar_get_def scalar_fields_def struct_fields_def Default_def)
  show ?thesis
    using scalar_text_roundtrip [OF g(1)] scalar_text_roundtrip [OF g(2)]
    by (simp add: old plain_cfg_libs_def in_i64_def MinInt64_def MaxInt64_def)
qed

text \<open>The project file is the nearest one: the search returns a file only if it exists and none of the
  directories below it has one, and it returns nothing only if no ancestor has one.\<close>

theorem project_file_nearest:
  "case find_up fs dir of
     Inl e \<Rightarrow> True
   | Inr file \<Rightarrow> (\<exists>below anc. dir = below @ anc \<and>
       (\<forall>n < length below. fs_Stat fs (path_of (''.defib.toml'' # drop n dir)) = NotExist) \<and>
       (if file = [] then anc = [] \<and> fs_Stat fs (path_of [''.defib.toml'']) = NotExist
        else file = path_of (''.defib.toml'' # anc) \<and> fs_Stat fs file = Exists))"
proof (induction dir)
  case Nil
  show ?case by (subst find_up.simps) (auto split: file_stat.split simp: path_of_def)
next
  case (Cons d dir)
  let ?here = "path_of (''.defib.toml'' # d # dir)"
  have ne: "?here \<noteq> []" by (simp add: path_of_def)
  consider "fs_Stat fs ?here = Exists" | e where "fs_Stat fs ?here = StatError e" | "fs_Stat fs ?here = NotExist"
    by (cases "fs_Stat fs ?here")
  then show ?case
  proof cases
    case 1
    then have "find_up fs (d # dir) = Inr ?here" by (subst find_up.simps) simp
    then show ?thesis using 1 ne by (simp, intro exI [of _ "[]"] exI [of _ "d # dir"]) simp
  next
    case (2 e)
    then show ?thesis by (subst find_up.simps) simp
  next
    case 3
    then have up: "find_up fs (d # dir) = find_up fs dir" by (subst find_up.simps) simp
    show ?thesis
    proof (cases "find_up fs dir")
      case (Inr found)
      then obtain below anc where IH: "dir = below @ anc"
        "\<forall>n < length below. fs_Stat fs (path_of (''.defib.toml'' # drop n dir)) = NotExist"
        "if found = [] then anc = [] \<and> fs_Stat fs (path_of [''.defib.toml'']) = NotExist
         else found = path_of (''.defib.toml'' # anc) \<and> fs_Stat fs found = Exists"
        using Cons.IH by auto
      have "\<forall>n < length (d # below). fs_Stat fs (path_of (''.defib.toml'' # drop n (d # dir))) = NotExist"
        using IH(2) 3 by (auto simp: less_Suc_eq_0_disj)
      then show ?thesis unfolding up Inr sum.case
        using IH(1,3) by (intro exI [of _ "d # below"] exI [of _ anc]) simp
    qed (simp add: up)
  qed
qed


definition one_file_fs :: file_system where
  "one_file_fs = empty_fs\<lparr>fs_Stat := (\<lambda>p. if p = ''/a/.defib.toml'' then Exists else NotExist)\<rparr>"

theorem project_file_nearest_witness:
  "find_up one_file_fs [''b'', ''a''] = Inr ''/a/.defib.toml'' \<and>
   (\<exists>below anc. [''b'', ''a''] = below @ anc \<and> ''/a/.defib.toml'' = path_of (''.defib.toml'' # anc) \<and>
     (\<forall>n < length below. fs_Stat one_file_fs (path_of (''.defib.toml'' # drop n [''b'', ''a''])) = NotExist))"
proof -
  have run: "find_up one_file_fs [''b'', ''a''] = Inr ''/a/.defib.toml''" by code_simp
  show ?thesis using project_file_nearest [where fs = one_file_fs and dir = "[''b'', ''a'']"] unfolding run sum.case
    by auto
qed

end
