(* ===== verification/FanOut.thy ===== *)
theory FanOut
  imports Prelude "HOL-Library.Sublist"
begin

text \<open>
  The two fan-outs of the daemon: the bus of task events (\<open>internal/daemon/bus.go\<close>) and the broadcast
  of an interactive task's terminal output with its bounded tail (\<open>internal/daemon/interactive.go\<close>).
  A Go channel is its buffer and whether it is closed; a send in a \<open>select\<close> with a default drops the
  value when the buffer is full. Each operation holds the mutex, so an execution is a sequence of them.
\<close>

section \<open>Channels\<close>

record 'a chan =
  ch_buf :: "'a list"
  ch_closed :: bool

definition open_chan :: "'a chan" where
  "open_chan = \<lparr>ch_buf = [], ch_closed = False\<rparr>"

definition send_nb :: "nat \<Rightarrow> 'a \<Rightarrow> 'a chan \<Rightarrow> 'a chan" where
  "send_nb cap x c = (if length (ch_buf c) < cap then c\<lparr>ch_buf := ch_buf c @ [x]\<rparr> else c)"

definition recv :: "'a chan \<Rightarrow> 'a option \<times> 'a chan" where
  "recv c = (case ch_buf c of [] \<Rightarrow> (None, c) | x # xs \<Rightarrow> (Some x, c\<lparr>ch_buf := xs\<rparr>))"

section \<open>The event bus (\<open>bus.go\<close>)\<close>

record 'a bus =
  bus_next :: int
  bus_subs :: "int set"
  bus_chans :: "int \<rightharpoonup> 'a chan"

definition newBus :: "'a bus" where
  "newBus = \<lparr>bus_next = 0, bus_subs = {}, bus_chans = Map.empty\<rparr>"

definition bus_subscribe :: "'a bus \<Rightarrow> int \<times> 'a bus" where
  "bus_subscribe b = (bus_next b, b\<lparr>bus_next := bus_next b + 1, bus_subs := insert (bus_next b) (bus_subs b),
     bus_chans := (bus_chans b)(bus_next b \<mapsto> open_chan)\<rparr>)"

definition bus_unsubscribe :: "int \<Rightarrow> 'a bus \<Rightarrow> 'a bus" where
  "bus_unsubscribe i b = (if i \<in> bus_subs b
     then b\<lparr>bus_subs := bus_subs b - {i},
            bus_chans := (bus_chans b)(i := map_option (ch_closed_update (\<lambda>_. True)) (bus_chans b i))\<rparr>
     else b)"

definition bus_publish :: "'a \<Rightarrow> 'a bus \<Rightarrow> 'a bus" where
  "bus_publish ev b = b\<lparr>bus_chans := (\<lambda>i. if i \<in> bus_subs b then map_option (send_nb 64 ev) (bus_chans b i)
     else bus_chans b i)\<rparr>"

definition bus_recv :: "int \<Rightarrow> 'a bus \<Rightarrow> 'a option \<times> 'a bus" where
  "bus_recv i b = (case bus_chans b i of None \<Rightarrow> (None, b)
     | Some c \<Rightarrow> (let (r, c') = recv c in (r, b\<lparr>bus_chans := (bus_chans b)(i \<mapsto> c')\<rparr>)))"

section \<open>The terminal broadcast (\<open>interactive.go\<close>)\<close>

record pty_broadcast =
  pb_maxTail :: int
  pb_tail :: string
  pb_subs :: "int set"
  pb_chans :: "int \<rightharpoonup> string chan"
  pb_nextID :: int
  pb_closed :: bool

definition newPTYBroadcast :: "int \<Rightarrow> pty_broadcast" where
  "newPTYBroadcast maxTail = \<lparr>pb_maxTail = (if maxTail \<le> 0 then 65536 else maxTail), pb_tail = [],
     pb_subs = {}, pb_chans = Map.empty, pb_nextID = 0, pb_closed = False\<rparr>"

definition appendBoundedTail :: "string \<Rightarrow> string \<Rightarrow> int \<Rightarrow> string" where
  "appendBoundedTail old p mx = (let t = old @ p in
     if int (length t) > mx then drop (length t - nat mx) t else t)"

definition pty_Write :: "string \<Rightarrow> pty_broadcast \<Rightarrow> pty_broadcast" where
  "pty_Write p b = (if pb_closed b then b
     else b\<lparr>pb_tail := appendBoundedTail (pb_tail b) p (pb_maxTail b),
            pb_chans := (\<lambda>i. if i \<in> pb_subs b then map_option (send_nb 256 p) (pb_chans b i) else pb_chans b i)\<rparr>)"

definition pty_Close :: "pty_broadcast \<Rightarrow> pty_broadcast" where
  "pty_Close b = (if pb_closed b then b
     else b\<lparr>pb_closed := True, pb_subs := {},
            pb_chans := (\<lambda>i. if i \<in> pb_subs b then map_option (ch_closed_update (\<lambda>_. True)) (pb_chans b i)
              else pb_chans b i)\<rparr>)"

definition pty_subscribe :: "pty_broadcast \<Rightarrow> string \<times> int option \<times> pty_broadcast" where
  "pty_subscribe b = (if pb_closed b then (pb_tail b, None, b)
     else (pb_tail b, Some (pb_nextID b), b\<lparr>pb_nextID := pb_nextID b + 1, pb_subs := insert (pb_nextID b) (pb_subs b),
       pb_chans := (pb_chans b)(pb_nextID b \<mapsto> open_chan)\<rparr>))"

definition pty_unsubscribe :: "int \<Rightarrow> pty_broadcast \<Rightarrow> pty_broadcast" where
  "pty_unsubscribe i b = (if i \<in> pb_subs b
     then b\<lparr>pb_subs := pb_subs b - {i},
            pb_chans := (pb_chans b)(i := map_option (ch_closed_update (\<lambda>_. True)) (pb_chans b i))\<rparr>
     else b)"

definition pty_recv :: "int \<Rightarrow> pty_broadcast \<Rightarrow> string option \<times> pty_broadcast" where
  "pty_recv i b = (case pb_chans b i of None \<Rightarrow> (None, b)
     | Some c \<Rightarrow> (let (r, c') = recv c in (r, b\<lparr>pb_chans := (pb_chans b)(i \<mapsto> c')\<rparr>)))"

section \<open>The contract of a fan-out\<close>

text \<open>What the others do between a subscription and its end, and the values the subscriber \<open>i\<close> takes out.\<close>

datatype 'a fan_op = Publish 'a | Receive int | Join | Leave int

record ('a, 'b) fan_ops =
  f_publish :: "'a \<Rightarrow> 'b \<Rightarrow> 'b"
  f_recv :: "int \<Rightarrow> 'b \<Rightarrow> 'a option \<times> 'b"
  f_join :: "'b \<Rightarrow> 'b"
  f_leave :: "int \<Rightarrow> 'b \<Rightarrow> 'b"

fun fan_step :: "('a, 'b) fan_ops \<Rightarrow> int \<Rightarrow> 'a fan_op \<Rightarrow> 'b \<Rightarrow> 'a list \<times> 'b" where
  "fan_step F i (Publish x) b = ([], f_publish F x b)"
| "fan_step F i (Receive j) b = (let (r, b') = f_recv F j b in (if j = i then (case r of None \<Rightarrow> [] | Some x \<Rightarrow> [x]) else [], b'))"
| "fan_step F i Join b = ([], f_join F b)"
| "fan_step F i (Leave j) b = ([], f_leave F j b)"

fun fan_run :: "('a, 'b) fan_ops \<Rightarrow> int \<Rightarrow> 'a fan_op list \<Rightarrow> 'b \<Rightarrow> 'a list \<times> 'b" where
  "fan_run F i [] b = ([], b)"
| "fan_run F i (op # ops) b =
     (let (xs, b') = fan_step F i op b; (ys, b'') = fan_run F i ops b' in (xs @ ys, b''))"

fun published :: "'a fan_op list \<Rightarrow> 'a list" where
  "published [] = []"
| "published (Publish x # ops) = x # published ops"
| "published (_ # ops) = published ops"

text \<open>Whether the subscriber's buffer has room at every publication of a run.\<close>

fun keeps_up :: "('a, 'b) fan_ops \<Rightarrow> ('b \<Rightarrow> int \<Rightarrow> 'a list) \<Rightarrow> nat \<Rightarrow> int \<Rightarrow> 'a fan_op list \<Rightarrow> 'b \<Rightarrow> bool" where
  "keeps_up F buf cap i [] b = True"
| "keeps_up F buf cap i (op # ops) b =
     ((case op of Publish _ \<Rightarrow> length (buf b i) < cap | _ \<Rightarrow> True) \<and>
      keeps_up F buf cap i ops (snd (fan_step F i op b)))"

locale fan_out =
  fixes F :: "('a, 'b) fan_ops" and buf :: "'b \<Rightarrow> int \<Rightarrow> 'a list" and live :: "'b \<Rightarrow> int \<Rightarrow> bool" and cap :: nat
  assumes publish: "live b i \<Longrightarrow> buf (f_publish F x b) i = (if length (buf b i) < cap then buf b i @ [x] else buf b i)"
    and recv_own: "live b i \<Longrightarrow> fst (f_recv F i b) = (case buf b i of [] \<Rightarrow> None | x # xs \<Rightarrow> Some x) \<and>
        buf (snd (f_recv F i b)) i = tl (buf b i)"
    and recv_other: "live b i \<Longrightarrow> j \<noteq> i \<Longrightarrow> buf (snd (f_recv F j b)) i = buf b i"
    and join: "live b i \<Longrightarrow> buf (f_join F b) i = buf b i"
    and leave: "live b i \<Longrightarrow> j \<noteq> i \<Longrightarrow> buf (f_leave F j b) i = buf b i"
    and live_publish: "live b i \<Longrightarrow> live (f_publish F x b) i"
    and live_recv: "live b i \<Longrightarrow> live (snd (f_recv F j b)) i"
    and live_join: "live b i \<Longrightarrow> live (f_join F b) i"
    and live_leave: "live b i \<Longrightarrow> j \<noteq> i \<Longrightarrow> live (f_leave F j b) i"
begin

lemma step_stream:
  assumes "live b i" and "op \<noteq> Leave i" and "fan_step F i op b = (xs, b')"
  shows "live b' i \<and> subseq (xs @ buf b' i) (buf b i @ published [op]) \<and>
    ((case op of Publish _ \<Rightarrow> length (buf b i) < cap | _ \<Rightarrow> True) \<longrightarrow> xs @ buf b' i = buf b i @ published [op])"
proof (cases op)
  case (Publish x)
  then show ?thesis using assms publish [OF assms(1)] live_publish [OF assms(1)] by auto
next
  case (Receive j)
  then show ?thesis using assms recv_own [OF assms(1)] recv_other [OF assms(1), of j] live_recv [OF assms(1), of j]
    by (cases "j = i"; cases "buf b i"; cases "f_recv F j b") auto
next
  case Join
  then show ?thesis using assms join [OF assms(1)] live_join [OF assms(1)] by auto
next
  case (Leave j)
  then show ?thesis using assms leave [OF assms(1), of j] live_leave [OF assms(1), of j] by auto
qed

lemma published_Cons: "published (op # ops) = published [op] @ published ops"
  by (cases op) simp_all

lemma run_stream:
  assumes "live b i" and "Leave i \<notin> set ops" and "fan_run F i ops b = (xs, b')"
  shows "live b' i \<and> subseq (xs @ buf b' i) (buf b i @ published ops) \<and>
    (keeps_up F buf cap i ops b \<longrightarrow> xs @ buf b' i = buf b i @ published ops)"
  using assms
proof (induction ops arbitrary: b xs)
  case (Cons op ops)
  obtain ys b1 where s: "fan_step F i op b = (ys, b1)" by fastforce
  obtain zs where r: "fan_run F i ops b1 = (zs, b')" and xs: "xs = ys @ zs"
    using Cons.prems(3) s by (auto split: prod.splits)
  from step_stream [OF Cons.prems(1) _ s] Cons.prems(2)
  have 1: "live b1 i" "subseq (ys @ buf b1 i) (buf b i @ published [op])"
    "(case op of Publish _ \<Rightarrow> length (buf b i) < cap | _ \<Rightarrow> True) \<longrightarrow> ys @ buf b1 i = buf b i @ published [op]" by auto
  from Cons.IH [OF 1(1) _ r] Cons.prems(2)
  have 2: "live b' i" "subseq (zs @ buf b' i) (buf b1 i @ published ops)"
    "keeps_up F buf cap i ops b1 \<longrightarrow> zs @ buf b' i = buf b1 i @ published ops" by auto
  have "subseq (ys @ zs @ buf b' i) ((ys @ buf b1 i) @ published ops)"
    using 2(2) by (simp add: subseq_append')
  also have "subseq \<dots> ((buf b i @ published [op]) @ published ops)"
    using 1(2) by (simp only: subseq_append)
  finally have "subseq (xs @ buf b' i) (buf b i @ published (op # ops))"
    unfolding xs published_Cons [of op ops] by simp
  moreover have "xs @ buf b' i = buf b i @ published (op # ops)" if "keeps_up F buf cap i (op # ops) b"
  proof -
    have k: "case op of Publish _ \<Rightarrow> length (buf b i) < cap | _ \<Rightarrow> True" "keeps_up F buf cap i ops b1"
      using that s by simp_all
    have "xs @ buf b' i = (ys @ buf b1 i) @ published ops" using 2(3) k(2) by (simp add: xs)
    also have "\<dots> = buf b i @ published (op # ops)" using 1(3) k(1) published_Cons [of op ops] by simp
    finally show ?thesis .
  qed
  ultimately show ?case using 2(1) by blast
qed simp

end

section \<open>The bus and the broadcast keep the contract\<close>

definition bus_ops :: "('a, 'a bus) fan_ops" where
  "bus_ops = \<lparr>f_publish = bus_publish, f_recv = bus_recv, f_join = snd \<circ> bus_subscribe, f_leave = bus_unsubscribe\<rparr>"

definition bus_buf :: "'a bus \<Rightarrow> int \<Rightarrow> 'a list" where
  "bus_buf b i = (case bus_chans b i of None \<Rightarrow> [] | Some c \<Rightarrow> ch_buf c)"

definition bus_live :: "'a bus \<Rightarrow> int \<Rightarrow> bool" where
  "bus_live b i \<longleftrightarrow> i \<in> bus_subs b \<and> bus_chans b i \<noteq> None \<and> i < bus_next b"

definition pty_ops :: "(string, pty_broadcast) fan_ops" where
  "pty_ops = \<lparr>f_publish = pty_Write, f_recv = pty_recv, f_join = snd \<circ> snd \<circ> pty_subscribe, f_leave = pty_unsubscribe\<rparr>"

definition pty_buf :: "pty_broadcast \<Rightarrow> int \<Rightarrow> string list" where
  "pty_buf b i = (case pb_chans b i of None \<Rightarrow> [] | Some c \<Rightarrow> ch_buf c)"

definition pty_live :: "pty_broadcast \<Rightarrow> int \<Rightarrow> bool" where
  "pty_live b i \<longleftrightarrow> \<not> pb_closed b \<and> i \<in> pb_subs b \<and> pb_chans b i \<noteq> None \<and> i < pb_nextID b"

lemmas bus_defs [step_simps] = bus_ops_def bus_buf_def bus_live_def bus_publish_def bus_recv_def recv_def
  bus_subscribe_def bus_unsubscribe_def send_nb_def open_chan_def
lemmas pty_defs [step_simps] = pty_ops_def pty_buf_def pty_live_def pty_Write_def pty_recv_def recv_def
  pty_subscribe_def pty_unsubscribe_def send_nb_def open_chan_def

interpretation bf: fan_out bus_ops bus_buf bus_live 64
  by unfold_locales (auto simp: bus_defs split: option.splits list.splits)

interpretation pf: fan_out pty_ops pty_buf pty_live 256
  by unfold_locales (auto simp: pty_defs split: option.splits list.splits)

text \<open>A subscriber of the bus sees the events published after it joined, in their order: what it has
  received is a subsequence of them whatever the other subscribers do, and nothing is lost as long as it
  never leaves 64 events unread. Publishing never waits: it is a total function of the bus.\<close>

theorem bus_delivers_in_order:
  assumes "bus_subscribe b = (i, b0)" and "Leave i \<notin> set ops" and "fan_run bus_ops i ops b0 = (xs, b')"
  shows "subseq xs (published ops) \<and>
    (keeps_up bus_ops bus_buf 64 i ops b0 \<longrightarrow> xs @ bus_buf b' i = published ops)"
proof -
  have "bus_live b0 i" "bus_buf b0 i = []" using assms(1) by (auto simp: bus_defs)
  with bf.run_stream [OF this(1) assms(2,3)]
  have "subseq (xs @ bus_buf b' i) (published ops)"
    "keeps_up bus_ops bus_buf 64 i ops b0 \<longrightarrow> xs @ bus_buf b' i = published ops" by simp_all
  then show ?thesis by (metis subseq_order.trans subseq_rev_drop_many subseq_order.refl)
qed

theorem bus_delivers_in_order_witness:
  "\<exists>b'. fan_run bus_ops 0 [Publish ''a'', Join, Publish ''b'', Receive 0, Leave 1] (snd (bus_subscribe newBus)) = ([''a''], b') \<and>
     [''a''] @ bus_buf b' 0 = [''a'', ''b'']"
proof -
  let ?ops = "[Publish ''a'', Join, Publish ''b'', Receive 0, Leave 1] :: string fan_op list"
  obtain i b0 where s: "bus_subscribe (newBus :: string bus) = (i, b0)" by fastforce
  obtain xs b' where r: "fan_run bus_ops i ?ops b0 = (xs, b')" by fastforce
  have i: "i = 0" "b0 = snd (bus_subscribe newBus)" using s by (simp_all add: bus_subscribe_def newBus_def)
  have xs: "xs = [''a'']" using r i by (simp add: bus_defs newBus_def)
  have "keeps_up bus_ops bus_buf 64 i ?ops b0" using i by (simp add: bus_defs newBus_def)
  with bus_delivers_in_order [OF s _ r] i xs r show ?thesis by auto
qed

lemma appendBoundedTail_last_n: "0 < mx \<Longrightarrow> appendBoundedTail old p mx = last_n (nat mx) (old @ p)"
  by (auto simp: appendBoundedTail_def last_n_def Let_def)

lemma pty_tail_step:
  assumes "\<not> pb_closed b" and "0 < pb_maxTail b" and "fan_step pty_ops i op b = (xs, b')"
    and "length (pb_tail b) \<le> nat (pb_maxTail b)"
  shows "\<not> pb_closed b' \<and> pb_maxTail b' = pb_maxTail b \<and>
    pb_tail b' = last_n (nat (pb_maxTail b)) (pb_tail b @ concat (published [op]))"
  using assms by (cases op) (auto simp: pty_defs appendBoundedTail_last_n Let_def split: option.splits list.splits if_splits)

lemma pty_tail_run:
  assumes "\<not> pb_closed b" and "0 < pb_maxTail b" and "fan_run pty_ops i ops b = (xs, b')"
    and "length (pb_tail b) \<le> nat (pb_maxTail b)"
  shows "\<not> pb_closed b' \<and> pb_maxTail b' = pb_maxTail b \<and>
    pb_tail b' = last_n (nat (pb_maxTail b)) (pb_tail b @ concat (published ops))"
  using assms
proof (induction ops arbitrary: b xs)
  case (Cons op ops)
  obtain ys b1 where s: "fan_step pty_ops i op b = (ys, b1)" by fastforce
  obtain zs where r: "fan_run pty_ops i ops b1 = (zs, b')" using Cons.prems(3) s by (auto split: prod.splits)
  from pty_tail_step [OF Cons.prems(1,2) s Cons.prems(4)]
  have 1: "\<not> pb_closed b1" "pb_maxTail b1 = pb_maxTail b"
    "pb_tail b1 = last_n (nat (pb_maxTail b)) (pb_tail b @ concat (published [op]))" by auto
  have "pb_tail b' = last_n (nat (pb_maxTail b)) (pb_tail b1 @ concat (published ops)) \<and> \<not> pb_closed b' \<and>
      pb_maxTail b' = pb_maxTail b"
    using Cons.IH [OF 1(1) _ r] 1 Cons.prems(2) by simp
  moreover have "concat (published (op # ops)) = concat (published [op]) @ concat (published ops)"
    by (cases op) simp_all
  ultimately show ?case using 1(3) last_n_append_last_n
    by (metis append_assoc)
qed simp

text \<open>C34: an attach joins the terminal without a gap. A client that attaches after the child has written
  \<open>ops1\<close> first gets the last \<open>maxTail\<close> bytes of that output, and everything it reads afterwards, followed by
  what is still in its buffer, continues exactly there, as long as it never leaves 256 chunks unread; so
  it has seen all of the output when no more than \<open>maxTail\<close> bytes preceded it.\<close>

theorem attach_sees_gapless_output:
  assumes "fan_run pty_ops (-1) ops1 (newPTYBroadcast mx) = (us, b)" and "pty_subscribe b = (replay, Some i, b0)"
    and "Leave i \<notin> set ops2" and "fan_run pty_ops i ops2 b0 = (xs, b')" and "keeps_up pty_ops pty_buf 256 i ops2 b0"
  shows "replay @ concat xs @ concat (pty_buf b' i) =
      last_n (nat (pb_maxTail b)) (concat (published ops1)) @ concat (published ops2) \<and>
    (int (length (concat (published ops1))) \<le> pb_maxTail b \<longrightarrow>
      replay @ concat xs @ concat (pty_buf b' i) = concat (published (ops1 @ ops2)))"
proof -
  have "\<not> pb_closed (newPTYBroadcast mx)" "0 < pb_maxTail (newPTYBroadcast mx)"
    "pb_tail (newPTYBroadcast mx) = []" by (simp_all add: newPTYBroadcast_def)
  with pty_tail_run [OF this(1,2) assms(1)] have b: "\<not> pb_closed b"
    "pb_tail b = last_n (nat (pb_maxTail b)) (concat (published ops1))" by auto
  then have "replay = pb_tail b" "pty_live b0 i" "pty_buf b0 i = []"
    using assms(2) by (auto simp: pty_defs)
  with pf.run_stream [OF this(2) assms(3,4)] assms(5)
  have "xs @ pty_buf b' i = published ops2" by simp
  then have "concat xs @ concat (pty_buf b' i) = concat (published ops2)" by (metis concat_append)
  moreover have "published (ops1 @ ops2) = published ops1 @ published ops2"
    by (induction ops1 rule: published.induct) simp_all
  ultimately show ?thesis using b(2) \<open>replay = pb_tail b\<close> by auto
qed

theorem attach_sees_gapless_output_witness:
  "\<exists>xs b'. fan_run pty_ops 0 [Publish ''gh'', Receive 0, Publish ''i'']
       (snd (snd (pty_subscribe (snd (fan_run pty_ops (-1) [Publish ''abc'', Publish ''def''] (newPTYBroadcast 4)))))) = (xs, b') \<and>
     ''cdef'' @ concat xs @ concat (pty_buf b' 0) = ''cdefghi''"
proof -
  let ?ops1 = "[Publish ''abc'', Publish ''def'']" and ?ops2 = "[Publish ''gh'', Receive 0, Publish ''i'']"
  obtain us b where r1: "fan_run pty_ops (-1) ?ops1 (newPTYBroadcast 4) = (us, b)" by fastforce
  obtain replay io b0 where s: "pty_subscribe b = (replay, io, b0)" by (metis prod_cases3)
  have io: "io = Some 0" "replay = ''cdef''" "pb_maxTail b = 4"
    using s r1 by (auto simp: pty_defs newPTYBroadcast_def appendBoundedTail_def)
  obtain xs b' where r2: "fan_run pty_ops 0 ?ops2 b0 = (xs, b')" by fastforce
  have "keeps_up pty_ops pty_buf 256 0 ?ops2 b0"
    using s r1 by (auto simp: pty_defs newPTYBroadcast_def appendBoundedTail_def)
  from attach_sees_gapless_output [OF r1 s [unfolded io(1)] _ r2 this]
  have "replay @ concat xs @ concat (pty_buf b' 0) = ''cdefghi''" by (simp add: io last_n_def)
  then show ?thesis using r1 s r2 io by (intro exI [of _ xs] exI [of _ b']) simp
qed

text \<open>After the child has exited the broadcast is fixed: nothing is written any more, a late client gets the
  tail and no stream, and closing again does nothing.\<close>

lemma closed_broadcast:
  "pb_closed b \<Longrightarrow> pty_Write p b = b \<and> pty_Close b = b \<and> pty_subscribe b = (pb_tail b, None, b)"
  by (simp add: pty_Write_def pty_Close_def pty_subscribe_def)

lemma pty_Close_closes: "pb_closed (pty_Close b) \<and> pb_tail (pty_Close b) = pb_tail b"
  by (simp add: pty_Close_def)

end
