(* ===== verification/Paths.thy ===== *)
theory Paths
  imports GoStrings
begin

text \<open>
  Directories and per-attempt files (\<open>internal/paths\<close>): the lexical path functions of \<open>path/filepath\<close>
  on a Unix system, the resolution of the configuration, state and runtime directories, and the paths of
  an attempt, which are built only from an identifier that has passed the pattern of a task id.
\<close>

section \<open>Package filepath\<close>

text \<open>\<open>Clean\<close> on the components of a path: empty and \<open>.\<close> components vanish and \<open>..\<close> removes the component
  before it; at the root it vanishes, at the front of a relative path it stays.\<close>

fun clean_comps :: "bool \<Rightarrow> string list \<Rightarrow> string list \<Rightarrow> string list" where
  "clean_comps rooted acc [] = rev acc"
| "clean_comps rooted acc (c # cs) =
     (if c = [] \<or> c = ''.'' then clean_comps rooted acc cs
      else if c = ''..'' then
        (if acc \<noteq> [] \<and> hd acc \<noteq> ''..'' then clean_comps rooted (tl acc) cs
         else if rooted then clean_comps rooted acc cs else clean_comps rooted (''..'' # acc) cs)
      else clean_comps rooted (c # acc) cs)"

definition of_comps :: "bool \<Rightarrow> string list \<Rightarrow> string" where
  "of_comps rooted cs = (if rooted then ''/'' @ Join cs ''/'' else if cs = [] then ''.'' else Join cs ''/'')"

definition Clean :: "string \<Rightarrow> string" where
  "Clean p = (let rooted = HasPrefix p ''/'' in of_comps rooted (clean_comps rooted [] (Split p (CHR ''/''))))"

definition filepath_Join :: "string list \<Rightarrow> string" where
  "filepath_Join elems = (let es = filter (\<lambda>e. e \<noteq> []) elems in if es = [] then [] else Clean (Join es ''/''))"

section \<open>Directories (\<open>paths.go\<close>)\<close>

record dirs =
  dir_Config :: string
  dir_State :: string
  dir_Runtime :: string

definition xdgDir :: "(string \<Rightarrow> string) \<Rightarrow> string \<Rightarrow> string \<Rightarrow> string" where
  "xdgDir getenv envVar fallback =
     (let v = getenv envVar in if v \<noteq> [] then filepath_Join [v, ''defib''] else filepath_Join [fallback, ''defib''])"

definition platform_dirs :: "string \<Rightarrow> (string \<Rightarrow> string) \<Rightarrow> string \<Rightarrow> dirs result" where
  "platform_dirs goos getenv home =
     (if goos = ''linux'' then
        Inr \<lparr>dir_Config = xdgDir getenv ''XDG_CONFIG_HOME'' (filepath_Join [home, ''.config'']),
             dir_State = xdgDir getenv ''XDG_STATE_HOME'' (filepath_Join [home, ''.local'', ''state'']),
             dir_Runtime = (if getenv ''XDG_RUNTIME_DIR'' \<noteq> []
               then filepath_Join [getenv ''XDG_RUNTIME_DIR'', ''defib''] else [])\<rparr>
      else if goos = ''darwin'' then
        (let appSupport = filepath_Join [home, ''Library'', ''Application Support'', ''defib''] in
         Inr \<lparr>dir_Config = appSupport, dir_State = filepath_Join [appSupport, ''state''],
              dir_Runtime = filepath_Join [appSupport, ''run'']\<rparr>)
      else Inl (Err (''resolve paths: unsupported GOOS '' @ Quote goos)))"

definition override_dir :: "(string \<Rightarrow> string) \<Rightarrow> string \<Rightarrow> string \<Rightarrow> string" where
  "override_dir getenv var d = (if getenv var \<noteq> [] then getenv var else d)"

definition resolve_dirs :: "string \<Rightarrow> (string \<Rightarrow> string) \<Rightarrow> string \<Rightarrow> dirs result" where
  "resolve_dirs goos getenv home =
     (case platform_dirs goos getenv home of Inl e \<Rightarrow> Inl e
      | Inr d \<Rightarrow> (let st = override_dir getenv ''DEFIB_STATE_DIR'' (dir_State d);
                       rt = override_dir getenv ''DEFIB_RUNTIME_DIR'' (dir_Runtime d)
                   in Inr \<lparr>dir_Config = override_dir getenv ''DEFIB_CONFIG_DIR'' (dir_Config d),
                           dir_State = st, dir_Runtime = (if rt = [] then st else rt)\<rparr>))"

section \<open>Task and attempt paths (\<open>tasks.go\<close>)\<close>

text \<open>The pattern \<open>^[a-f0-9-]{36}$\<close>.\<close>

definition task_id_char :: "char \<Rightarrow> bool" where
  "task_id_char c \<longleftrightarrow> is_digit c \<or> c \<in> {CHR ''a'', CHR ''b'', CHR ''c'', CHR ''d'', CHR ''e'', CHR ''f'', CHR ''-''}"

definition taskIDPattern :: "string \<Rightarrow> bool" where
  "taskIDPattern s \<longleftrightarrow> length s = 36 \<and> list_all task_id_char s"

definition validateTaskID :: "string \<Rightarrow> go_error option" where
  "validateTaskID i = (if taskIDPattern i then None
     else Some (Err (''invalid task id '' @ Quote i @ '': must match ^[a-f0-9-]{36}$'')))"

definition validateAttempt :: "int \<Rightarrow> go_error option" where
  "validateAttempt n = (if n < 1 then Some (Err (''invalid attempt number '' @ Itoa n @ '': must be >= 1'')) else None)"

definition TaskDir :: "string \<Rightarrow> string \<Rightarrow> string result" where
  "TaskDir stateDir i = (case validateTaskID i of Some e \<Rightarrow> Inl e
     | None \<Rightarrow> Inr (filepath_Join [stateDir, ''tasks'', i]))"

definition AttemptDir :: "string \<Rightarrow> string \<Rightarrow> int \<Rightarrow> string result" where
  "AttemptDir stateDir i n = (case TaskDir stateDir i of Inl e \<Rightarrow> Inl e
     | Inr taskDir \<Rightarrow> (case validateAttempt n of Some e \<Rightarrow> Inl e
         | None \<Rightarrow> Inr (filepath_Join [taskDir, ''attempts'', Itoa n])))"

definition AttemptFiles :: "string \<Rightarrow> string \<Rightarrow> int \<Rightarrow> (string \<times> string \<times> string) result" where
  "AttemptFiles stateDir i n = (case AttemptDir stateDir i n of Inl e \<Rightarrow> Inl e
     | Inr d \<Rightarrow> Inr (filepath_Join [d, ''stdout.log''], filepath_Join [d, ''stderr.log''], filepath_Join [d, ''meta.json'']))"

section \<open>Lexical lemmas\<close>

text \<open>A proper component: what \<open>Clean\<close> keeps.\<close>

definition proper :: "string \<Rightarrow> bool" where
  "proper c \<longleftrightarrow> c \<noteq> [] \<and> c \<noteq> ''.'' \<and> c \<noteq> ''..'' \<and> CHR ''/'' \<notin> set c"

definition comps :: "string \<Rightarrow> string list" where
  "comps p = clean_comps (HasPrefix p ''/'') [] (Split p (CHR ''/''))"

lemma Split_append_sep: "Split (a @ c # b) c = Split a c @ Split b c"
  by (induction a) (auto split: list.splits)

lemma Split_no_seps: "list_all (\<lambda>s. c \<notin> set s) (Split a c)"
  by (induction a) (auto split: list.splits)

lemma Split_Join: "ds \<noteq> [] \<Longrightarrow> list_all (\<lambda>s. CHR ''/'' \<notin> set s) ds \<Longrightarrow> Split (Join ds ''/'') (CHR ''/'') = ds"
proof (induction ds "''/''" rule: Join.induct)
  case (3 x y ys)
  then show ?case by (simp add: Split_append_sep Split_no_sep)
qed (auto simp: Split_no_sep)

lemma clean_comps_proper: "list_all proper cs \<Longrightarrow> clean_comps r acc cs = rev acc @ cs"
  by (induction cs arbitrary: acc) (auto simp: proper_def)

lemma clean_comps_append_proper:
  "list_all proper ds \<Longrightarrow> clean_comps r acc (cs @ ds) = clean_comps r acc cs @ ds"
  by (induction cs arbitrary: acc) (auto simp: clean_comps_proper)

text \<open>The shape of a cleaned list: proper components, below some \<open>..\<close> if the path is relative.\<close>

definition cleaned :: "bool \<Rightarrow> string list \<Rightarrow> bool" where
  "cleaned rooted cs \<longleftrightarrow> (\<exists>k ds. cs = replicate k ''..'' @ ds \<and> list_all proper ds \<and> (rooted \<longrightarrow> k = 0))"

lemma cleaned_snoc: "cleaned r cs \<Longrightarrow> proper c \<Longrightarrow> cleaned r (cs @ [c])"
proof -
  assume "cleaned r cs" "proper c"
  then obtain k ds where "cs @ [c] = replicate k ''..'' @ (ds @ [c])" "list_all proper (ds @ [c])" "r \<longrightarrow> k = 0"
    by (auto simp: cleaned_def)
  then show ?thesis unfolding cleaned_def by blast
qed

lemma cleaned_butlast:
  assumes "cleaned r cs" and "cs \<noteq> []" and "last cs \<noteq> ''..''"
  shows "cleaned r (butlast cs)"
proof -
  obtain k ds where cs: "cs = replicate k ''..'' @ ds" "list_all proper ds" "r \<longrightarrow> k = 0"
    using assms(1) by (auto simp: cleaned_def)
  have "ds \<noteq> []"
  proof
    assume "ds = []"
    then have "last cs = ''..''" using assms(2) cs(1) by simp
    then show False using assms(3) by simp
  qed
  then have "butlast cs = replicate k ''..'' @ butlast ds" "list_all proper (butlast ds)"
    using cs by (auto simp: butlast_append list_all_iff dest: in_set_butlastD)
  then show ?thesis using cs(3) by (auto simp: cleaned_def)
qed

lemma cleaned_up: "cleaned False cs \<Longrightarrow> cs = [] \<or> last cs = ''..'' \<Longrightarrow> cleaned False (cs @ [''..''])"
proof -
  assume a: "cleaned False cs" "cs = [] \<or> last cs = ''..''"
  obtain k ds where cs: "cs = replicate k ''..'' @ ds" "list_all proper ds" using a(1) by (auto simp: cleaned_def)
  have "ds = []"
  proof (rule ccontr)
    assume ne: "ds \<noteq> []"
    then have "proper (last cs)" using cs by (simp add: list_all_iff)
    then show False using a(2) cs ne by (auto simp: proper_def)
  qed
  then have "cs @ [''..''] = replicate (Suc k) ''..'' @ []" using cs(1) by (simp add: replicate_append_same)
  moreover have "list_all proper []" by simp
  ultimately show ?thesis unfolding cleaned_def by blast
qed

lemma clean_comps_cleaned:
  "list_all (\<lambda>s. CHR ''/'' \<notin> set s) cs \<Longrightarrow> cleaned r (rev acc) \<Longrightarrow> cleaned r (clean_comps r acc cs)"
proof (induction cs arbitrary: acc)
  case (Cons c cs)
  have tail: "cleaned r (rev (tl acc))" if "acc \<noteq> []" "hd acc \<noteq> ''..''"
    using cleaned_butlast [OF Cons.prems(2)] that by (cases acc) auto
  have up: "cleaned False (rev (''..'' # acc))" if "\<not> r" "\<not> (acc \<noteq> [] \<and> hd acc \<noteq> ''..'')"
    using cleaned_up [of "rev acc"] Cons.prems(2) that by (cases acc) auto
  have keep: "cleaned r (rev (c # acc))" if "c \<noteq> []" "c \<noteq> ''.''" "c \<noteq> ''..''"
    using cleaned_snoc [OF Cons.prems(2), of c] that Cons.prems(1) by (simp add: proper_def)
  show ?case
  proof (cases "c = ''..''")
    case True
    then show ?thesis using Cons tail up by (cases r) auto
  next
    case False
    then show ?thesis using Cons keep by auto
  qed
qed simp

lemma clean_comps_id: "cleaned r cs \<Longrightarrow> clean_comps r [] cs = cs"
proof -
  assume "cleaned r cs"
  then obtain k ds where cs: "cs = replicate k ''..'' @ ds" "list_all proper ds" "r \<longrightarrow> k = 0"
    by (auto simp: cleaned_def)
  have "clean_comps False (replicate j ''..'') (replicate k ''..'' @ ds) = replicate j ''..'' @ replicate k ''..'' @ ds" for j
  proof (induction k arbitrary: j)
    case 0
    then show ?case using cs(2) by (simp add: clean_comps_proper)
  next
    case (Suc k)
    have "clean_comps False (replicate j ''..'') (replicate (Suc k) ''..'' @ ds)
        = clean_comps False (replicate (Suc j) ''..'') (replicate k ''..'' @ ds)"
      by (cases j) simp_all
    then show ?case using Suc [of "Suc j"] by (simp add: replicate_app_Cons_same)
  qed
  from this [of 0] cs show ?thesis by (cases r) (simp_all add: clean_comps_proper)
qed

lemma cleaned_comps: "cleaned (HasPrefix p ''/'') (comps p)"
proof -
  have "cleaned r (rev [])" for r by (auto simp: cleaned_def)
  then show ?thesis unfolding comps_def by (intro clean_comps_cleaned Split_no_seps)
qed

lemma cleaned_no_slash:
  assumes "cleaned r cs"
  shows "list_all (\<lambda>s. CHR ''/'' \<notin> set s \<and> s \<noteq> []) cs"
proof -
  obtain k ds where cs: "cs = replicate k ''..'' @ ds" "list_all proper ds" using assms by (auto simp: cleaned_def)
  have "CHR ''/'' \<notin> set s \<and> s \<noteq> []" if "s \<in> set cs" for s
  proof (cases "s \<in> set ds")
    case True
    then show ?thesis using cs(2) unfolding list_all_iff proper_def by blast
  next
    case False
    then have "s = ''..''" using that cs(1) by auto
    then show ?thesis by simp
  qed
  then show ?thesis unfolding list_all_iff by blast
qed

text \<open>Reading the components of a rendered clean path gives them back.\<close>

lemma comps_of_comps:
  assumes "cleaned r cs"
  shows "comps (of_comps r cs) = cs \<and> HasPrefix (of_comps r cs) ''/'' = r"
proof (cases "cs = []")
  case True
  then show ?thesis by (simp add: of_comps_def comps_def HasPrefix_def)
next
  case False
  have ns: "list_all (\<lambda>s. CHR ''/'' \<notin> set s) cs" and ne: "hd cs \<noteq> []" "CHR ''/'' \<notin> set (hd cs)"
    using cleaned_no_slash [OF assms] False by (auto simp: list_all_iff)
  have head: "Join cs ''/'' \<noteq> [] \<and> hd (Join cs ''/'') \<noteq> CHR ''/''"
    using False ne by (cases cs; cases "tl cs"; cases "hd cs") auto
  then have rel: "HasPrefix (Join cs ''/'') ''/'' = False" by (cases "Join cs ''/''") (auto simp: HasPrefix_def)
  have "Split (''/'' @ Join cs ''/'') (CHR ''/'') = [] # cs" using Split_Join [OF False ns] by simp
  then show ?thesis
    using assms False rel Split_Join [OF False ns] clean_comps_id [OF assms]
    by (auto simp: of_comps_def comps_def HasPrefix_def)
qed

lemma Clean_comps: "Clean p = of_comps (HasPrefix p ''/'') (comps p)"
  by (simp add: Clean_def comps_def Let_def)

lemma comps_Clean [simp]: "comps (Clean p) = comps p" "HasPrefix (Clean p) ''/'' = HasPrefix p ''/''"
  using comps_of_comps [OF cleaned_comps] by (simp_all add: Clean_comps)

lemma Clean_not_Nil [simp]: "Clean p \<noteq> []"
proof -
  have "Join cs ''/'' \<noteq> []" if "cleaned r cs" "cs \<noteq> []" for r cs
    using cleaned_no_slash [OF that(1)] that(2) by (induction cs "''/''" rule: Join.induct) auto
  then show ?thesis using cleaned_comps by (auto simp: Clean_comps of_comps_def)
qed

lemma HasPrefix_slash_append: "p \<noteq> [] \<Longrightarrow> HasPrefix (p @ q) ''/'' = HasPrefix p ''/''"
  by (cases p) (simp_all add: HasPrefix_def)

text \<open>Joining proper components to a non-empty path appends them to its components.\<close>

lemma Join_below:
  assumes "p \<noteq> []" and "list_all proper ds" and "ds \<noteq> []"
  shows "comps (filepath_Join (p # ds)) = comps p @ ds" "HasPrefix (filepath_Join (p # ds)) ''/'' = HasPrefix p ''/''"
    "filepath_Join (p # ds) \<noteq> []"
proof -
  have f: "filter (\<lambda>e. e \<noteq> []) (p # ds) = p # ds"
    using assms(1,2) by (auto simp: list_all_iff proper_def intro!: filter_True)
  have j: "filepath_Join (p # ds) = Clean (p @ ''/'' @ Join ds ''/'')"
    unfolding filepath_Join_def Let_def f using assms(3) by (cases ds) simp_all
  have "list_all (\<lambda>s. CHR ''/'' \<notin> set s) ds" using assms(2) by (auto simp: list_all_iff proper_def)
  then have "Split (p @ ''/'' @ Join ds ''/'') (CHR ''/'') = Split p (CHR ''/'') @ ds"
    using Split_append_sep [of p "CHR ''/''"] Split_Join [OF assms(3)] by simp
  moreover have "HasPrefix (p @ ''/'' @ Join ds ''/'') ''/'' = HasPrefix p ''/''"
    using assms(1) by (rule HasPrefix_slash_append)
  ultimately show "comps (filepath_Join (p # ds)) = comps p @ ds" "HasPrefix (filepath_Join (p # ds)) ''/'' = HasPrefix p ''/''"
    unfolding j comps_Clean using assms(2) by (simp_all add: comps_def clean_comps_append_proper)
  show "filepath_Join (p # ds) \<noteq> []" by (simp add: j)
qed


section \<open>The attempt files\<close>

lemma task_id_proper:
  assumes "taskIDPattern i"
  shows "proper i"
proof -
  have "length i = 36" "\<And>c. c \<in> set i \<Longrightarrow> task_id_char c" using assms by (auto simp: taskIDPattern_def list_all_iff)
  moreover have "\<not> task_id_char (CHR ''/'')" by (simp add: task_id_char_def is_digit_def)
  ultimately have "CHR ''/'' \<notin> set i" "length i = 36" by blast+
  then show ?thesis by (auto simp: proper_def)
qed

lemma Itoa_pos_proper:
  assumes "1 \<le> n"
  shows "proper (Itoa n)"
proof -
  have i: "Itoa n = nat_dec (nat n)" using assms by (simp add: Itoa_def)
  have "\<And>c. c \<in> set (Itoa n) \<Longrightarrow> is_digit c" using nat_dec_digits by (simp add: i)
  moreover have "Itoa n \<noteq> []" by (simp add: i)
  moreover have "\<not> is_digit (CHR ''/'')" "\<not> is_digit (CHR ''.'')" by (simp_all add: is_digit_def)
  ultimately show ?thesis unfolding proper_def by (metis list.set_intros(1))
qed

lemma AttemptDir_comps:
  assumes "stateDir \<noteq> []"
  shows "AttemptDir stateDir i n = Inr d \<longleftrightarrow> taskIDPattern i \<and> 1 \<le> n \<and>
      d = filepath_Join [filepath_Join [stateDir, ''tasks'', i], ''attempts'', Itoa n]"
    and "AttemptDir stateDir i n = Inr d \<Longrightarrow> comps d = comps stateDir @ [''tasks'', i, ''attempts'', Itoa n] \<and>
      HasPrefix d ''/'' = HasPrefix stateDir ''/'' \<and> d \<noteq> []"
proof -
  show iff: "AttemptDir stateDir i n = Inr d \<longleftrightarrow> taskIDPattern i \<and> 1 \<le> n \<and>
      d = filepath_Join [filepath_Join [stateDir, ''tasks'', i], ''attempts'', Itoa n]"
    by (auto simp: AttemptDir_def TaskDir_def validateTaskID_def validateAttempt_def)
  assume "AttemptDir stateDir i n = Inr d"
  then have d: "taskIDPattern i" "1 \<le> n" "d = filepath_Join [filepath_Join [stateDir, ''tasks'', i], ''attempts'', Itoa n]"
    unfolding iff by auto
  have p: "proper ''tasks''" "proper ''attempts''" by (simp_all add: proper_def)
  have t: "list_all proper [''tasks'', i]" "list_all proper [''attempts'', Itoa n]"
    using p task_id_proper [OF d(1)] Itoa_pos_proper [OF d(2)] by simp_all
  show "comps d = comps stateDir @ [''tasks'', i, ''attempts'', Itoa n] \<and>
      HasPrefix d ''/'' = HasPrefix stateDir ''/'' \<and> d \<noteq> []"
    using Join_below [OF assms t(1)] Join_below [OF _ t(2), of "filepath_Join [stateDir, ''tasks'', i]"] d(3) by simp
qed

lemma attempt_dir_files:
  assumes "stateDir \<noteq> []" and "AttemptFiles stateDir i n = Inr (out, err, meta)"
  shows "taskIDPattern i \<and> 1 \<le> n \<and>
    comps out = comps stateDir @ [''tasks'', i, ''attempts'', Itoa n, ''stdout.log''] \<and>
    comps err = comps stateDir @ [''tasks'', i, ''attempts'', Itoa n, ''stderr.log''] \<and>
    comps meta = comps stateDir @ [''tasks'', i, ''attempts'', Itoa n, ''meta.json'']"
proof -
  obtain d where d: "AttemptDir stateDir i n = Inr d"
    "out = filepath_Join [d, ''stdout.log'']" "err = filepath_Join [d, ''stderr.log'']" "meta = filepath_Join [d, ''meta.json'']"
    using assms(2) by (auto simp: AttemptFiles_def split: sum.splits)
  note D = AttemptDir_comps(1) [OF assms(1), THEN iffD1, OF d(1)] AttemptDir_comps(2) [OF assms(1) d(1)]
  have f: "comps (filepath_Join [d, f]) = comps d @ [f]" if "proper f" for f
    using Join_below(1) [of d "[f]"] D(2) that by simp
  have "proper ''stdout.log''" "proper ''stderr.log''" "proper ''meta.json''" by (simp_all add: proper_def)
  from this [THEN f] show ?thesis using D by (simp add: d)
qed

text \<open>The files of an attempt stay inside the state directory whatever identifier a request carries: an
  identifier that is not 36 characters of lower-case hex and hyphens, or an attempt number below 1, is an
  error; otherwise each path is the state directory's followed by exactly \<open>tasks\<close>, the identifier,
  \<open>attempts\<close>, the number and the file name.\<close>

theorem attempt_files_contained:
  assumes "stateDir \<noteq> []"
  shows "case AttemptFiles stateDir i n of
      Inl e \<Rightarrow> \<not> taskIDPattern i \<or> n < 1
    | Inr (out, err, meta) \<Rightarrow> taskIDPattern i \<and> 1 \<le> n \<and>
        comps out = comps stateDir @ [''tasks'', i, ''attempts'', Itoa n, ''stdout.log''] \<and>
        comps err = comps stateDir @ [''tasks'', i, ''attempts'', Itoa n, ''stderr.log''] \<and>
        comps meta = comps stateDir @ [''tasks'', i, ''attempts'', Itoa n, ''meta.json'']"
proof (cases "AttemptFiles stateDir i n")
  case (Inl e)
  then have "\<not> (taskIDPattern i \<and> 1 \<le> n)"
    using AttemptDir_comps(1) [OF assms, of i n] by (auto simp: AttemptFiles_def split: sum.splits)
  then show ?thesis using Inl by auto
next
  case (Inr r)
  obtain out err meta where r: "r = (out, err, meta)" by (metis prod_cases3)
  show ?thesis using attempt_dir_files [OF assms Inr [unfolded r]] by (simp add: Inr r)
qed

definition sample_id :: string where
  "sample_id = ''0a1b2c3d-0000-4000-8000-00000000000f''"

lemma sample_id_valid: "taskIDPattern sample_id"
  by (simp add: sample_id_def taskIDPattern_def task_id_char_def is_digit_def)

theorem attempt_files_contained_witness:
  "\<exists>out err meta. AttemptFiles ''/var/lib/../defib'' sample_id 3 = Inr (out, err, meta) \<and>
     comps out = [''var'', ''defib'', ''tasks'', sample_id, ''attempts'', ''3'', ''stdout.log'']"
proof -
  have c: "comps ''/var/lib/../defib'' = [''var'', ''defib'']" "Itoa 3 = ''3''" by code_simp+
  show ?thesis
    using attempt_files_contained [of "''/var/lib/../defib''" sample_id 3] sample_id_valid
    by (cases "AttemptFiles ''/var/lib/../defib'' sample_id 3") (auto simp: c)
qed

text \<open>No two attempts share a file: under one state directory, the paths of different tasks or different
  attempts of a task are different.\<close>

theorem attempt_files_distinct:
  assumes "stateDir \<noteq> []" and "AttemptFiles stateDir i n = Inr (o1, e1, m1)" and "AttemptFiles stateDir j k = Inr (o2, e2, m2)"
    and "(i, n) \<noteq> (j, k)"
  shows "{o1, e1, m1} \<inter> {o2, e2, m2} = {}"
proof -
  define pre where "pre i n = comps stateDir @ [''tasks'', i, ''attempts'', Itoa n]" for i n
  have c: "\<forall>f \<in> {out, err, meta}. \<exists>g. comps f = pre i n @ [g]"
    if "AttemptFiles stateDir i n = Inr (out, err, meta)" for i n out err meta
    using attempt_dir_files [OF assms(1), of i n] that by (simp add: pre_def)
  have "pre i n \<noteq> pre j k" using assms(4) Itoa_inj by (auto simp: pre_def)
  then show ?thesis using c [OF assms(2)] c [OF assms(3)] by (metis (no_types, lifting) append1_eq_conv disjoint_iff)
qed

theorem attempt_files_distinct_witness:
  "\<exists>o1 e1 m1 o2 e2 m2. AttemptFiles ''/s'' sample_id 1 = Inr (o1, e1, m1) \<and>
     AttemptFiles ''/s'' sample_id 2 = Inr (o2, e2, m2) \<and> {o1, e1, m1} \<inter> {o2, e2, m2} = {}"
proof -
  have "\<exists>r. AttemptFiles ''/s'' sample_id n = Inr r" if "1 \<le> n" for n
    using sample_id_valid that by (simp add: AttemptFiles_def AttemptDir_def TaskDir_def validateTaskID_def validateAttempt_def)
  from this [of 1] this [of 2] obtain o1 e1 m1 o2 e2 m2 where
    "AttemptFiles ''/s'' sample_id 1 = Inr (o1, e1, m1)" "AttemptFiles ''/s'' sample_id 2 = Inr (o2, e2, m2)"
    by (metis one_le_numeral order_refl prod_cases3)
  then show ?thesis using attempt_files_distinct [of "''/s''" sample_id 1 o1 e1 m1 sample_id 2 o2 e2 m2] by auto
qed

end
