(* ===== verification/Daemon.thy ===== *)
theory Daemon
  imports Supervisor Config FanOut Paths
begin

text \<open>
  The daemon's half of a task (\<open>internal/daemon\<close>): the policy of a task from its configuration
  (\<open>policy.go\<close>), its runtime with the events posted to it (\<open>daemon.go\<close>), the announcement of its
  transitions (\<open>notify.go\<close>), the availability probe (\<open>probe.go\<close>) and the recovery of the tasks at
  start-up (\<open>reconcile.go\<close>). A runtime is a supervisor, its dependencies and the events waiting in its
  channel; the loop of its goroutine is one step per event.
\<close>

section \<open>Policy (\<open>policy.go\<close>)\<close>

definition parse_dur :: "cfg_libs \<Rightarrow> string \<Rightarrow> string \<Rightarrow> duration result" where
  "parse_dur C key v = (case ParseDuration v of Some d \<Rightarrow> Inr d
     | None \<Rightarrow> Inl (Wrap (key @ '': '') (duration_error C v) []))"

definition parse_deadline :: "string \<Rightarrow> time \<Rightarrow> time option result" where
  "parse_deadline v now =
     (if v = [] then Inr None
      else case ParseDuration v of Some d \<Rightarrow> Inr (Some (time_Add now d))
      | None \<Rightarrow> (case parse_RFC3339 v of Some t \<Rightarrow> Inr (Some t)
          | None \<Rightarrow> Inl (Err (''retry.deadline: '' @ Quote v @ '' is neither a duration nor RFC3339''))))"

definition buildPolicy :: "cfg_libs \<Rightarrow> config \<Rightarrow> time \<Rightarrow> sup_policy result" where
  "buildPolicy C cfg now =
     (let r = c_Retry cfg in
      case parse_dur C ''retry.backoff_base'' (r_BackoffBase r) of Inl e \<Rightarrow> Inl e | Inr base \<Rightarrow>
      (case parse_dur C ''retry.backoff_max'' (r_BackoffMax r) of Inl e \<Rightarrow> Inl e | Inr bmax \<Rightarrow>
      (case parse_dur C ''retry.reset_buffer'' (r_ResetBuffer r) of Inl e \<Rightarrow> Inl e | Inr buffer \<Rightarrow>
      (case parse_dur C ''availability.poll_interval'' (a_PollInterval (c_Availability cfg)) of Inl e \<Rightarrow> Inl e | Inr poll \<Rightarrow>
      (case (if r_MaxTotalWait r = [] then Inr 0 else parse_dur C ''retry.max_total_wait'' (r_MaxTotalWait r)) of
         Inl e \<Rightarrow> Inl e | Inr totalWait \<Rightarrow>
      (case parse_deadline (r_Deadline r) now of Inl e \<Rightarrow> Inl e | Inr dl \<Rightarrow>
         Inr \<lparr>Scheduler_policy = \<lparr>BackoffBase = base, BackoffFactor = r_BackoffFactor r, BackoffMax = bmax,
                BackoffJitter = r_BackoffJitter r, ResetBuffer = buffer, MaxAttempts = r_MaxAttempts r,
                Deadline = dl, MaxTotalWait = totalWait\<rparr>,
              OnUnknown = r_OnUnknown r, ScanBytes = c_ScanBytes cfg, ProbeInterval = poll\<rparr>))))))"

definition providerConfigMap :: "cfg_provider \<Rightarrow> string \<rightharpoonup> cfg_value" where
  "providerConfigMap p = [''binary'' \<mapsto> VString (p_Binary p), ''model'' \<mapsto> VString (p_Model p),
     ''resume_prompt'' \<mapsto> VString (p_ResumePrompt p), ''unattended'' \<mapsto> VBool (p_Unattended p),
     ''extra_args'' \<mapsto> VStrings (p_ExtraArgs p), ''script'' \<mapsto> VString (p_Script p)]"

definition configRule :: "cfg_rule \<Rightarrow> rule" where
  "configRule r = \<lparr>rule_Name = cr_Name r, rule_Category = cr_Category r, rule_Priority = cr_Priority r,
     rule_Match = \<lparr>ExitCodeIn = m_ExitCodeIn (cr_Match r), StdoutRegex = m_StdoutRegex (cr_Match r),
       StderrRegex = m_StderrRegex (cr_Match r), AnyRegex = m_AnyRegex (cr_Match r)\<rparr>,
     rule_Reset = map_option (\<lambda>x. \<lparr>x_Source = ce_Source x, x_Regex = ce_Regex x, x_Kind = ce_Kind x,
       x_Format = ce_Format x\<rparr>) (cr_ResetExtractor r)\<rparr>"

definition configRules :: "config \<Rightarrow> rule list" where
  "configRules cfg = map configRule (c_Rules cfg)"

section \<open>The daemon's state (\<open>daemon.go\<close>)\<close>

text \<open>What the daemon is given: its registry and directories, the libraries, the streams of the outside
  (as in \<open>deps\<close>), and the JSON encoding of the configuration snapshot and of an event.\<close>

record task_event =
  te_TaskID :: string
  te_Name :: string
  te_Status :: status
  te_Outcome :: string
  te_ExitReason :: string
  te_NextWakeAt :: "time option"
  te_TS :: time

record outside =
  o_registry :: registry
  o_dirs :: dirs
  o_libs :: libs
  o_cfg :: cfg_libs
  o_fs :: file_system
  o_getenv :: "string \<Rightarrow> string"
  o_lookPath :: "string \<Rightarrow> go_error option"
  o_stat :: "string \<Rightarrow> go_error option"
  o_rng :: rng
  o_clock :: "nat \<Rightarrow> time"
  o_spawn :: "nat \<Rightarrow> int result"
  o_kill :: "nat \<Rightarrow> go_error option"
  o_uuid :: "nat \<Rightarrow> string"
  o_fault :: "nat \<Rightarrow> tx_fault"
  o_json :: "(string \<times> json_val) list \<Rightarrow> string"
  o_marshal :: "config \<Rightarrow> string"
  o_unmarshal :: "string \<Rightarrow> config result"
  o_event_json :: "task_event \<Rightarrow> string"

record runtime =
  rt_sup :: supervisor
  rt_deps :: deps
  rt_cfg :: config
  rt_interactive :: bool
  rt_bcast :: "pty_broadcast option"
  rt_events :: "event list"

record daemon =
  dm_world :: world
  dm_runtimes :: "string \<rightharpoonup> runtime"
  dm_bus :: "task_event bus"
  dm_hooks :: "string list list"
  dm_shutdown :: "bool option"

definition now_of :: "outside \<Rightarrow> daemon \<Rightarrow> time \<times> daemon" where
  "now_of G d = (o_clock G (w_step (dm_world d)),
     d\<lparr>dm_world := (dm_world d)\<lparr>w_step := Suc (w_step (dm_world d))\<rparr>\<rparr>)"

section \<open>Announcements (\<open>notify.go\<close>)\<close>

definition event_of_task :: "task \<Rightarrow> task_event" where
  "event_of_task t = \<lparr>te_TaskID = ID t, te_Name = Name t, te_Status = Status t, te_Outcome = deref (LastOutcome t),
     te_ExitReason = deref (ExitReason t), te_NextWakeAt = NextWakeAt t, te_TS = UpdatedAt t\<rparr>"

definition fireHook :: "outside \<Rightarrow> string list \<Rightarrow> task_event \<Rightarrow> daemon \<Rightarrow> daemon" where
  "fireHook G argv ev d = d\<lparr>dm_hooks := dm_hooks d @ [argv @ [o_event_json G ev]]\<rparr>"

definition notifyFunc :: "outside \<Rightarrow> config \<Rightarrow> task \<Rightarrow> daemon \<Rightarrow> daemon" where
  "notifyFunc G cfg t d0 =
     (let ev = event_of_task t; d = d0\<lparr>dm_bus := bus_publish ev (dm_bus d0)\<rparr>;
          argv = n_OnStateChange (c_Notifications cfg)
      in if argv = [] \<or> status_String (Status t) \<notin> set (n_Events (c_Notifications cfg)) then d
         else fireHook G argv ev d)"

section \<open>The availability probe (\<open>probe.go\<close>)\<close>

datatype probeResult = probeAvailable | probeUnavailable | probeError

record probeRunner =
  pr_failures :: nat
  pr_nextAllowed :: "time option"

abbreviation probeBackoffBase :: duration where "probeBackoffBase \<equiv> Minute"
abbreviation probeBackoffMax :: duration where "probeBackoffMax \<equiv> 15 * Minute"

text \<open>The loop of \<open>backoffDelay\<close>: \<open>n\<close> doublings from \<open>dl\<close>, left as soon as the maximum is reached.\<close>

fun backoff_loop :: "nat \<Rightarrow> duration \<Rightarrow> duration" where
  "backoff_loop 0 dl = (if dl > probeBackoffMax then probeBackoffMax else dl)"
| "backoff_loop (Suc n) dl = (if dl * 2 \<ge> probeBackoffMax then probeBackoffMax else backoff_loop n (dl * 2))"

definition backoffDelay :: "probeRunner \<Rightarrow> duration" where
  "backoffDelay p = backoff_loop (pr_failures p - 1) probeBackoffBase"

text \<open>\<open>outcome\<close> is how the command ends at this time, asked for only when the runner is not backing
  off; the result tells whether the provider looks available and whether the command was run.\<close>

definition probe :: "time \<Rightarrow> time \<Rightarrow> probeResult \<Rightarrow> probeRunner \<Rightarrow> bool \<times> bool \<times> probeRunner" where
  "probe now after outcome p =
     (if (case pr_nextAllowed p of None \<Rightarrow> False | Some t \<Rightarrow> now < t) then (False, False, p)
      else (case outcome of
          probeAvailable \<Rightarrow> (True, True, p\<lparr>pr_failures := 0, pr_nextAllowed := None\<rparr>)
        | probeUnavailable \<Rightarrow> (False, True, p\<lparr>pr_failures := 0, pr_nextAllowed := None\<rparr>)
        | probeError \<Rightarrow> (let p' = p\<lparr>pr_failures := Suc (pr_failures p)\<rparr>
            in (False, True, p'\<lparr>pr_nextAllowed := Some (time_Add after (backoffDelay p'))\<rparr>))))"

definition newProbe :: "config \<Rightarrow> probeRunner option" where
  "newProbe cfg = (if a_Command (c_Availability cfg) = [] then None
     else Some \<lparr>pr_failures = 0, pr_nextAllowed = None\<rparr>)"

section \<open>Runtimes\<close>

definition postEvent :: "string \<Rightarrow> event \<Rightarrow> daemon \<Rightarrow> daemon" where
  "postEvent i ev d = (case dm_runtimes d i of None \<Rightarrow> d
     | Some rt \<Rightarrow> d\<lparr>dm_runtimes := (dm_runtimes d)(i \<mapsto> rt\<lparr>rt_events := rt_events rt @ [ev]\<rparr>)\<rparr>)"

definition task_deps :: "outside \<Rightarrow> config \<Rightarrow> provider \<Rightarrow> engine \<Rightarrow> deps" where
  "task_deps G cfg prov e =
     \<lparr>d_provider = prov, d_libs = o_libs G, d_engine = e, d_rng = o_rng G, d_clock = o_clock G,
      d_spawn = o_spawn G, d_kill = o_kill G, d_uuid = o_uuid G, d_fault = o_fault G,
      d_files = (\<lambda>i n. case AttemptFiles (dir_State (o_dirs G)) i n of Inl e \<Rightarrow> Inl e | Inr (so, se, _) \<Rightarrow> Inr (so, se)),
      d_probe = (newProbe cfg \<noteq> None), d_json = o_json G\<rparr>"

definition task_spec_of :: "config \<Rightarrow> task \<Rightarrow> task_spec" where
  "task_spec_of cfg t = (let pc = entry_of (Provider t) cfg in
     \<lparr>ts_Prompt = deref (Prompt t), ts_Passthrough = Args t, ts_Cwd = Cwd t, ts_Mode = Mode t, ts_SessionRef = [],
      ts_Model = p_Model pc, ts_ProviderConfig = providerConfigMap pc\<rparr>)"

definition startRuntime :: "outside \<Rightarrow> task \<Rightarrow> config \<Rightarrow> provider \<Rightarrow> daemon \<Rightarrow> go_error option \<times> daemon" where
  "startRuntime G t cfg prov d0 =
     (let (now, d) = now_of G d0 in
      case buildPolicy (o_cfg G) cfg now of
        Inl e \<Rightarrow> (Some (Wrap (''daemon: task '' @ ID t @ '' policy: '') e []), d)
      | Inr pol \<Rightarrow>
        (case NewEngine (o_libs G) (Merge (p_DetectionRules prov) (configRules cfg)) of
           Inl e \<Rightarrow> (Some (Wrap (''daemon: task '' @ ID t @ '' detection rules: '') e []), d)
         | Inr e \<Rightarrow> (None, d\<lparr>dm_runtimes := (dm_runtimes d)(ID t \<mapsto>
              \<lparr>rt_sup = New t (task_spec_of cfg t) pol, rt_deps = task_deps G cfg prov e, rt_cfg = cfg,
               rt_interactive = (Mode t = ''interactive'' \<and> cap_Interactive (p_Capabilities prov)), rt_bcast = None,
               rt_events = []\<rparr>)\<rparr>)))"

text \<open>One turn of the goroutine that runs the supervisor of task \<open>i\<close>: the next event is handled, and the
  transitions it commits are announced. An interactive child that was started gets a fresh broadcast
  (\<open>spawnPTY\<close>). The runtime is dropped when the task is terminal or the handler reports an error (which
  is only logged).\<close>

definition announced :: "effect list \<Rightarrow> effect list \<Rightarrow> task list" where
  "announced before after = List.map_filter (\<lambda>e. case e of Notified t \<Rightarrow> Some t | _ \<Rightarrow> None) (drop (length before) after)"

definition child_started :: "effect list \<Rightarrow> effect list \<Rightarrow> bool" where
  "child_started before after \<longleftrightarrow>
     list_ex (\<lambda>e. case e of Spawned _ _ (Inr _) \<Rightarrow> True | _ \<Rightarrow> False) (drop (length before) after)"

definition after_spawn :: "bool \<Rightarrow> runtime \<Rightarrow> runtime" where
  "after_spawn started rt = (if started \<and> rt_interactive rt
     then rt\<lparr>rt_bcast := Some (newPTYBroadcast (ScanBytes (s_policy (rt_sup rt))))\<rparr> else rt)"

definition loop_turn :: "outside \<Rightarrow> string \<Rightarrow> daemon \<Rightarrow> daemon" where
  "loop_turn G i d =
     (case dm_runtimes d i of None \<Rightarrow> d
      | Some rt \<Rightarrow>
        if Terminal (Status (s_task (rt_sup rt))) then d\<lparr>dm_runtimes := (dm_runtimes d)(i := None)\<rparr>
        else (case rt_events rt of [] \<Rightarrow> d
          | ev # evs \<Rightarrow>
            (let (err, s, w) = Handle (rt_deps rt) ev (rt_sup rt) (dm_world d);
                 tr = w_trace (dm_world d);
                 d1 = d\<lparr>dm_world := w, dm_runtimes := (dm_runtimes d)(i :=
                   (if err \<noteq> None \<or> Terminal (Status (s_task s)) then None
                    else Some (after_spawn (child_started tr (w_trace w)) (rt\<lparr>rt_sup := s, rt_events := evs\<rparr>))))\<rparr>
             in fold (notifyFunc G (rt_cfg rt)) (announced tr (w_trace w)) d1)))"

text \<open>The child of task \<open>i\<close>: terminal output of an interactive one, and the exit that its waiter posts. The
  waiter first clears the runtime's handle; a terminal has no separate error stream.\<close>

definition child_writes :: "string \<Rightarrow> string \<Rightarrow> daemon \<Rightarrow> daemon" where
  "child_writes i p d = (case dm_runtimes d i of None \<Rightarrow> d
     | Some rt \<Rightarrow> d\<lparr>dm_runtimes := (dm_runtimes d)(i \<mapsto> rt\<lparr>rt_bcast := map_option (pty_Write p) (rt_bcast rt)\<rparr>)\<rparr>)"

definition child_exits :: "string \<Rightarrow> int \<Rightarrow> string \<Rightarrow> string \<Rightarrow> daemon \<Rightarrow> daemon" where
  "child_exits i code out err d = (case dm_runtimes d i of None \<Rightarrow> d
     | Some rt \<Rightarrow> postEvent i (EventAttemptExit code (Tail out (ScanBytes (s_policy (rt_sup rt))))
           (if rt_interactive rt then [] else Tail err (ScanBytes (s_policy (rt_sup rt)))))
         (d\<lparr>dm_runtimes := (dm_runtimes d)(i \<mapsto> rt\<lparr>rt_bcast := None\<rparr>)\<rparr>))"

text \<open>A timer's goroutine and \<open>onTimerFire\<close>.\<close>

definition timer_fires :: "nat \<Rightarrow> daemon \<Rightarrow> daemon" where
  "timer_fires a d = (case timer_expire a (w_timers (dm_world d)) of
     (ts, fired) \<Rightarrow> (let d' = d\<lparr>dm_world := (dm_world d)\<lparr>w_timers := ts\<rparr>\<rparr>
       in case fired of None \<Rightarrow> d' | Some i \<Rightarrow> postEvent i EventTimerFire d'))"

section \<open>Recovery (\<open>reconcile.go\<close>)\<close>

definition openAttempt :: "task \<Rightarrow> daemon \<Rightarrow> attempt option result" where
  "openAttempt t d = (case ListAttempts (ID t) (w_db (dm_world d)) of
     Inl e \<Rightarrow> Inl (Wrap ''list attempts: '' e [])
   | Inr as \<Rightarrow> Inr (List.find (\<lambda>a. a_EndedAt a = None) as))"

abbreviation daemon_interrupted :: string where "daemon_interrupted \<equiv> ''daemon_interrupted''"

definition interrupted_wake :: "outside \<Rightarrow> config \<Rightarrow> sup_policy \<Rightarrow> task \<Rightarrow> time \<Rightarrow> daemon \<Rightarrow> time \<times> daemon" where
  "interrupted_wake G cfg pol t now d =
     (if r_OnInterrupt (c_Retry cfg) \<noteq> ''resume_now''
      then (let (nw, k) = NextWake (Scheduler_policy pol) (TotalAttempts t) None now (o_rng G) (w_rng (dm_world d))
            in (nw, d\<lparr>dm_world := (dm_world d)\<lparr>w_rng := k\<rparr>\<rparr>))
      else (now, d))"

definition close_interrupted :: "time \<Rightarrow> attempt \<Rightarrow> attempt" where
  "close_interrupted now a = a\<lparr>a_EndedAt := Some now, a_Outcome := Some CategoryUnknown,
     a_MatchedRule := Some daemon_interrupted\<rparr>"

definition interrupted_task :: "time \<Rightarrow> time \<Rightarrow> task \<Rightarrow> task" where
  "interrupted_task now nextWake t = t\<lparr>Status := WAITING, LastOutcome := Some CategoryUnknown, LastResetAt := None,
     NextWakeAt := Some nextWake, UpdatedAt := now\<rparr>"

definition interrupted_tx :: "outside \<Rightarrow> task \<Rightarrow> time \<Rightarrow> time \<Rightarrow> attempt option \<Rightarrow> db \<Rightarrow> db result" where
  "interrupted_tx G t now nextWake op =
     and_then (case op of None \<Rightarrow> Inr | Some a \<Rightarrow> Tx_UpdateAttempt (close_interrupted now a))
       (and_then (event_stmt (ID t) now ''attempt_exit'' (o_json G [(''outcome'', JStr CategoryUnknown),
            (''rule'', JStr daemon_interrupted), (''attempt'', JInt (CurrentAttempt t))]))
         (and_then (event_stmt (ID t) now ''scheduled'' (o_json G [(''next_wake_at'', JStr (format_RFC3339Nano nextWake)),
              (''cause'', JStr daemon_interrupted)]))
           (Tx_UpdateTask (interrupted_task now nextWake t))))"

definition recoverInterrupted :: "outside \<Rightarrow> task \<Rightarrow> config \<Rightarrow> daemon \<Rightarrow> task result \<times> daemon" where
  "recoverInterrupted G t cfg d0 =
     (let (now, d1) = now_of G d0 in
      case buildPolicy (o_cfg G) cfg now of
        Inl e \<Rightarrow> (Inl (Wrap ''policy: '' e []), d1)
      | Inr pol \<Rightarrow>
        (let (nextWake, d2) = interrupted_wake G cfg pol t now d1 in
         case openAttempt t d2 of
           Inl e \<Rightarrow> (Inl e, d2)
         | Inr op \<Rightarrow>
           (let w = dm_world d2;
                (err, db') = UpdateTaskTx (o_fault G (w_step w)) (interrupted_tx G t now nextWake op) (w_db w);
                d3 = d2\<lparr>dm_world := w\<lparr>w_db := db', w_step := Suc (w_step w)\<rparr>\<rparr>;
                t' = interrupted_task now nextWake t
            in case err of
                 Some e \<Rightarrow> (Inl (Wrap ''persist interrupted attempt: '' e []), d3)
               | None \<Rightarrow> (Inr t', notifyFunc G cfg t' d3))))"

definition arm_wake :: "outside \<Rightarrow> task \<Rightarrow> daemon \<Rightarrow> daemon" where
  "arm_wake G t d0 =
     (let (now, d1) = now_of G d0; wake_at = (case NextWakeAt t of Some nw \<Rightarrow> nw | None \<Rightarrow> now);
          (now', d) = now_of G d1
      in d\<lparr>dm_world := (dm_world d)\<lparr>w_timers := timers_Arm now' (ID t) wake_at (w_timers (dm_world d))\<rparr>\<rparr>)"

definition reconcileTask :: "outside \<Rightarrow> task \<Rightarrow> daemon \<Rightarrow> go_error option \<times> daemon" where
  "reconcileTask G t d =
     (case o_unmarshal G (ConfigJSON t) of
        Inl e \<Rightarrow> (Some (Wrap ''config snapshot: '' e []), d)
      | Inr cfg \<Rightarrow> (case registry_Get (o_registry G) (Provider t) of
          Inl e \<Rightarrow> (Some (Wrap ''provider: '' e []), d)
        | Inr prov \<Rightarrow>
          (case (if Status t = RUNNING then recoverInterrupted G t cfg d else (Inr t, d)) of
             (Inl e, d1) \<Rightarrow> (Some e, d1)
           | (Inr t', d1) \<Rightarrow>
             (case startRuntime G t' cfg prov d1 of
                (Some e, d2) \<Rightarrow> (Some e, d2)
              | (None, d2) \<Rightarrow>
                (None, case Status t' of WAITING \<Rightarrow> arm_wake G t' d2
                   | PENDING \<Rightarrow> postEvent (ID t') EventStart d2
                   | _ \<Rightarrow> d2)))))"

text \<open>A task that cannot be restored is logged and skipped.\<close>

definition reconcile_one :: "outside \<Rightarrow> task \<Rightarrow> daemon \<Rightarrow> daemon" where
  "reconcile_one G t d =
     (if Terminal (Status t) \<or> dm_runtimes d (ID t) \<noteq> None then d else snd (reconcileTask G t d))"

definition Reconcile :: "outside \<Rightarrow> daemon \<Rightarrow> go_error option \<times> daemon" where
  "Reconcile G d = (case ListTasks (w_db (dm_world d)) of
     Inl e \<Rightarrow> (Some (Wrap ''daemon: reconcile: '' e []), d)
   | Inr ts \<Rightarrow> (None, fold (reconcile_one G) ts d))"

end
