(* ===== verification/Ipc.thy ===== *)
theory Ipc
  imports GoStrings
begin

text \<open>
  The Unix-socket protocol (\<open>internal/ipc\<close>): envelopes and error codes (\<open>ipc.go\<close>), the server that
  reads one request per line, runs its handler and writes the response envelopes (\<open>server.go\<close>), and the
  client that matches them by identifier (\<open>client.go\<close>). JSON values are their raw text; decoding a line,
  and marshalling a handler's result, are where the encoder's failures enter.
\<close>

section \<open>Envelopes (\<open>ipc.go\<close>)\<close>

record request =
  req_ID :: string
  req_Method :: string
  req_Params :: string

record response =
  resp_ID :: string
  resp_OK :: bool
  resp_Result :: "string option"
  resp_Stream :: bool
  resp_Event :: "string option"
  resp_Done :: bool
  resp_Error :: "(string \<times> string) option"

abbreviation CodeNotFound :: string where "CodeNotFound \<equiv> ''not_found''"
abbreviation CodeInvalidParams :: string where "CodeInvalidParams \<equiv> ''invalid_params''"
abbreviation CodeConflict :: string where "CodeConflict \<equiv> ''conflict''"
abbreviation CodeProviderUnavailable :: string where "CodeProviderUnavailable \<equiv> ''provider_unavailable''"
abbreviation CodeInternal :: string where "CodeInternal \<equiv> ''internal''"

definition ok_response :: "string \<Rightarrow> string \<Rightarrow> response" where
  "ok_response i raw = \<lparr>resp_ID = i, resp_OK = True, resp_Result = Some raw, resp_Stream = False, resp_Event = None,
     resp_Done = False, resp_Error = None\<rparr>"

definition done_response :: "string \<Rightarrow> response" where
  "done_response i = \<lparr>resp_ID = i, resp_OK = True, resp_Result = None, resp_Stream = False, resp_Event = None,
     resp_Done = True, resp_Error = None\<rparr>"

definition error_response :: "string \<Rightarrow> string \<times> string \<Rightarrow> response" where
  "error_response i e = \<lparr>resp_ID = i, resp_OK = False, resp_Result = None, resp_Stream = False, resp_Event = None,
     resp_Done = False, resp_Error = Some e\<rparr>"

text \<open>\<open>Stream.Send\<close>.\<close>

definition stream_response :: "string \<Rightarrow> string \<Rightarrow> response" where
  "stream_response i ev = \<lparr>resp_ID = i, resp_OK = True, resp_Result = None, resp_Stream = True, resp_Event = Some ev,
     resp_Done = False, resp_Error = None\<rparr>"

section \<open>The server (\<open>server.go\<close>)\<close>

text \<open>What a call of a handler ends with: a result, as its JSON text or the error of marshalling it; nothing,
  after streaming; an error; or a panic with its value's text.\<close>

datatype handler_end =
    Returns "string result"
  | Streamed
  | Fails go_error
  | Panics string

text \<open>A handler runs on the server's state and sends chunks before it ends.\<close>

type_synonym 's handler = "string \<Rightarrow> 's \<Rightarrow> string list \<times> handler_end \<times> 's"

text \<open>\<open>errors.As\<close> for the typed error: the first one of the chain.\<close>

fun as_ipc_error :: "go_error \<Rightarrow> (string \<times> string) option"
  and first_ipc_error :: "go_error list \<Rightarrow> (string \<times> string) option" where
  "as_ipc_error (IpcError c m) = Some (c, m)"
| "as_ipc_error (Wrap pre e post) = as_ipc_error e"
| "as_ipc_error (Joined es) = first_ipc_error es"
| "as_ipc_error _ = None"
| "first_ipc_error [] = None"
| "first_ipc_error (e # es) = (case as_ipc_error e of Some x \<Rightarrow> Some x | None \<Rightarrow> first_ipc_error es)"

definition toIPCError :: "go_error \<Rightarrow> string \<times> string" where
  "toIPCError e = (case as_ipc_error e of Some ce \<Rightarrow> ce | None \<Rightarrow> (CodeInternal, err_text e))"

text \<open>\<open>invoke\<close> turns a panic into an error.\<close>

definition invoke :: "'s handler \<Rightarrow> string \<Rightarrow> 's \<Rightarrow> string list \<times> handler_end \<times> 's" where
  "invoke fn params s = (case fn params s of
     (evs, Panics v, s') \<Rightarrow> (evs, Fails (IpcError CodeInternal (''handler panic: '' @ v)), s')
   | r \<Rightarrow> r)"

definition terminal_response :: "string \<Rightarrow> handler_end \<Rightarrow> response" where
  "terminal_response i e = (case e of
     Fails err \<Rightarrow> error_response i (toIPCError err)
   | Panics v \<Rightarrow> error_response i (CodeInternal, ''handler panic: '' @ v)
   | Streamed \<Rightarrow> done_response i
   | Returns (Inl err) \<Rightarrow> error_response i (CodeInternal, ''marshal result: '' @ err_text err)
   | Returns (Inr raw) \<Rightarrow> ok_response i raw)"

definition handleRequest :: "(string \<rightharpoonup> 's handler) \<Rightarrow> request \<Rightarrow> 's \<Rightarrow> response list \<times> 's" where
  "handleRequest handlers req s = (case handlers (req_Method req) of
     None \<Rightarrow> ([error_response (req_ID req) (CodeNotFound, ''unknown method '' @ Quote (req_Method req))], s)
   | Some fn \<Rightarrow> (case invoke fn (req_Params req) s of
       (evs, e, s') \<Rightarrow> (map (stream_response (req_ID req)) evs @ [terminal_response (req_ID req) e], s')))"

text \<open>\<open>Server.Handle\<close>.\<close>

definition register_handler :: "string \<Rightarrow> 's handler \<Rightarrow> (string \<rightharpoonup> 's handler) \<Rightarrow> string \<rightharpoonup> 's handler" where
  "register_handler method fn handlers = handlers(method \<mapsto> fn)"

text \<open>The loop of \<open>serveConn\<close> over the lines of a connection, decoded; the requests of a connection are
  served one after the other.\<close>

fun serveConn :: "(string \<rightharpoonup> 's handler) \<Rightarrow> (string \<Rightarrow> request result) \<Rightarrow> string list \<Rightarrow> 's \<Rightarrow> response list \<times> 's" where
  "serveConn handlers decode [] s = ([], s)"
| "serveConn handlers decode (line # lines) s =
     (case decode line of
        Inl err \<Rightarrow> (let (rs, s') = serveConn handlers decode lines s in
          (error_response [] (CodeInvalidParams, ''malformed request: '' @ err_text err) # rs, s'))
      | Inr req \<Rightarrow> (let (rs, s1) = handleRequest handlers req s; (rs', s2) = serveConn handlers decode lines s1
          in (rs @ rs', s2)))"

text \<open>\<open>checkSafe\<close>: the owner of a path, if it can be told, and its permission bits.\<close>

record file_info =
  fi_IsDir :: bool
  fi_Uid :: "int option"
  fi_WorldWritable :: bool

definition checkSafe :: "int \<Rightarrow> string \<Rightarrow> file_info \<Rightarrow> bool \<Rightarrow> go_error option" where
  "checkSafe uid path info isDir = (case fi_Uid info of
     None \<Rightarrow> Some (Err (''ipc: cannot determine owner of '' @ Quote path))
   | Some owner \<Rightarrow>
       if owner \<noteq> uid then Some (Err (''ipc: refusing unsafe socket path '' @ Quote path @ '': owned by uid '' @
            Itoa owner @ '', not '' @ Itoa uid))
       else if isDir \<and> fi_WorldWritable info
       then Some (Err (''ipc: refusing unsafe socket directory '' @ Quote path @ '': world-writable''))
       else None)"

text \<open>\<open>Listen\<close>: the checks before the socket is created, and the calls that change the file system with their
  answers: whether the stale socket could be removed, the listener created and its mode set.\<close>

datatype stat_answer = StatOk file_info | StatMissing go_error | StatFails go_error

datatype socket_op = RemoveStale | CreateListener | ChmodOwner | CloseListener

definition Listen ::
  "int \<Rightarrow> string \<Rightarrow> string \<Rightarrow> stat_answer \<Rightarrow> stat_answer \<Rightarrow> (socket_op \<Rightarrow> go_error option) \<Rightarrow> go_error option \<times> socket_op list" where
  "Listen uid dir path dirStat fileStat act =
     (let create = (\<lambda>ops. case act CreateListener of
            Some e \<Rightarrow> (Some (Wrap (''ipc: listen on '' @ Quote path @ '': '') e []), ops @ [CreateListener])
          | None \<Rightarrow> (case act ChmodOwner of
              Some e \<Rightarrow> (Some (Wrap (''ipc: chmod socket '' @ Quote path @ '': '') e []),
                ops @ [CreateListener, ChmodOwner, CloseListener])
            | None \<Rightarrow> (None, ops @ [CreateListener, ChmodOwner])))
      in case dirStat of
        StatMissing e \<Rightarrow> (Some (Wrap (''ipc: stat socket directory '' @ Quote dir @ '': '') e []), [])
      | StatFails e \<Rightarrow> (Some (Wrap (''ipc: stat socket directory '' @ Quote dir @ '': '') e []), [])
      | StatOk di \<Rightarrow>
          if \<not> fi_IsDir di then (Some (Err (''ipc: socket directory '' @ Quote dir @ '' is not a directory'')), [])
          else (case checkSafe uid dir di True of Some e \<Rightarrow> (Some e, [])
            | None \<Rightarrow> (case fileStat of
                StatMissing _ \<Rightarrow> create []
              | StatFails e \<Rightarrow> (Some (Wrap (''ipc: stat socket '' @ Quote path @ '': '') e []), [])
              | StatOk info \<Rightarrow> (case checkSafe uid path info False of Some e \<Rightarrow> (Some e, [])
                  | None \<Rightarrow> (case act RemoveStale of
                      Some e \<Rightarrow> (Some (Wrap (''ipc: remove stale socket '' @ Quote path @ '': '') e []), [RemoveStale])
                    | None \<Rightarrow> create [RemoveStale])))))"

section \<open>The client (\<open>client.go\<close>)\<close>

definition respError :: "response \<Rightarrow> go_error" where
  "respError r = (case resp_Error r of Some (c, m) \<Rightarrow> IpcError c m
     | None \<Rightarrow> IpcError CodeInternal ''request failed with no error detail'')"

text \<open>\<open>readErr\<close>: the error of a failed read, or the context's if that ended.\<close>

definition readErr :: "go_error option \<Rightarrow> go_error \<Rightarrow> go_error" where
  "readErr ctx e = (case ctx of Some c \<Rightarrow> Wrap ''ipc: '' c [] | None \<Rightarrow> Wrap ''ipc: read response: '' e [])"

text \<open>The read loops of \<open>Call\<close> and \<open>Stream\<close> on the responses that arrive; \<open>eof\<close> is the error after the last
  one. A call yields the raw result it decodes, if any.\<close>

fun client_Call :: "go_error option \<Rightarrow> go_error \<Rightarrow> string \<Rightarrow> response list \<Rightarrow> string option result" where
  "client_Call ctx eof i [] = Inl (readErr ctx eof)"
| "client_Call ctx eof i (r # rs) =
     (if resp_ID r \<noteq> i then client_Call ctx eof i rs
      else if \<not> resp_OK r then Inl (respError r)
      else if resp_Stream r then client_Call ctx eof i rs
      else Inr (resp_Result r))"

text \<open>A stream yields the events its callback was given and how it ended; the callback may abort it.\<close>

fun client_Stream ::
  "go_error option \<Rightarrow> go_error \<Rightarrow> (string \<Rightarrow> go_error option) \<Rightarrow> string \<Rightarrow> response list \<Rightarrow> string list \<times> go_error option" where
  "client_Stream ctx eof onEvent i [] = ([], Some (readErr ctx eof))"
| "client_Stream ctx eof onEvent i (r # rs) =
     (if resp_ID r \<noteq> i then client_Stream ctx eof onEvent i rs
      else if \<not> resp_OK r then ([], Some (respError r))
      else if resp_Stream r then
        (let ev = (case resp_Event r of Some e \<Rightarrow> e | None \<Rightarrow> []) in
         case onEvent ev of Some e \<Rightarrow> ([ev], Some e)
         | None \<Rightarrow> (let (evs, e) = client_Stream ctx eof onEvent i rs in (ev # evs, e)))
      else ([], None))"

section \<open>One terminal response per request\<close>

definition terminal :: "response \<Rightarrow> bool" where
  "terminal r \<longleftrightarrow> \<not> resp_Stream r"

lemmas response_defs = ok_response_def done_response_def error_response_def stream_response_def

lemma terminal_response_shape:
  "resp_ID (terminal_response i e) = i \<and> terminal (terminal_response i e) \<and>
    (resp_OK (terminal_response i e) \<longleftrightarrow> resp_Error (terminal_response i e) = None)"
  by (auto simp: terminal_response_def terminal_def response_defs split: handler_end.splits sum.splits)

text \<open>The envelopes that answer one line, and the identifier they carry: that of the request, or none for a
  malformed line.\<close>

definition answers :: "string \<Rightarrow> response list \<Rightarrow> bool" where
  "answers i rs \<longleftrightarrow> (\<exists>evs t. rs = map (stream_response i) evs @ [t] \<and> terminal t \<and> resp_ID t = i \<and>
     (resp_OK t \<longleftrightarrow> resp_Error t = None))"

definition line_id :: "(string \<Rightarrow> request result) \<Rightarrow> string \<Rightarrow> string" where
  "line_id decode line = (case decode line of Inr req \<Rightarrow> req_ID req | Inl _ \<Rightarrow> [])"

lemma handleRequest_answers: "answers (req_ID req) (fst (handleRequest handlers req s))"
proof (cases "handlers (req_Method req)")
  case None
  then show ?thesis by (auto simp: handleRequest_def answers_def terminal_def response_defs)
next
  case (Some fn)
  obtain evs e s' where "invoke fn (req_Params req) s = (evs, e, s')" by (metis prod_cases3)
  then show ?thesis using Some terminal_response_shape [of "req_ID req" e]
    by (auto simp: handleRequest_def answers_def)
qed

text \<open>Every line a client sends is answered with exactly one terminal envelope, in the order of the lines:
  whatever the handlers do - return, fail, panic, stream any number of chunks, return something that cannot
  be marshalled - and also for unknown methods and malformed lines. The chunks of a request come before
  its terminal envelope, carry its identifier, and no envelope of another request is between them.\<close>

theorem one_terminal_per_request:
  "\<exists>groups. fst (serveConn handlers decode lines s) = concat groups \<and>
     list_all2 (\<lambda>line rs. answers (line_id decode line) rs) lines groups"
proof (induction lines arbitrary: s)
  case (Cons line lines)
  show ?case
  proof (cases "decode line")
    case (Inl err)
    obtain groups where g: "fst (serveConn handlers decode lines s) = concat groups"
      "list_all2 (\<lambda>line rs. answers (line_id decode line) rs) lines groups" using Cons by blast
    have "answers [] [error_response [] (CodeInvalidParams, ''malformed request: '' @ err_text err)]"
      by (simp add: answers_def response_defs terminal_def)
    then show ?thesis
      using g Inl by (intro exI [of _ "[error_response [] (CodeInvalidParams, ''malformed request: '' @ err_text err)] # groups"])
        (simp add: line_id_def split_beta)
  next
    case (Inr req)
    obtain rs s1 where h: "handleRequest handlers req s = (rs, s1)" by fastforce
    obtain groups where g: "fst (serveConn handlers decode lines s1) = concat groups"
      "list_all2 (\<lambda>line rs. answers (line_id decode line) rs) lines groups" using Cons by blast
    show ?thesis
      using g h Inr handleRequest_answers [of req handlers s]
      by (intro exI [of _ "rs # groups"]) (simp add: line_id_def split_beta)
  qed
qed simp

section \<open>The two ends together\<close>

lemma client_Call_skip: "\<forall>r \<in> set rs. resp_ID r \<noteq> i \<Longrightarrow> client_Call ctx eof i (rs @ rs') = client_Call ctx eof i rs'"
  by (induction rs) auto

lemma client_Call_streams: "client_Call ctx eof i (map (stream_response i) evs @ rs) = client_Call ctx eof i rs"
  by (induction evs) (auto simp: stream_response_def)

lemma client_Stream_skip:
  "\<forall>r \<in> set rs. resp_ID r \<noteq> i \<Longrightarrow> client_Stream ctx eof onEvent i (rs @ rs') = client_Stream ctx eof onEvent i rs'"
  by (induction rs) auto

lemma client_Stream_streams:
  "\<forall>ev \<in> set evs. onEvent ev = None \<Longrightarrow>
     client_Stream ctx eof onEvent i (map (stream_response i) evs @ rs) =
       (evs @ fst (client_Stream ctx eof onEvent i rs), snd (client_Stream ctx eof onEvent i rs))"
  by (induction evs) (auto simp: stream_response_def split_beta)

text \<open>A call and a stream get what the handler gave. When a request with a fresh identifier is served on a
  connection that may still hold envelopes of others, \<open>Call\<close> returns the handler's result, or its error
  with the code it has anywhere in its chain (\<open>internal\<close> without one); \<open>Stream\<close> passes the handler's chunks
  to its callback, each once and in order, and ends with the handler's error if there was one.\<close>

theorem call_returns_handler_result:
  assumes "\<forall>r \<in> set old. resp_ID r \<noteq> req_ID req" and "handlers (req_Method req) = Some fn"
    and "fn (req_Params req) s = (evs, e, s')" and "handleRequest handlers req s = (rs, s')"
  shows "client_Call ctx eof (req_ID req) (old @ rs) = (case e of
        Returns (Inr raw) \<Rightarrow> Inr (Some raw)
      | Returns (Inl err) \<Rightarrow> Inl (IpcError CodeInternal (''marshal result: '' @ err_text err))
      | Streamed \<Rightarrow> Inr None
      | Fails err \<Rightarrow> Inl (IpcError (fst (toIPCError err)) (snd (toIPCError err)))
      | Panics v \<Rightarrow> Inl (IpcError CodeInternal (''handler panic: '' @ v))) \<and>
    ((\<forall>ev \<in> set evs. onEvent ev = None) \<longrightarrow>
      fst (client_Stream ctx eof onEvent (req_ID req) (old @ rs)) = evs \<and>
      (e = Streamed \<longrightarrow> snd (client_Stream ctx eof onEvent (req_ID req) (old @ rs)) = None) \<and>
      (\<forall>err. e = Fails err \<longrightarrow> snd (client_Stream ctx eof onEvent (req_ID req) (old @ rs)) =
         Some (IpcError (fst (toIPCError err)) (snd (toIPCError err)))))"
proof -
  have rs: "rs = map (stream_response (req_ID req)) evs @ [terminal_response (req_ID req) e]"
    using assms(2-4) by (cases e) (auto simp: handleRequest_def invoke_def terminal_response_def toIPCError_def)
  have t: "resp_ID (terminal_response (req_ID req) e) = req_ID req" "\<not> resp_Stream (terminal_response (req_ID req) e)"
    using terminal_response_shape [of "req_ID req" e] by (simp_all add: terminal_def)
  show ?thesis
    unfolding rs client_Call_skip [OF assms(1)] client_Call_streams client_Stream_skip [OF assms(1)]
    using t by (cases e) (auto simp: client_Stream_streams terminal_response_def respError_def
        response_defs split_beta split: sum.splits)
qed

text \<open>A handler for the witness: it streams a chunk and then fails with a typed error inside a wrapper.\<close>

definition sample_handler :: "nat handler" where
  "sample_handler params n = ([''\"a\"''], Fails (Wrap ''x: '' (IpcError CodeConflict ''busy'') []), Suc n)"

theorem call_returns_handler_result_witness:
  "client_Call None (Err ''EOF'') ''2'' (done_response ''1'' # fst (handleRequest [''m'' \<mapsto> sample_handler]
      \<lparr>req_ID = ''2'', req_Method = ''m'', req_Params = []\<rparr> 0)) = Inl (IpcError CodeConflict ''busy'')"
proof -
  let ?req = "\<lparr>req_ID = ''2'', req_Method = ''m'', req_Params = []\<rparr>"
  obtain rs s' where h: "handleRequest [''m'' \<mapsto> sample_handler] ?req 0 = (rs, s')" by fastforce
  have s': "s' = Suc 0" using h by (simp add: handleRequest_def sample_handler_def invoke_def)
  have old: "\<forall>r \<in> set [done_response ''1'']. resp_ID r \<noteq> req_ID ?req" by (simp add: done_response_def)
  have fn: "[''m'' \<mapsto> sample_handler] (req_Method ?req) = Some sample_handler" by simp
  have run: "sample_handler (req_Params ?req) 0 =
      ([''\"a\"''], Fails (Wrap ''x: '' (IpcError CodeConflict ''busy'') []), s')" by (simp add: sample_handler_def s')
  from call_returns_handler_result [OF old fn run h] have
    "client_Call None (Err ''EOF'') (req_ID ?req) ([done_response ''1''] @ rs) = Inl (IpcError CodeConflict ''busy'')"
    by (simp add: toIPCError_def)
  then show ?thesis by (simp add: h)
qed

text \<open>The daemon never serves on a path that is not its own. If \<open>Listen\<close> does not report an error, the
  directory was a directory of this user that is not world-writable, a file at the socket's path was this
  user's and has been removed first, and the mode of the new socket has been restricted to its owner;
  and a refused path is refused before anything in the file system is touched.\<close>

theorem Listen_is_safe:
  "case Listen uid dir path dirStat fileStat act of
     (None, ops) \<Rightarrow> (\<exists>di. dirStat = StatOk di \<and> fi_IsDir di \<and> fi_Uid di = Some uid \<and> \<not> fi_WorldWritable di) \<and>
       (case fileStat of StatOk f \<Rightarrow> fi_Uid f = Some uid \<and> ops = [RemoveStale, CreateListener, ChmodOwner]
         | StatMissing _ \<Rightarrow> ops = [CreateListener, ChmodOwner] | StatFails _ \<Rightarrow> False) \<and>
       act CreateListener = None \<and> act ChmodOwner = None
   | (Some e, ops) \<Rightarrow> (case dirStat of
         StatOk di \<Rightarrow> (fi_IsDir di \<and> fi_Uid di = Some uid \<and> \<not> fi_WorldWritable di) \<or> ops = []
       | _ \<Rightarrow> ops = []) \<and> (\<forall>f. fileStat = StatOk f \<and> fi_Uid f \<noteq> Some uid \<longrightarrow> ops = [])"
  by (cases dirStat; cases fileStat)
    (auto simp: Listen_def checkSafe_def Let_def split: option.splits if_splits)

theorem Listen_is_safe_witness:
  "\<exists>ops. Listen 7 ''/run'' ''/run/s'' (StatOk \<lparr>fi_IsDir = True, fi_Uid = Some 7, fi_WorldWritable = False\<rparr>)
       (StatOk \<lparr>fi_IsDir = False, fi_Uid = Some 7, fi_WorldWritable = True\<rparr>) (\<lambda>_. None) = (None, ops) \<and>
     ops = [RemoveStale, CreateListener, ChmodOwner]"
proof -
  let ?L = "Listen 7 ''/run'' ''/run/s'' (StatOk \<lparr>fi_IsDir = True, fi_Uid = Some 7, fi_WorldWritable = False\<rparr>)
       (StatOk \<lparr>fi_IsDir = False, fi_Uid = Some 7, fi_WorldWritable = True\<rparr>) (\<lambda>_. None)"
  obtain ops where L: "?L = (None, ops)" by (simp add: Listen_def checkSafe_def)
  with Listen_is_safe [where uid = 7 and dir = "''/run''" and path = "''/run/s''" and act = "\<lambda>_. None"
      and dirStat = "StatOk \<lparr>fi_IsDir = True, fi_Uid = Some 7, fi_WorldWritable = False\<rparr>"
      and fileStat = "StatOk \<lparr>fi_IsDir = False, fi_Uid = Some 7, fi_WorldWritable = True\<rparr>"]
  show ?thesis by simp
qed

end
