(* ===== verification/Methods.thy ===== *)
theory Methods
  imports Daemon Ipc
begin

text \<open>
  The methods of the daemon's API (\<open>internal/daemon/methods.go\<close>). A handler gets its decoded parameters
  (or the decoder's error) and the daemon's state, and answers with a result or an error; where the code
  waits for something else to happen, the handler is split at that point. Results are the structures that
  are marshalled, not their JSON.
\<close>

section \<open>Parameters and results\<close>

record create_params =
  cp_Name :: string
  cp_Provider :: string
  cp_Mode :: string
  cp_Cwd :: string
  cp_Prompt :: string
  cp_Args :: "string list"
  cp_SessionMode :: string
  cp_SessionRef :: string
  cp_Overrides :: "(string \<times> string) list"

record list_params =
  lp_All :: bool
  lp_Status :: string

record remove_params =
  rp_Task :: string
  rp_Force :: bool

record logs_params =
  gp_Task :: string
  gp_Attempt :: int
  gp_Follow :: bool
  gp_Stream :: string

record task_info =
  ti_ID :: string
  ti_Name :: string
  ti_Provider :: string
  ti_Mode :: string
  ti_Status :: status
  ti_Cwd :: string
  ti_SessionRef :: string
  ti_CurrentAttempt :: int
  ti_TotalAttempts :: int
  ti_NextWakeAt :: "time option"
  ti_LastOutcome :: string
  ti_ExitReason :: string
  ti_CreatedAt :: time
  ti_UpdatedAt :: time

record attempt_info =
  ai_AttemptNo :: int
  ai_PID :: int
  ai_StartedAt :: time
  ai_EndedAt :: "time option"
  ai_ExitCode :: "int option"
  ai_Outcome :: string
  ai_ResetAt :: "time option"
  ai_MatchedRule :: string

definition taskInfo :: "task \<Rightarrow> task_info" where
  "taskInfo t = \<lparr>ti_ID = ID t, ti_Name = Name t, ti_Provider = Provider t, ti_Mode = Mode t, ti_Status = Status t,
     ti_Cwd = Cwd t, ti_SessionRef = deref (SessionRef t), ti_CurrentAttempt = CurrentAttempt t,
     ti_TotalAttempts = TotalAttempts t, ti_NextWakeAt = NextWakeAt t, ti_LastOutcome = deref (LastOutcome t),
     ti_ExitReason = deref (ExitReason t), ti_CreatedAt = CreatedAt t, ti_UpdatedAt = UpdatedAt t\<rparr>"

definition attemptInfo :: "attempt \<Rightarrow> attempt_info" where
  "attemptInfo a = \<lparr>ai_AttemptNo = a_AttemptNo a, ai_PID = (case a_PID a of Some p \<Rightarrow> p | None \<Rightarrow> 0),
     ai_StartedAt = a_StartedAt a, ai_EndedAt = a_EndedAt a, ai_ExitCode = a_ExitCode a,
     ai_Outcome = deref (a_Outcome a), ai_ResetAt = a_ResetAt a, ai_MatchedRule = deref (a_MatchedRule a)\<rparr>"

definition unmarshalParams :: "'p result \<Rightarrow> 'p result" where
  "unmarshalParams raw = (case raw of Inr p \<Rightarrow> Inr p
     | Inl e \<Rightarrow> Inl (IpcError CodeInvalidParams (''decode params: '' @ err_text e)))"

abbreviation task_db :: "daemon \<Rightarrow> db" where
  "task_db d \<equiv> w_db (dm_world d)"

section \<open>Selecting a task\<close>

definition selects :: "string \<Rightarrow> task \<Rightarrow> bool" where
  "selects selector t \<longleftrightarrow> Name t = selector \<or> HasPrefix (ID t) selector"

definition resolveTask :: "string \<Rightarrow> daemon \<Rightarrow> task result" where
  "resolveTask selector d =
     (if selector = [] then Inl (IpcError CodeInvalidParams ''task selector is required'')
      else case GetTask selector (task_db d) of
        Inr t \<Rightarrow> Inr t
      | Inl e \<Rightarrow>
        if \<not> errors_Is e ErrNotFound then Inl e
        else (case ListTasks (task_db d) of
          Inl e \<Rightarrow> Inl e
        | Inr ts \<Rightarrow> (case filter (selects selector) ts of
            [t] \<Rightarrow> Inr t
          | [] \<Rightarrow> Inl (IpcError CodeNotFound (''no task matches '' @ Quote selector))
          | ms \<Rightarrow> Inl (IpcError CodeInvalidParams (''selector '' @ Quote selector @ '' is ambiguous ('' @
                Itoa (int (length ms)) @ '' matches)'')))))"

section \<open>Reading\<close>

definition list_keeps :: "list_params \<Rightarrow> task \<Rightarrow> bool" where
  "list_keeps p t \<longleftrightarrow> (if lp_Status p \<noteq> [] then status_String (Status t) = lp_Status p
     else lp_All p \<or> \<not> Terminal (Status t))"

definition handleList :: "list_params result \<Rightarrow> daemon \<Rightarrow> task_info list result" where
  "handleList raw d = (case unmarshalParams raw of Inl e \<Rightarrow> Inl e
     | Inr p \<Rightarrow> (case ListTasks (task_db d) of Inl e \<Rightarrow> Inl e
         | Inr ts \<Rightarrow> Inr (map taskInfo (filter (list_keeps p) ts))))"

definition handleGet :: "string result \<Rightarrow> daemon \<Rightarrow> (task_info \<times> attempt_info list) result" where
  "handleGet raw d = (case unmarshalParams raw of Inl e \<Rightarrow> Inl e
     | Inr sel \<Rightarrow> (case resolveTask sel d of Inl e \<Rightarrow> Inl e
         | Inr t \<Rightarrow> (case ListAttempts (ID t) (task_db d) of Inl e \<Rightarrow> Inl e
             | Inr as \<Rightarrow> Inr (taskInfo t, map attemptInfo as))))"

section \<open>Creating a task\<close>

definition checkNameUnique :: "string \<Rightarrow> daemon \<Rightarrow> go_error option" where
  "checkNameUnique name d = (case ListTasks (task_db d) of Inl e \<Rightarrow> Some e
     | Inr ts \<Rightarrow> if \<exists>t \<in> set ts. Name t = name \<and> \<not> Terminal (Status t)
         then Some (IpcError CodeConflict (''an active task named '' @ Quote name @ '' already exists'')) else None)"

definition new_uuid :: "outside \<Rightarrow> daemon \<Rightarrow> string \<times> daemon" where
  "new_uuid G d = (o_uuid G (w_step (dm_world d)),
     d\<lparr>dm_world := (dm_world d)\<lparr>w_step := Suc (w_step (dm_world d))\<rparr>\<rparr>)"

definition create_config :: "outside \<Rightarrow> create_params \<Rightarrow> config result" where
  "create_config G p =
     (case Resolve (o_cfg G) (o_fs G) \<lparr>o_GlobalPath = filepath_Join [dir_Config (o_dirs G), ''config.toml''],
           o_WorkDir = cp_Cwd p, o_Getenv = o_getenv G, o_Overrides = cp_Overrides p\<rparr> of
        Inl e \<Rightarrow> Inl (IpcError CodeInvalidParams (''resolve config: '' @ err_text e))
      | Inr cfg \<Rightarrow> (case snd (validate (o_libs G) (o_cfg G) (o_lookPath G) (o_stat G) cfg) of
          Some e \<Rightarrow> Inl (IpcError CodeInvalidParams (''invalid config: '' @ err_text e))
        | None \<Rightarrow> Inr cfg))"

definition create_session :: "outside \<Rightarrow> create_params \<Rightarrow> string \<Rightarrow> provider \<Rightarrow> daemon \<Rightarrow> string option result \<times> daemon" where
  "create_session G p mode prov d =
     (if mode = ''existing'' then
        (if cp_SessionRef p = [] then (Inl (IpcError CodeInvalidParams ''session_ref is required for session_mode=existing''), d)
         else (Inr (Some (cp_SessionRef p)), d))
      else if mode = ''new'' then
        (if cap_ClientSuppliedID (p_Capabilities prov) then (let (ref, d') = new_uuid G d in (Inr (Some ref), d'))
         else (Inr None, d))
      else (Inl (IpcError CodeInvalidParams (''session_mode must be new or existing, got '' @ Quote mode)), d))"

definition non_empty_or :: "string \<Rightarrow> string \<Rightarrow> string" where
  "non_empty_or s dflt = (if s = [] then dflt else s)"

text \<open>Up to the check of the name: nothing is written yet.\<close>

definition create_prepare :: "outside \<Rightarrow> create_params result \<Rightarrow> daemon \<Rightarrow> (task \<times> config \<times> provider) result \<times> daemon" where
  "create_prepare G raw d0 =
     (case unmarshalParams raw of Inl e \<Rightarrow> (Inl e, d0)
      | Inr p \<Rightarrow>
        if cp_Cwd p = [] then (Inl (IpcError CodeInvalidParams ''cwd is required''), d0)
        else (case create_config G p of Inl e \<Rightarrow> (Inl e, d0)
          | Inr cfg \<Rightarrow>
            (let pname = non_empty_or (cp_Provider p) (c_DefaultProvider cfg) in
             case registry_Get (o_registry G) pname of
               Inl e \<Rightarrow> (Inl (IpcError CodeProviderUnavailable (err_text e)), d0)
             | Inr prov \<Rightarrow>
               (let mode = non_empty_or (cp_Mode p) (c_DefaultMode cfg);
                    smode = non_empty_or (cp_SessionMode p) ''new'' in
                if mode = ''interactive'' \<and> \<not> cap_Interactive (p_Capabilities prov)
                then (Inl (IpcError CodeInvalidParams (''provider '' @ pname @ '' does not support interactive mode'')), d0)
                else (case create_session G p smode prov d0 of
                    (Inl e, d1) \<Rightarrow> (Inl e, d1)
                  | (Inr ref, d1) \<Rightarrow>
                    (let (i, d2) = new_uuid G d1; name = non_empty_or (cp_Name p) (take 8 i) in
                     case checkNameUnique name d2 of Some e \<Rightarrow> (Inl e, d2)
                     | None \<Rightarrow>
                       (let (now, d3) = now_of G d2 in
                        (Inr (\<lparr>ID = i, Name = name, Provider = pname, Mode = mode, Cwd = cp_Cwd p, SessionMode = smode,
                            SessionRef = ref, Prompt = (if cp_Prompt p \<noteq> [] then Some (cp_Prompt p) else None),
                            Args = cp_Args p, ConfigJSON = o_marshal G cfg, Status = PENDING, CurrentAttempt = 0,
                            TotalAttempts = 0, NextWakeAt = None, LastOutcome = None, LastResetAt = None,
                            CumulativeWaitMS = 0, DeadlineAt = None, ExitReason = None, CreatedAt = now,
                            UpdatedAt = now\<rparr>, cfg, prov), d3))))))))"

definition create_commit :: "outside \<Rightarrow> task \<times> config \<times> provider \<Rightarrow> daemon \<Rightarrow> task_info result \<times> daemon" where
  "create_commit G = (\<lambda>(t, cfg, prov) d.
     let w = dm_world d; (err, db') = CreateTask (o_fault G (w_step w)) t (w_db w);
         d1 = d\<lparr>dm_world := w\<lparr>w_db := db', w_step := Suc (w_step w)\<rparr>\<rparr>
     in case err of
          Some e \<Rightarrow> (Inl (Wrap ''create task: '' e []), d1)
        | None \<Rightarrow> (case startRuntime G t cfg prov d1 of
            (Some e, d2) \<Rightarrow> (Inl e, d2)
          | (None, d2) \<Rightarrow> (Inr (taskInfo t), postEvent (ID t) EventStart d2)))"

definition handleCreate :: "outside \<Rightarrow> create_params result \<Rightarrow> daemon \<Rightarrow> task_info result \<times> daemon" where
  "handleCreate G raw d = (case create_prepare G raw d of
     (Inl e, d1) \<Rightarrow> (Inl e, d1) | (Inr tcp, d1) \<Rightarrow> create_commit G tcp d1)"

section \<open>Acting on a task\<close>

definition handleAction :: "event \<Rightarrow> status list \<Rightarrow> string result \<Rightarrow> daemon \<Rightarrow> string result \<times> daemon" where
  "handleAction ev validFrom raw d = (case unmarshalParams raw of Inl e \<Rightarrow> (Inl e, d)
     | Inr sel \<Rightarrow> (case resolveTask sel d of Inl e \<Rightarrow> (Inl e, d)
         | Inr t \<Rightarrow> if Status t \<notin> set validFrom
             then (Inl (IpcError CodeConflict (''task '' @ Name t @ '' is '' @ status_String (Status t))), d)
             else (Inr (ID t), postEvent (ID t) ev d)))"

definition handleResume :: "string result \<Rightarrow> daemon \<Rightarrow> string result \<times> daemon" where
  "handleResume = handleAction EventUserResume [WAITING, PAUSED]"

definition handlePause :: "string result \<Rightarrow> daemon \<Rightarrow> string result \<times> daemon" where
  "handlePause = handleAction EventUserPause [RUNNING, WAITING]"

definition handleStop :: "string result \<Rightarrow> daemon \<Rightarrow> string result \<times> daemon" where
  "handleStop = handleAction EventUserStop [PENDING, RUNNING, WAITING, PAUSED]"

definition handleShutdown :: "bool result \<Rightarrow> daemon \<Rightarrow> unit result \<times> daemon" where
  "handleShutdown raw d = (case unmarshalParams raw of Inl e \<Rightarrow> (Inl e, d)
     | Inr stop_children \<Rightarrow> (Inr (), if dm_shutdown d = None then d\<lparr>dm_shutdown := Some stop_children\<rparr> else d))"

text \<open>\<open>task.remove\<close>: at once for a terminal task; otherwise, when forced, the stop is posted and the handler
  waits for the task to become terminal. \<open>waitTerminal\<close> reads the row after it has subscribed, then the
  events of its subscription; the removal ends with the directory to delete.\<close>

datatype remove_start = Refused go_error | RemoveNow string | WaitFor string

definition remove_begin :: "remove_params result \<Rightarrow> daemon \<Rightarrow> remove_start \<times> daemon" where
  "remove_begin raw d = (case unmarshalParams raw of Inl e \<Rightarrow> (Refused e, d)
     | Inr p \<Rightarrow> (case resolveTask (rp_Task p) d of Inl e \<Rightarrow> (Refused e, d)
         | Inr t \<Rightarrow> if Terminal (Status t) then (RemoveNow (ID t), d)
             else if \<not> rp_Force p
             then (Refused (IpcError CodeConflict (''task '' @ Name t @ '' is '' @ status_String (Status t) @
                ''; use force to stop it first'')), d)
             else (WaitFor (ID t), postEvent (ID t) EventUserStop d)))"

datatype wait_end = WaitDone | WaitFails go_error | StillWaiting

definition wait_check :: "string \<Rightarrow> daemon \<Rightarrow> wait_end" where
  "wait_check i d = (case GetTask i (task_db d) of Inl e \<Rightarrow> WaitFails e
     | Inr t \<Rightarrow> if Terminal (Status t) then WaitDone else StillWaiting)"

fun wait_events :: "string \<Rightarrow> task_event list \<Rightarrow> wait_end" where
  "wait_events i [] = StillWaiting"
| "wait_events i (ev # evs) = (if te_TaskID ev = i \<and> Terminal (te_Status ev) then WaitDone else wait_events i evs)"

definition remove_finish :: "outside \<Rightarrow> string \<Rightarrow> daemon \<Rightarrow> string result \<times> string option \<times> daemon" where
  "remove_finish G i d =
     (let w = dm_world d; (err, db') = DeleteTask (o_fault G (w_step w)) i (w_db w);
          d' = d\<lparr>dm_world := w\<lparr>w_db := db', w_step := Suc (w_step w)\<rparr>\<rparr>
      in case err of Some e \<Rightarrow> (Inl e, None, d')
         | None \<Rightarrow> (Inr i, (case TaskDir (dir_State (o_dirs G)) i of Inr dir \<Rightarrow> Some dir | Inl e \<Rightarrow> None), d'))"

section \<open>Logs\<close>

definition logs_files :: "outside \<Rightarrow> logs_params result \<Rightarrow> daemon \<Rightarrow> (string \<times> string) list result" where
  "logs_files G raw d = (case unmarshalParams raw of Inl e \<Rightarrow> Inl e
     | Inr p \<Rightarrow> (case resolveTask (gp_Task p) d of Inl e \<Rightarrow> Inl e
         | Inr t \<Rightarrow>
           (let n = (if gp_Attempt p = 0 then TotalAttempts t else gp_Attempt p) in
            if n = 0 then Inl (IpcError CodeNotFound (''task '' @ Name t @ '' has no attempts yet''))
            else (case AttemptFiles (dir_State (o_dirs G)) (ID t) n of
                Inl e \<Rightarrow> Inl (IpcError CodeInvalidParams (err_text e))
              | Inr (so, se, _) \<Rightarrow>
                (let which = non_empty_or (gp_Stream p) ''both'';
                     files = (if which = ''stdout'' \<or> which = ''both'' then [(''stdout'', so)] else []) @
                             (if which = ''stderr'' \<or> which = ''both'' then [(''stderr'', se)] else [])
                 in if files = [] then Inl (IpcError CodeInvalidParams ''stream must be stdout, stderr, or both'')
                    else Inr files)))))"

text \<open>The lines of a \<open>bufio.Scanner\<close>: the pieces between line feeds, the last one if it is not empty, without a
  trailing carriage return; a line that does not fit the buffer of a mebibyte ends the scan.\<close>

definition drop_cr :: "string \<Rightarrow> string" where
  "drop_cr s = (if s \<noteq> [] \<and> last s = CHR 0x0D then butlast s else s)"

definition raw_lines :: "string \<Rightarrow> string list" where
  "raw_lines s = (let ls = Split s (CHR 0x0A) in if last ls = [] then butlast ls else ls)"

fun scan_lines :: "string list \<Rightarrow> string list \<times> go_error option" where
  "scan_lines [] = ([], None)"
| "scan_lines (l # ls) = (if length l \<ge> 1048576 then ([], Some (Err ''bufio.Scanner: token too long''))
     else (let (xs, e) = scan_lines ls in (drop_cr l # xs, e)))"

definition sendStoredLog :: "string \<times> string option result \<Rightarrow> (string \<times> string) list \<times> go_error option" where
  "sendStoredLog = (\<lambda>(name, contents). case contents of
     Inl e \<Rightarrow> ([], Some e)
   | Inr None \<Rightarrow> ([], None)
   | Inr (Some s) \<Rightarrow> (let (ls, e) = scan_lines (raw_lines s) in (map (Pair name) ls, e)))"

fun send_all_logs :: "(string \<times> string option result) list \<Rightarrow> (string \<times> string) list \<times> go_error option" where
  "send_all_logs [] = ([], None)"
| "send_all_logs (f # fs) = (case sendStoredLog f of
     (ls, Some e) \<Rightarrow> (ls, Some e)
   | (ls, None) \<Rightarrow> (let (ls', e) = send_all_logs fs in (ls @ ls', e)))"

section \<open>Subscriptions\<close>

text \<open>\<open>events.subscribe\<close> on the events its channel delivers, until the client goes away: what is sent, and
  whether the stream ended by itself.\<close>

fun handleSubscribe :: "string \<Rightarrow> task_event list \<Rightarrow> task_event list \<times> bool" where
  "handleSubscribe sel [] = ([], False)"
| "handleSubscribe sel (ev # evs) =
     (if sel \<noteq> [] \<and> te_TaskID ev \<noteq> sel \<and> te_Name ev \<noteq> sel then handleSubscribe sel evs
      else if sel \<noteq> [] \<and> Terminal (te_Status ev) then ([ev], True)
      else (let (out, fin) = handleSubscribe sel evs in (ev # out, fin)))"

section \<open>Interactive tasks\<close>

definition no_session :: "task \<Rightarrow> go_error" where
  "no_session t = IpcError CodeConflict (''task '' @ Name t @ '' has no live interactive session'')"

definition liveInteractive :: "string \<Rightarrow> daemon \<Rightarrow> (runtime \<times> task) result" where
  "liveInteractive sel d = (case resolveTask sel d of Inl e \<Rightarrow> Inl e
     | Inr t \<Rightarrow> if Mode t \<noteq> ''interactive''
         then Inl (IpcError CodeConflict (''task '' @ Name t @ '' is not interactive''))
         else (case dm_runtimes d (ID t) of None \<Rightarrow> Inl (no_session t) | Some rt \<Rightarrow> Inr (rt, t)))"

text \<open>\<open>task.attach\<close> up to its stream: the replayed tail and the channel it will read.\<close>

definition attach_begin :: "string result \<Rightarrow> daemon \<Rightarrow> (string \<times> int option) result \<times> daemon" where
  "attach_begin raw d = (case unmarshalParams raw of Inl e \<Rightarrow> (Inl e, d)
     | Inr sel \<Rightarrow> (case liveInteractive sel d of Inl e \<Rightarrow> (Inl e, d)
         | Inr (rt, t) \<Rightarrow> (case rt_bcast rt of None \<Rightarrow> (Inl (no_session t), d)
             | Some b \<Rightarrow> (let (tail_bytes, ch, b') = pty_subscribe b in
                 (Inr (tail_bytes, ch), d\<lparr>dm_runtimes := (dm_runtimes d)(ID t \<mapsto> rt\<lparr>rt_bcast := Some b'\<rparr>)\<rparr>)))))"

text \<open>\<open>task.input\<close> and \<open>task.resize\<close>: \<open>decoded\<close> is the base64 text decoded, \<open>written\<close> the terminal's answer.\<close>

definition handleInput :: "(string \<times> string result) result \<Rightarrow> go_error option \<Rightarrow> daemon \<Rightarrow> int result" where
  "handleInput raw written d = (case unmarshalParams raw of Inl e \<Rightarrow> Inl e
     | Inr (sel, decoded) \<Rightarrow> (case decoded of
         Inl e \<Rightarrow> Inl (IpcError CodeInvalidParams (''decode input: '' @ err_text e))
       | Inr bytes \<Rightarrow> (case liveInteractive sel d of Inl e \<Rightarrow> Inl e
           | Inr (rt, t) \<Rightarrow> if rt_bcast rt = None then Inl (no_session t)
               else (case written of Some e \<Rightarrow> Inl (IpcError CodeInternal (''write input: '' @ err_text e))
                   | None \<Rightarrow> Inr (int (length bytes))))))"

definition handleResize :: "string result \<Rightarrow> go_error option \<Rightarrow> daemon \<Rightarrow> unit result" where
  "handleResize raw resized d = (case unmarshalParams raw of Inl e \<Rightarrow> Inl e
     | Inr sel \<Rightarrow> (case liveInteractive sel d of Inl e \<Rightarrow> Inl e
         | Inr (rt, t) \<Rightarrow> if rt_bcast rt = None then Inl (no_session t)
             else (case resized of Some e \<Rightarrow> Inl (IpcError CodeInternal (''resize: '' @ err_text e)) | None \<Rightarrow> Inr ())))"

end
