(* ===== verification/Cli.thy ===== *)
theory Cli
  imports Methods
begin

text \<open>
  The command line front end (\<open>internal/cli\<close>): exit codes, reaching the daemon with its auto-start, the
  request that \<open>start\<close> builds, the other commands, and the editing of the configuration file. A command is
  what it prints, or the error it returns; a call of the daemon is the answer the daemon gives. Flag parsing
  (cobra), the rendering of table columns, and the terminal of an interactive attach are left out; the JSON
  output is in the theory \<open>JsonOut\<close>.
\<close>

section \<open>Errors and exit codes (\<open>root.go\<close>)\<close>

text \<open>\<open>errors.As\<close> for the two types of interest. A \<open>usageError\<close> embeds its error without unwrapping to it, so
  the walk ends there.\<close>

fun as_usage :: "go_error \<Rightarrow> bool" where
  "as_usage (UsageError e) = True"
| "as_usage (Wrap pre e post) = as_usage e"
| "as_usage (Joined es) = list_ex as_usage es"
| "as_usage _ = False"

fun as_ipc :: "go_error \<Rightarrow> string option" and as_ipc_any :: "go_error list \<Rightarrow> string option" where
  "as_ipc (IpcError c m) = Some c"
| "as_ipc (Wrap pre e post) = as_ipc e"
| "as_ipc (Joined es) = as_ipc_any es"
| "as_ipc _ = None"
| "as_ipc_any [] = None"
| "as_ipc_any (e # es) = (case as_ipc e of Some c \<Rightarrow> Some c | None \<Rightarrow> as_ipc_any es)"

definition isUnknownCommandErr :: "go_error \<Rightarrow> bool" where
  "isUnknownCommandErr e = HasPrefix (err_text e) ''unknown command ''"

definition exitCode :: "go_error \<Rightarrow> int" where
  "exitCode e =
     (if as_usage e then 2
      else case as_ipc e of
        Some c \<Rightarrow> if c = CodeInvalidParams then 2 else if c = CodeNotFound then 3 else if c = CodeConflict then 4
          else if c = CodeProviderUnavailable then 6 else 1
      | None \<Rightarrow> if errors_Is e ErrDaemonUnreachable then 5 else 1)"

definition errorCode :: "go_error \<Rightarrow> string" where
  "errorCode e =
     (if as_usage e then CodeInvalidParams
      else case as_ipc e of Some c \<Rightarrow> c
      | None \<Rightarrow> if errors_Is e ErrDaemonUnreachable then ''daemon_unreachable'' else ''error'')"

text \<open>The end of \<open>Execute\<close>: the process's exit code, and the code and text of the error it prints.\<close>

definition execute_end :: "go_error option \<Rightarrow> int \<times> (string \<times> string) option" where
  "execute_end r = (case r of None \<Rightarrow> (0, None)
     | Some e \<Rightarrow> (let e' = (if isUnknownCommandErr e then UsageError e else e)
         in (exitCode e', Some (errorCode e', err_text e'))))"

section \<open>Reaching the daemon (\<open>client.go\<close>, \<open>commands.go\<close>)\<close>

record global_options =
  g_configPath :: string
  g_noAutostart :: bool
  g_jsonOut :: bool
  g_quiet :: bool

text \<open>The outside of a client: the directories, the outcome of the \<open>k\<close>-th dial, the clock read after it, whether
  the context ends before the next tick, the spawning of the daemon, and \<open>Duration.String\<close>.\<close>

record client_env =
  e_dirs :: "dirs result"
  e_dial :: "nat \<Rightarrow> go_error option"
  e_clock :: "nat \<Rightarrow> time"
  e_canceled :: "nat \<Rightarrow> bool"
  e_spawn :: "go_error option"
  e_duration :: "duration \<Rightarrow> string"

definition socketPath :: "client_env \<Rightarrow> string result" where
  "socketPath E = (case e_dirs E of Inl e \<Rightarrow> Inl e
     | Inr d \<Rightarrow> Inr (filepath_Join [dir_Runtime d, ''daemon.sock'']))"

text \<open>The loops of \<open>waitDial\<close> and \<open>waitGone\<close> from the \<open>k\<close>-th dial; the result is the number of the dial that
  decided. They may not end, so not returning is \<open>None\<close>.\<close>

partial_function (option) dial_loop :: "client_env \<Rightarrow> time \<Rightarrow> nat \<Rightarrow> nat result option" where
  "dial_loop E deadline k =
     (case e_dial E k of None \<Rightarrow> Some (Inr k)
      | Some e \<Rightarrow> if deadline < e_clock E k then Some (Inl e)
          else if e_canceled E k then Some (Inl ErrCanceled) else dial_loop E deadline (Suc k))"

definition waitDial :: "client_env \<Rightarrow> time \<Rightarrow> duration \<Rightarrow> nat \<Rightarrow> nat result option" where
  "waitDial E now budget k = dial_loop E (time_Add now budget) k"

partial_function (option) gone_loop :: "client_env \<Rightarrow> time \<Rightarrow> duration \<Rightarrow> nat \<Rightarrow> go_error option option" where
  "gone_loop E deadline budget k =
     (if e_dial E k \<noteq> None then Some None
      else if deadline < e_clock E k then Some (Some (Err (''daemon still reachable after '' @ e_duration E budget)))
      else if e_canceled E k then Some (Some ErrCanceled) else gone_loop E deadline budget (Suc k))"

definition waitGone :: "client_env \<Rightarrow> time \<Rightarrow> duration \<Rightarrow> nat \<Rightarrow> go_error option option" where
  "waitGone E now budget k = gone_loop E (time_Add now budget) budget k"

definition connect :: "client_env \<Rightarrow> global_options \<Rightarrow> time \<Rightarrow> nat result option" where
  "connect E g now = (case socketPath E of Inl e \<Rightarrow> Some (Inl e)
     | Inr sock \<Rightarrow>
       if e_dial E 0 = None then Some (Inr 0)
       else if g_noAutostart g then Some (Inl (Wrap [] ErrDaemonUnreachable ('' at '' @ sock)))
       else (case e_spawn E of
           Some e \<Rightarrow> Some (Inl (Wrap [] ErrDaemonUnreachable ('': '' @ err_text e)))
         | None \<Rightarrow> (case waitDial E now (5 * Second) 1 of None \<Rightarrow> None
             | Some (Inl e) \<Rightarrow> Some (Inl (Wrap [] ErrDaemonUnreachable ('': daemon did not come up: '' @ err_text e)))
             | Some (Inr k) \<Rightarrow> Some (Inr k))))"

definition globalConfigPath :: "client_env \<Rightarrow> global_options \<Rightarrow> string result" where
  "globalConfigPath E g = (if g_configPath g \<noteq> [] then Inr (g_configPath g)
     else case e_dirs E of Inl e \<Rightarrow> Inl e | Inr d \<Rightarrow> Inr (filepath_Join [dir_Config d, ''config.toml'']))"

definition exactArgs :: "nat \<Rightarrow> string \<Rightarrow> string list \<Rightarrow> go_error option" where
  "exactArgs n use args = (if length args \<noteq> n then Some (UsageError (Err (''usage: defib '' @ use))) else None)"

section \<open>\<open>defib start\<close> (\<open>start.go\<close>)\<close>

record start_flags =
  sf_Name :: string
  sf_Provider :: string
  sf_Mode :: string
  sf_Session :: string
  sf_Cwd :: string
  sf_Model :: "string option"
  sf_Unattended :: "bool option"
  sf_MaxAttempts :: "int option"
  sf_Deadline :: "string option"

text \<open>A flag and whether it was set are one optional value. \<open>resolvePrompt\<close> reads the standard input or the
  file it is given.\<close>

definition resolvePrompt :: "string option \<Rightarrow> string option \<Rightarrow> string result \<Rightarrow> (string \<Rightarrow> string result) \<Rightarrow> string result" where
  "resolvePrompt prompt promptFile stdin readFile =
     (case promptFile of
        None \<Rightarrow> Inr (case prompt of None \<Rightarrow> [] | Some p \<Rightarrow> p)
      | Some f \<Rightarrow>
        if prompt \<noteq> None then Inl (UsageError (Err ''--prompt and --prompt-file are mutually exclusive''))
        else if f = ''-'' then (case stdin of Inl e \<Rightarrow> Inl (Wrap ''read prompt from stdin: '' e []) | Inr s \<Rightarrow> Inr s)
        else (case readFile f of Inl e \<Rightarrow> Inl (Wrap (''read prompt file '' @ f @ '': '') e []) | Inr s \<Rightarrow> Inr s))"

definition passthroughArgs :: "int \<Rightarrow> string list \<Rightarrow> string list" where
  "passthroughArgs dash args = (if dash < 0 then [] else drop (nat dash) args)"

definition provider_overrides :: "start_flags \<Rightarrow> string \<Rightarrow> (string \<times> string) list" where
  "provider_overrides opts name =
     (case sf_Model opts of None \<Rightarrow> [] | Some m \<Rightarrow> [(''providers.'' @ name @ ''.model'', m)]) @
     (case sf_Unattended opts of None \<Rightarrow> [] | Some b \<Rightarrow> [(''providers.'' @ name @ ''.unattended'', FormatBool b)])"

definition start_overrides :: "start_flags \<Rightarrow> string result \<Rightarrow> (string \<times> string) list result" where
  "start_overrides opts dflt =
     (let retry = (case sf_MaxAttempts opts of None \<Rightarrow> [] | Some n \<Rightarrow> [(''retry.max_attempts'', Itoa n)]) @
                  (case sf_Deadline opts of None \<Rightarrow> [] | Some s \<Rightarrow> [(''retry.deadline'', s)]) in
      if sf_Model opts = None \<and> sf_Unattended opts = None then Inr retry
      else (case (if sf_Provider opts = [] then dflt else Inr (sf_Provider opts)) of
          Inl e \<Rightarrow> Inl e
        | Inr name \<Rightarrow> Inr (retry @ provider_overrides opts name)))"

definition buildCreateParams :: "start_flags \<Rightarrow> string \<Rightarrow> string list \<Rightarrow> string result \<Rightarrow> create_params result" where
  "buildCreateParams opts prompt passthrough dflt =
     (case start_overrides opts dflt of Inl e \<Rightarrow> Inl e
      | Inr os \<Rightarrow> Inr \<lparr>cp_Name = sf_Name opts, cp_Provider = sf_Provider opts, cp_Mode = sf_Mode opts,
          cp_Cwd = sf_Cwd opts, cp_Prompt = prompt, cp_Args = passthrough,
          cp_SessionMode = (if sf_Session opts \<in> {[], ''new''} then ''new'' else ''existing''),
          cp_SessionRef = (if sf_Session opts \<in> {[], ''new''} then [] else sf_Session opts), cp_Overrides = os\<rparr>)"

text \<open>What a client resolves of the configuration: its libraries, files and environment.\<close>

record client_cfg =
  cc_libs :: cfg_libs
  cc_fs :: file_system
  cc_getenv :: "string \<Rightarrow> string"

definition client_Resolve :: "client_cfg \<Rightarrow> string \<Rightarrow> string \<Rightarrow> (string \<times> string) list \<Rightarrow> config result" where
  "client_Resolve X path dir os = Resolve (cc_libs X) (cc_fs X)
     \<lparr>o_GlobalPath = path, o_WorkDir = dir, o_Getenv = cc_getenv X, o_Overrides = os\<rparr>"

definition resolveDefaultProvider :: "client_cfg \<Rightarrow> client_env \<Rightarrow> global_options \<Rightarrow> string result" where
  "resolveDefaultProvider X E g = (case globalConfigPath E g of Inl e \<Rightarrow> Inl e
     | Inr path \<Rightarrow> (case client_Resolve X path [] [] of Inl e \<Rightarrow> Inl e | Inr c \<Rightarrow> Inr (c_DefaultProvider c)))"

definition unattendedEffective :: "client_cfg \<Rightarrow> client_env \<Rightarrow> global_options \<Rightarrow> create_params \<Rightarrow> bool" where
  "unattendedEffective X E g p = (case globalConfigPath E g of Inl e \<Rightarrow> False
     | Inr path \<Rightarrow> (case client_Resolve X path (cp_Cwd p) (cp_Overrides p) of Inl e \<Rightarrow> False
         | Inr c \<Rightarrow> p_Unattended (entry_of (non_empty_or (cp_Provider p) (c_DefaultProvider c)) c)))"

text \<open>The command up to the call of the daemon: the request and whether the warning was printed. An attach
  follows when asked for, or when detaching is switched off.\<close>

definition start_request ::
  "client_cfg \<Rightarrow> client_env \<Rightarrow> global_options \<Rightarrow> string result \<Rightarrow> string result \<Rightarrow> start_flags \<Rightarrow> int \<Rightarrow> string list
     \<Rightarrow> (create_params \<times> bool) result" where
  "start_request X E g prompt getwd opts0 dash args =
     (case prompt of Inl e \<Rightarrow> Inl e
      | Inr text \<Rightarrow>
        (case (if sf_Cwd opts0 = [] then getwd else Inr (sf_Cwd opts0)) of
           Inl e \<Rightarrow> Inl (Wrap ''resolve cwd: '' e [])
         | Inr cwd \<Rightarrow>
           (case buildCreateParams (opts0\<lparr>sf_Cwd := cwd\<rparr>) text (passthroughArgs dash args) (resolveDefaultProvider X E g) of
              Inl e \<Rightarrow> Inl e
            | Inr p \<Rightarrow> Inr (p, unattendedEffective X E g p))))"

definition start_attaches :: "bool \<Rightarrow> bool \<Rightarrow> bool" where
  "start_attaches attach detach \<longleftrightarrow> attach \<or> \<not> detach"


section \<open>Commands on tasks (\<open>tasks.go\<close>, \<open>logs.go\<close>, \<open>attach.go\<close>)\<close>

text \<open>What a command prints: lines of its standard output or error, rows of a table, or a value as JSON.\<close>

datatype 'a printed = Out string | ErrOut string | Row "string list" | JSON 'a

definition isTerminalStatus :: "string \<Rightarrow> bool" where
  "isTerminalStatus s \<longleftrightarrow> s \<in> {''SUCCEEDED'', ''FAILED'', ''STOPPED''}"

definition formatOptionalTime :: "(time \<Rightarrow> string) \<Rightarrow> time option \<Rightarrow> string" where
  "formatOptionalTime fmt t = (case t of None \<Rightarrow> ''-'' | Some t \<Rightarrow> fmt t)"

definition dashIfEmpty :: "string \<Rightarrow> string" where
  "dashIfEmpty s = (if s = [] then ''-'' else s)"

definition renderTaskList :: "(time \<Rightarrow> string) \<Rightarrow> task_info list \<Rightarrow> 'a printed list" where
  "renderTaskList fmt ts = Row [''ID'', ''NAME'', ''PROVIDER'', ''STATUS'', ''ATTEMPTS'', ''NEXT WAKE''] #
     map (\<lambda>t. Row [take 8 (ti_ID t), ti_Name t, ti_Provider t, status_String (ti_Status t), Itoa (ti_TotalAttempts t),
        formatOptionalTime fmt (ti_NextWakeAt t)]) ts"

definition list_cmd :: "(time \<Rightarrow> string) \<Rightarrow> global_options \<Rightarrow> nat result \<Rightarrow> task_info list result \<Rightarrow> task_info list printed list result" where
  "list_cmd fmt g conn answer = (case conn of Inl e \<Rightarrow> Inl e
     | Inr _ \<Rightarrow> (case answer of Inl e \<Rightarrow> Inl e
         | Inr ts \<Rightarrow> Inr (if g_jsonOut g then [JSON ts]
             else if ts = [] then (if g_quiet g then [] else [ErrOut ''no tasks'']) else renderTaskList fmt ts)))"

definition renderStatus :: "(time \<Rightarrow> string) \<Rightarrow> task_info \<times> attempt_info list \<Rightarrow> 'a printed list" where
  "renderStatus fmt = (\<lambda>(t, as).
     [Out (''id: '' @ ti_ID t), Out (''name: '' @ ti_Name t), Out (''provider: '' @ ti_Provider t),
      Out (''mode: '' @ ti_Mode t), Out (''status: '' @ status_String (ti_Status t)), Out (''cwd: '' @ ti_Cwd t)] @
     (if ti_SessionRef t \<noteq> [] then [Out (''session ref: '' @ ti_SessionRef t)] else []) @
     (case ti_NextWakeAt t of None \<Rightarrow> [] | Some w \<Rightarrow> [Out (''next wake: '' @ fmt w)]) @
     (if ti_ExitReason t \<noteq> [] then [Out (''exit reason: '' @ ti_ExitReason t)] else []) @
     [Out (''created: '' @ fmt (ti_CreatedAt t)), Out (''updated: '' @ fmt (ti_UpdatedAt t)),
      Row [''N'', ''STARTED'', ''ENDED'', ''EXIT'', ''OUTCOME'', ''RULE'', ''RESET AT'']] @
     map (\<lambda>a. Row [Itoa (ai_AttemptNo a), fmt (ai_StartedAt a), formatOptionalTime fmt (ai_EndedAt a),
        (case ai_ExitCode a of None \<Rightarrow> ''-'' | Some c \<Rightarrow> Itoa c), dashIfEmpty (ai_Outcome a),
        dashIfEmpty (ai_MatchedRule a), formatOptionalTime fmt (ai_ResetAt a)]) as)"

definition status_cmd ::
  "(time \<Rightarrow> string) \<Rightarrow> global_options \<Rightarrow> nat result \<Rightarrow> (task_info \<times> attempt_info list) result
     \<Rightarrow> (task_info \<times> attempt_info list) printed list result" where
  "status_cmd fmt g conn answer = (case conn of Inl e \<Rightarrow> Inl e
     | Inr _ \<Rightarrow> (case answer of Inl e \<Rightarrow> Inl e
         | Inr r \<Rightarrow> Inr (if g_jsonOut g then [JSON r] else renderStatus fmt r)))"

definition runActionRunE :: "string \<Rightarrow> global_options \<Rightarrow> nat result \<Rightarrow> string result \<Rightarrow> string printed list result" where
  "runActionRunE verb g conn answer = (case conn of Inl e \<Rightarrow> Inl e
     | Inr _ \<Rightarrow> (case answer of Inl e \<Rightarrow> Inl e
         | Inr i \<Rightarrow> Inr (if g_jsonOut g then [JSON i] else if g_quiet g then [] else [Out (verb @ '' task '' @ i)])))"

definition validateLogStream :: "string \<Rightarrow> go_error option" where
  "validateLogStream s = (if s \<in> {''stdout'', ''stderr'', ''both''} then None
     else Some (UsageError (Err (''--stream must be stdout, stderr, or both, got '' @ Quote s))))"

definition print_log :: "string \<times> string \<Rightarrow> 'a printed" where
  "print_log = (\<lambda>(stream, line). if stream = ''stderr'' then ErrOut line else Out line)"

definition logs_cmd :: "string \<Rightarrow> nat result \<Rightarrow> (string \<times> string) list \<times> go_error option \<Rightarrow> 'a printed list \<times> go_error option" where
  "logs_cmd stream conn answer = (case validateLogStream stream of Some e \<Rightarrow> ([], Some e)
     | None \<Rightarrow> (case conn of Inl e \<Rightarrow> ([], Some e) | Inr _ \<Rightarrow> (map print_log (fst answer), snd answer)))"

definition printEvent :: "(time \<Rightarrow> string) \<Rightarrow> task_event \<Rightarrow> 'a printed list" where
  "printEvent fmt ev =
     Out (''state: '' @ status_String (te_Status ev) @
       (case te_NextWakeAt ev of None \<Rightarrow> [] | Some w \<Rightarrow> '' (next wake '' @ fmt w @ '')'')) #
     (if isTerminalStatus (status_String (te_Status ev)) \<and> te_ExitReason ev \<noteq> []
      then [Out (''exit reason: '' @ te_ExitReason ev)] else [])"

definition printTaskState :: "string \<Rightarrow> string \<Rightarrow> 'a printed list" where
  "printTaskState status reason = Out (''state: '' @ status) # (if reason \<noteq> [] then [Out (''exit reason: '' @ reason)] else [])"

text \<open>\<open>runAttach\<close>: a terminal task is only reported; an interactive one is handed to the terminal; otherwise the
  events are printed until their stream ends, which also ends the logs (whose lines, not modelled here,
  are printed in between). Being interrupted is no failure. \<open>conn k\<close> is the outcome of the \<open>k\<close>-th \<open>connect\<close>.\<close>

datatype attach_kind = AttachDone | AttachTerminal | AttachStream

definition runAttach ::
  "(time \<Rightarrow> string) \<Rightarrow> (nat \<Rightarrow> nat result) \<Rightarrow> task_info result \<Rightarrow> task_event list \<times> go_error option
     \<Rightarrow> attach_kind \<times> 'a printed list \<times> go_error option" where
  "runAttach fmt conn answer events =
     (case conn 0 of Inl e \<Rightarrow> (AttachDone, [], Some e)
      | Inr _ \<Rightarrow> (case answer of Inl e \<Rightarrow> (AttachDone, [], Some e)
         | Inr t \<Rightarrow>
           if isTerminalStatus (status_String (ti_Status t))
           then (AttachDone, printTaskState (status_String (ti_Status t)) (ti_ExitReason t), None)
           else if ti_Mode t = ''interactive'' then (AttachTerminal, [], None)
           else (case conn 1 of Inl e \<Rightarrow> (AttachDone, [], Some e)
             | Inr _ \<Rightarrow> (case conn 2 of Inl e \<Rightarrow> (AttachDone, [], Some e)
                 | Inr _ \<Rightarrow> (AttachStream, concat (map (printEvent fmt) (fst events)),
                     (case snd events of None \<Rightarrow> None | Some e \<Rightarrow> if errors_Is e ErrCanceled then None else Some e))))))"

definition capabilitiesString :: "capabilities \<Rightarrow> string" where
  "capabilitiesString c = GoStrings.Join ((if cap_Resume c then [''resume''] else []) @
     (if cap_ClientSuppliedID c then [''client-supplied-id''] else []) @
     (if cap_Headless c then [''headless''] else []) @ (if cap_Interactive c then [''interactive''] else [])) '',''"

definition renderProviders :: "provider list \<Rightarrow> 'a printed list" where
  "renderProviders ps = Row [''NAME'', ''CAPABILITIES''] # map (\<lambda>p. Row [p_Name p, capabilitiesString (p_Capabilities p)]) ps"

definition providerInfoList :: "provider list \<Rightarrow> (string \<times> bool \<times> bool \<times> bool \<times> bool) list" where
  "providerInfoList ps = map (\<lambda>p. let c = p_Capabilities p in
     (p_Name p, cap_Resume c, cap_ClientSuppliedID c, cap_Headless c, cap_Interactive c)) ps"

section \<open>\<open>defib daemon\<close> (\<open>daemon.go\<close>)\<close>

record ping_result =
  ping_Version :: string
  ping_SchemaVersion :: int
  ping_PID :: int

text \<open>\<open>ping\<close> is the answer to \<open>daemon.ping\<close> on the connection at hand.\<close>

definition daemon_start_cmd :: "client_env \<Rightarrow> time \<Rightarrow> (nat \<Rightarrow> ping_result result) \<Rightarrow> string printed list result option" where
  "daemon_start_cmd E now ping = (case socketPath E of Inl e \<Rightarrow> Some (Inl e)
     | Inr sock \<Rightarrow>
       (case (if e_dial E 0 = None then ping 0 else Inl ErrDaemonUnreachable) of
          Inr p \<Rightarrow> Some (Inr [Out (''daemon already running (pid '' @ Itoa (ping_PID p) @ '')'')])
        | Inl _ \<Rightarrow>
          (case e_spawn E of Some e \<Rightarrow> Some (Inl (Wrap [] ErrDaemonUnreachable ('': '' @ err_text e)))
           | None \<Rightarrow> (case waitDial E now (5 * Second) 1 of None \<Rightarrow> None
               | Some (Inl e) \<Rightarrow> Some (Inl (Wrap [] ErrDaemonUnreachable ('': daemon did not come up: '' @ err_text e)))
               | Some (Inr k) \<Rightarrow> Some (case ping k of Inl e \<Rightarrow> Inl e
                   | Inr p \<Rightarrow> Inr [Out (''daemon started (pid '' @ Itoa (ping_PID p) @ '')'')])))))"

definition daemon_stop_cmd :: "client_env \<Rightarrow> global_options \<Rightarrow> time \<Rightarrow> unit result \<Rightarrow> string printed list result option" where
  "daemon_stop_cmd E g now shutdown = (case socketPath E of Inl e \<Rightarrow> Some (Inl e)
     | Inr sock \<Rightarrow>
       if e_dial E 0 \<noteq> None then Some (Inl (Wrap [] ErrDaemonUnreachable ('' at '' @ sock)))
       else (case shutdown of Inl e \<Rightarrow> Some (Inl e)
         | Inr _ \<Rightarrow> (case waitGone E now (10 * Second) 1 of None \<Rightarrow> None
             | Some (Some e) \<Rightarrow> Some (Inl e)
             | Some None \<Rightarrow> Some (Inr (if g_quiet g then [] else [Out ''daemon stopped''])))))"

definition daemon_status_counts :: "string list \<Rightarrow> nat \<times> nat" where
  "daemon_status_counts statuses =
     (length (filter (\<lambda>s. s \<notin> {''SUCCEEDED'', ''FAILED'', ''STOPPED''}) statuses), length statuses)"

definition daemon_status_cmd ::
  "client_env \<Rightarrow> global_options \<Rightarrow> ping_result result \<Rightarrow> string list result
     \<Rightarrow> (ping_result \<times> string \<times> nat \<times> nat) printed list result" where
  "daemon_status_cmd E g ping tasks = (case socketPath E of Inl e \<Rightarrow> Inl e
     | Inr sock \<Rightarrow>
       if e_dial E 0 \<noteq> None then Inl (Wrap [] ErrDaemonUnreachable ('' at '' @ sock))
       else (case ping of Inl e \<Rightarrow> Inl e
         | Inr p \<Rightarrow> (case tasks of Inl e \<Rightarrow> Inl e
             | Inr statuses \<Rightarrow> (case daemon_status_counts statuses of (live, n) \<Rightarrow>
                 Inr (if g_jsonOut g then [JSON (p, sock, n, live)]
                   else [Out (''daemon running: pid '' @ Itoa (ping_PID p) @ '', version '' @ ping_Version p @
                       '' (schema '' @ Itoa (ping_SchemaVersion p) @ '')''),
                     Out (''socket: '' @ sock),
                     Out (''tasks: '' @ Itoa (int live) @ '' active / '' @ Itoa (int n) @ '' total'')])))))"

text \<open>The guard of \<open>defib daemon run\<close>: what it does before it hands over to the daemon's own loop.\<close>

definition daemon_run_guard :: "client_env \<Rightarrow> go_error option \<Rightarrow> ping_result result \<Rightarrow> go_error option \<Rightarrow> string result" where
  "daemon_run_guard E ensure ping writePid = (case e_dirs E of Inl e \<Rightarrow> Inl e
     | Inr d \<Rightarrow>
       (case ensure of Some e \<Rightarrow> Inl e | None \<Rightarrow>
       (case (if e_dial E 0 = None then ping else Inl ErrDaemonUnreachable) of
          Inr p \<Rightarrow> Inl (Err (''daemon already running (pid '' @ Itoa (ping_PID p) @ '')''))
        | Inl _ \<Rightarrow> (case writePid of Some e \<Rightarrow> Inl (Wrap ''write pid file: '' e []) | None \<Rightarrow> Inr (dir_Runtime d @ ''/daemon.sock'')))))"

section \<open>\<open>defib config\<close> (\<open>config_cmd.go\<close>)\<close>

text \<open>A decoded TOML document; a value that is neither a table nor a scalar is kept as it is.\<close>

datatype toml = TTable "(string \<times> toml) list" | TScalar scalar | TOther string

fun setDottedValue :: "(string \<times> toml) list \<Rightarrow> string list \<Rightarrow> toml \<Rightarrow> (string \<times> toml) list" where
  "setDottedValue m [] v = m"
| "setDottedValue m [p] v = AList.update p v m"
| "setDottedValue m (p # q # ps) v =
     AList.update p (TTable (setDottedValue (case map_of m p of Some (TTable t) \<Rightarrow> t | _ \<Rightarrow> []) (q # ps) v)) m"

text \<open>The kind of a scalar field, as a value of that kind: the reflection finds a provider's field by the rest of
  the key after the provider's name, any other by its dotted path. Other kinds are read as strings, as an
  unknown field is.\<close>

definition configFieldKind :: "string \<Rightarrow> scalar option" where
  "configFieldKind key = (case CutPrefix key ''providers.'' of
     Some rest \<Rightarrow> (case Cut rest (CHR ''.'') of None \<Rightarrow> None
       | Some (_, tag) \<Rightarrow> map_option (\<lambda>(get, put). get (entry_of [] Default)) (map_of entry_fields tag))
   | None \<Rightarrow> map_option (\<lambda>(get, put). get Default) (map_of struct_fields key))"

definition coerceScalar :: "cfg_libs \<Rightarrow> string \<Rightarrow> string \<Rightarrow> scalar result" where
  "coerceScalar C key v = (case configFieldKind key of None \<Rightarrow> Inr (SStr v) | Some kind \<Rightarrow> setScalar C kind v)"

text \<open>The files of \<open>writeConfigValue\<close>: what reading gives, the decoder and encoder of raw documents, and the
  failures of creating the directory, writing and renaming.\<close>

record config_writer =
  cw_read :: file_read
  cw_decode :: "string \<Rightarrow> (string \<times> toml) list result"
  cw_encode :: "(string \<times> toml) list \<Rightarrow> string result"
  cw_mkdir :: "go_error option"
  cw_write :: "go_error option"
  cw_rename :: "go_error option"

definition raw_document :: "config_writer \<Rightarrow> string \<Rightarrow> (string \<times> toml) list result" where
  "raw_document W path = (case cw_read W of NoFile \<Rightarrow> Inr []
     | ReadError e \<Rightarrow> Inl (Wrap (''read config '' @ path @ '': '') e [])
     | Contents data \<Rightarrow> (case cw_decode W data of Inl e \<Rightarrow> Inl (Wrap (''parse config '' @ path @ '': '') e []) | Inr m \<Rightarrow> Inr m))"

definition writeConfigValue :: "cfg_libs \<Rightarrow> config_writer \<Rightarrow> string \<Rightarrow> string \<Rightarrow> string \<Rightarrow> string \<Rightarrow> string result" where
  "writeConfigValue C W dir path key v =
     (case raw_document W path of Inl e \<Rightarrow> Inl e
      | Inr m \<Rightarrow> (case coerceScalar C key v of Inl e \<Rightarrow> Inl e
          | Inr s \<Rightarrow> (case cw_encode W (setDottedValue m (Split key (CHR ''.'')) (TScalar s)) of
               Inl e \<Rightarrow> Inl (Wrap ''marshal config: '' e [])
             | Inr text \<Rightarrow>
               (case cw_mkdir W of Some e \<Rightarrow> Inl (Wrap (''create config dir '' @ dir @ '': '') e [])
                | None \<Rightarrow> (case cw_write W of Some e \<Rightarrow> Inl (Wrap (''write config '' @ path @ '': '') e [])
                    | None \<Rightarrow> (case cw_rename W of Some e \<Rightarrow> Inl (Wrap (''write config '' @ path @ '': '') e [])
                        | None \<Rightarrow> Inr text))))))"

definition config_set_cmd ::
  "client_cfg \<Rightarrow> client_env \<Rightarrow> global_options \<Rightarrow> config_writer \<Rightarrow> string \<Rightarrow> string \<Rightarrow> string \<Rightarrow> (string \<times> string printed list) result" where
  "config_set_cmd X E g W dir key v = (case globalConfigPath E g of Inl e \<Rightarrow> Inl e
     | Inr path \<Rightarrow> (case client_Resolve X path [] [(key, v)] of Inl e \<Rightarrow> Inl (UsageError e)
         | Inr _ \<Rightarrow> (case writeConfigValue (cc_libs X) W dir path key v of Inl e \<Rightarrow> Inl e
             | Inr text \<Rightarrow> Inr (text, if g_quiet g then [] else [Out (''set '' @ key @ '' = '' @ v)]))))"

definition config_get_cmd ::
  "client_cfg \<Rightarrow> client_env \<Rightarrow> global_options \<Rightarrow> string result \<Rightarrow> string \<Rightarrow> (string \<times> string) printed list result" where
  "config_get_cmd X E g getwd key = (case globalConfigPath E g of Inl e \<Rightarrow> Inl e
     | Inr path \<Rightarrow> (case getwd of Inl e \<Rightarrow> Inl (Wrap ''resolve cwd: '' e [])
         | Inr cwd \<Rightarrow> (case client_Resolve X path cwd [] of Inl e \<Rightarrow> Inl e
             | Inr c \<Rightarrow> (case GetScalar (cc_libs X) c key of Inl e \<Rightarrow> Inl (UsageError e)
                 | Inr v \<Rightarrow> Inr (if g_jsonOut g then [JSON (key, v)] else [Out v])))))"

definition config_validate_cmd ::
  "client_cfg \<Rightarrow> libs \<Rightarrow> (string \<Rightarrow> go_error option) \<Rightarrow> (string \<Rightarrow> go_error option) \<Rightarrow> client_env \<Rightarrow> global_options \<Rightarrow> string
     \<Rightarrow> string list printed list result" where
  "config_validate_cmd X L lookPath stat E g chosen =
     (case (if chosen \<noteq> [] then Inr chosen else globalConfigPath E g) of Inl e \<Rightarrow> Inl e
      | Inr path \<Rightarrow> (case client_Resolve X path [] [] of Inl e \<Rightarrow> Inl e
          | Inr c \<Rightarrow> (case validate L (cc_libs X) lookPath stat c of
               (ws, Some e) \<Rightarrow> Inl e
             | (ws, None) \<Rightarrow> Inr (if g_jsonOut g then [JSON ws]
                 else map (\<lambda>w. ErrOut (''warning: '' @ w)) ws @ (if g_quiet g then [] else [Out ''config valid''])))))"

definition config_path_cmd ::
  "client_cfg \<Rightarrow> client_env \<Rightarrow> global_options \<Rightarrow> string result \<Rightarrow> (string \<times> string) printed list result" where
  "config_path_cmd X E g getwd = (case globalConfigPath E g of Inl e \<Rightarrow> Inl e
     | Inr path \<Rightarrow> (case getwd of Inl e \<Rightarrow> Inl (Wrap ''resolve cwd: '' e [])
         | Inr cwd \<Rightarrow> (case findProjectFile (cc_fs X) cwd of Inl e \<Rightarrow> Inl e
             | Inr project \<Rightarrow> Inr (if g_jsonOut g then [JSON (path, project)]
                 else [Out (''global: '' @ path), Out (''project: '' @ (if project = [] then ''(none)'' else project))]))))"

definition config_show_cmd ::
  "client_cfg \<Rightarrow> client_env \<Rightarrow> global_options \<Rightarrow> (config \<Rightarrow> string result) \<Rightarrow> string result \<Rightarrow> bool \<Rightarrow> config printed list result" where
  "config_show_cmd X E g marshal getwd effective = (case globalConfigPath E g of Inl e \<Rightarrow> Inl e
     | Inr path \<Rightarrow> (case (if effective then getwd else Inr []) of Inl e \<Rightarrow> Inl (Wrap ''resolve cwd: '' e [])
         | Inr dir \<Rightarrow> (case client_Resolve X path dir [] of Inl e \<Rightarrow> Inl e
             | Inr c \<Rightarrow> if g_jsonOut g then Inr [JSON c]
                 else (case marshal c of Inl e \<Rightarrow> Inl (Wrap ''marshal config: '' e []) | Inr s \<Rightarrow> Inr [Out s]))))"


section \<open>Exit codes\<close>

lemma as_ipc_Wrap_text: "as_usage (Wrap pre e post) = as_usage e" "as_ipc (Wrap pre e post) = as_ipc e"
  by simp_all

text \<open>The documented table.\<close>

definition documented_exit :: "string \<Rightarrow> int" where
  "documented_exit code = (if code = ''invalid_params'' then 2 else if code = ''not_found'' then 3
     else if code = ''conflict'' then 4 else if code = ''daemon_unreachable'' then 5
     else if code = ''provider_unavailable'' then 6 else 1)"

text \<open>The exit code is the documented one for the error code that is printed, and adding context to an error
  never changes either: 0 exactly on success, 2 for wrong usage or parameters, 3, 4 and 6 for the daemon's
  refusals, 5 when no daemon was reached, 1 for everything else (for a daemon that does not itself claim to be
  unreachable).\<close>

theorem exit_code_contract:
  assumes "\<And>e. r = Some e \<Longrightarrow> as_ipc e \<noteq> Some ''daemon_unreachable''"
  shows "(case execute_end r of (code, report) \<Rightarrow> (code = 0 \<longleftrightarrow> r = None) \<and>
      (case report of None \<Rightarrow> code = 0 | Some (ec, text) \<Rightarrow> code = documented_exit ec)) \<and>
    exitCode (Wrap pre e post) = exitCode e \<and> errorCode (Wrap pre e post) = errorCode e"
proof -
  have table: "exitCode x = documented_exit (errorCode x)" if "as_ipc x \<noteq> Some ''daemon_unreachable''" for x
    using that by (auto simp: exitCode_def errorCode_def documented_exit_def split: option.split)
  have pos: "exitCode x \<noteq> 0" for x by (simp add: exitCode_def split: option.split)
  have wrap: "exitCode (Wrap pre e post) = exitCode e \<and> errorCode (Wrap pre e post) = errorCode e"
    by (simp add: exitCode_def errorCode_def)
  show ?thesis
  proof (cases r)
    case None
    then show ?thesis using wrap by (simp add: execute_end_def)
  next
    case (Some x)
    let ?x = "if isUnknownCommandErr x then UsageError x else x"
    have "as_ipc ?x \<noteq> Some ''daemon_unreachable''" using assms Some by simp
    then show ?thesis using wrap Some table [of ?x] pos [of ?x] by (simp add: execute_end_def Let_def)
  qed
qed

theorem exit_code_contract_witness:
  "execute_end (Some (Wrap ''call: '' (IpcError ''not_found'' ''no task'') [])) = (3, Some (''not_found'', ''call: not_found: no task'')) \<and>
   execute_end (Some (Err ''unknown command \"x\" for \"defib\"'')) = (2, Some (''invalid_params'', ''unknown command \"x\" for \"defib\"'')) \<and>
   execute_end None = (0, None)"
proof -
  note c = exit_code_contract [where r = "Some (Wrap ''call: '' (IpcError ''not_found'' ''no task'') [])" and e = ErrNotFound]
  show ?thesis using c by (simp add: execute_end_def isUnknownCommandErr_def exitCode_def errorCode_def HasPrefix_def)
qed

section \<open>The daemon is reached or reported in bounded time\<close>

lemma dial_loop_returns:
  assumes "deadline < e_clock E (k + n)"
  shows "\<exists>r. dial_loop E deadline k = Some r"
  using assms
proof (induction n arbitrary: k)
  case 0
  then show ?case by (subst dial_loop.simps) (simp split: option.split)
next
  case (Suc n)
  then have "\<exists>r. dial_loop E deadline (Suc k) = Some r" by simp
  then show ?case by (subst dial_loop.simps) (simp split: option.split)
qed

lemma dial_loop_Inr:
  assumes "dial_loop E deadline k = Some r"
  shows "case r of Inr j \<Rightarrow> e_dial E j = None | Inl e \<Rightarrow> True"
  by (rule dial_loop.raw_induct [OF _ assms]) (auto split: option.splits if_splits)

text \<open>Reaching the daemon always comes to an end: as soon as the clock passes five seconds after the start of
  the daemon, \<open>connect\<close> has returned, either with a connection whose dial succeeded or with an error that exits
  with code 5; nothing else can go wrong once the socket's path is known.\<close>

theorem connect_returns:
  assumes "socketPath E = Inr sock" and "\<exists>n \<ge> 1. time_Add now (5 * Second) < e_clock E n"
  shows "\<exists>r. connect E g now = Some r \<and> (case r of Inr k \<Rightarrow> e_dial E k = None | Inl e \<Rightarrow> exitCode e = 5)"
proof -
  obtain n where n: "time_Add now (5 * Second) < e_clock E (1 + n)" using assms(2) by (metis le_Suc_ex)
  obtain r where r: "waitDial E now (5 * Second) 1 = Some r"
    using dial_loop_returns [OF n] unfolding waitDial_def by blast
  then have "case r of Inr j \<Rightarrow> e_dial E j = None | Inl e \<Rightarrow> True" using dial_loop_Inr unfolding waitDial_def by blast
  moreover have "exitCode (Wrap [] ErrDaemonUnreachable s) = 5" for s by (simp add: exitCode_def)
  ultimately show ?thesis
    using assms(1) r by (auto simp: connect_def split: option.split sum.splits)
qed

definition sleeping_env :: client_env where
  "sleeping_env = \<lparr>e_dirs = Inr \<lparr>dir_Config = ''/c'', dir_State = ''/s'', dir_Runtime = ''/r''\<rparr>,
     e_dial = (\<lambda>k. if k < 7 then Some (Err ''connection refused'') else None), e_clock = (\<lambda>k. int k * (50 * Millisecond)),
     e_canceled = (\<lambda>_. False), e_spawn = None, e_duration = (\<lambda>_. ''5s'')\<rparr>"

theorem connect_returns_witness:
  "\<exists>r. connect sleeping_env \<lparr>g_configPath = [], g_noAutostart = False, g_jsonOut = False, g_quiet = False\<rparr> 0 = Some r \<and>
     (case r of Inr k \<Rightarrow> e_dial sleeping_env k = None | Inl e \<Rightarrow> exitCode e = 5)"
proof (rule connect_returns)
  show "socketPath sleeping_env = Inr (filepath_Join [''/r'', ''daemon.sock''])" by (simp add: socketPath_def sleeping_env_def)
  show "\<exists>n \<ge> 1. time_Add 0 (5 * Second) < e_clock sleeping_env n"
    by (intro exI [of _ 200]) (simp add: sleeping_env_def time_Add_def)
qed


section \<open>Editing the configuration file\<close>

fun getDotted :: "(string \<times> toml) list \<Rightarrow> string list \<Rightarrow> toml option" where
  "getDotted m [] = None"
| "getDotted m [p] = map_of m p"
| "getDotted m (p # q # ps) = (case map_of m p of Some (TTable t) \<Rightarrow> getDotted t (q # ps) | _ \<Rightarrow> None)"

lemma getDotted_set: "ps \<noteq> [] \<Longrightarrow> getDotted (setDottedValue m ps v) ps = Some v"
  by (induction m ps v rule: setDottedValue.induct) (simp_all add: update_conv')

definition incomparable :: "'a list \<Rightarrow> 'a list \<Rightarrow> bool" where
  "incomparable ps qs \<longleftrightarrow> take (length qs) ps \<noteq> qs \<and> take (length ps) qs \<noteq> ps"

lemma getDotted_other: "incomparable ps qs \<Longrightarrow> getDotted (setDottedValue m ps v) qs = getDotted m qs"
proof (induction m ps v arbitrary: qs rule: setDottedValue.induct)
  case (2 m p v)
  consider "qs = []" | r where "qs = [r]" | r s rs where "qs = r # s # rs" by (metis neq_Nil_conv)
  then show ?case using 2 by cases (auto simp: incomparable_def update_conv')
next
  case (3 m p q ps v)
  consider "qs = []" | r where "qs = [r]" | r s rs where "qs = r # s # rs" by (metis neq_Nil_conv)
  then show ?case
  proof cases
    case (3 r s rs)
    show ?thesis
    proof (cases "r = p")
      case True
      then have inc: "incomparable (q # ps) (s # rs)" using 3 \<open>incomparable (p # q # ps) qs\<close> by (auto simp: incomparable_def)
      have none: "getDotted [] (s # rs) = None" by (cases rs) simp_all
      show ?thesis
        using "3.IH" [OF inc] none 3 True by (auto simp: update_conv' split: option.split toml.split)
    qed (simp add: 3 update_conv')
  qed (use \<open>incomparable (p # q # ps) qs\<close> in \<open>auto simp: incomparable_def update_conv'\<close>)
qed (simp add: incomparable_def)

lemma struct_get_kind: "f \<in> set struct_fields \<Longrightarrow> same_kind (fst (snd f) c) (fst (snd f) c')"
proof -
  have "list_all (\<lambda>f. same_kind (fst (snd f) c) (fst (snd f) c')) struct_fields" by (simp add: struct_fields_def)
  then show "f \<in> set struct_fields \<Longrightarrow> ?thesis" by (simp add: list_all_iff)
qed

lemma entry_get_kind: "f \<in> set entry_fields \<Longrightarrow> same_kind (fst (snd f) e) (fst (snd f) e')"
proof -
  have "list_all (\<lambda>f. same_kind (fst (snd f) e) (fst (snd f) e')) entry_fields" by (simp add: entry_fields_def)
  then show "f \<in> set entry_fields \<Longrightarrow> ?thesis" by (simp add: list_all_iff)
qed

lemma coerceScalar_kind:
  assumes "key \<in> scalar_keys c" and "\<And>p. p \<in> set (provider_names c) \<Longrightarrow> CHR ''.'' \<notin> set p"
  shows "coerceScalar C key v = setScalar C (scalar_get key c) v"
proof -
  obtain f where f: "f \<in> set (scalar_fields c)" "fst f = key" "scalar_get key c = fst (snd f) c"
    using scalar_key_field [OF assms(1)] by metis
  show ?thesis
    using f(1)
  proof (cases rule: field_cases)
    case 1
    have "CutPrefix key ''providers.'' = None"
    proof (rule ccontr)
      assume "CutPrefix key ''providers.'' \<noteq> None"
      then obtain t where "CutPrefix key ''providers.'' = Some t" by auto
      then have "fst f = ''providers.'' @ t" unfolding CutPrefix_Some f(2) .
      then show False using struct_keys_no_provider [OF 1] by blast
    qed
    moreover have "(key, snd f) \<in> set struct_fields" using 1 by (simp add: f(2) [symmetric])
    then have "map_of struct_fields key = Some (snd f)" using struct_keys_distinct by (rule map_of_is_SomeI [rotated])
    ultimately have "configFieldKind key = Some (fst (snd f) Default)" by (simp add: configFieldKind_def split_beta)
    then show ?thesis using setScalar_kind_cong [OF struct_get_kind [OF 1, of Default c], of C v] f(3) by (simp add: coerceScalar_def)
  next
    case (2 p e)
    have "key = ''providers.'' @ (p @ CHR ''.'' # fst e)" using 2(3) f(2) by (simp add: provider_field_sel)
    moreover have "Cut (p @ CHR ''.'' # fst e) (CHR ''.'') = Some (p, fst e)" using assms(2) 2(1) by (intro Cut_append) simp
    moreover have "(fst e, snd e) \<in> set entry_fields" using 2(2) by simp
    then have "map_of entry_fields (fst e) = Some (snd e)" using entry_keys_distinct by (rule map_of_is_SomeI [rotated])
    ultimately have "configFieldKind key = Some (fst (snd e) (entry_of [] Default))"
      by (simp only: configFieldKind_def CutPrefix_append option.case prod.case) (simp add: split_beta)
    then show ?thesis using setScalar_kind_cong [OF entry_get_kind [OF 2(2), of "entry_of [] Default" "entry_of p c"], of C v] f(3) 2(3)
      by (simp add: coerceScalar_def provider_field_sel)
  qed
qed

text \<open>C39: \<open>config set\<close> writes its key and nothing else: in the document it stores, the dotted key holds the value
  that the daemon's layered resolution would parse from the same text, and every key that is neither above nor
  below it holds what it held before (for provider names without a point).\<close>

theorem config_set_writes_only_its_key:
  assumes "writeConfigValue C W dir path key v = Inr text" and "key \<in> scalar_keys c"
    and "\<And>p. p \<in> set (provider_names c) \<Longrightarrow> CHR ''.'' \<notin> set p"
  shows "\<exists>old new s. raw_document W path = Inr old \<and> cw_encode W new = Inr text \<and>
    getDotted new (Split key (CHR ''.'')) = Some (TScalar s) \<and> setScalar C (scalar_get key c) v = Inr s \<and>
    (\<forall>qs. incomparable (Split key (CHR ''.'')) qs \<longrightarrow> getDotted new qs = getDotted old qs)"
proof -
  obtain m where m: "raw_document W path = Inr m" using assms(1) by (auto simp: writeConfigValue_def split: sum.splits)
  obtain s where s: "coerceScalar C key v = Inr s" using assms(1) m by (auto simp: writeConfigValue_def split: sum.splits)
  let ?new = "setDottedValue m (Split key (CHR ''.'')) (TScalar s)"
  have "cw_encode W ?new = Inr text"
    using assms(1) m s by (auto simp: writeConfigValue_def split: sum.splits option.splits)
  moreover have "setScalar C (scalar_get key c) v = Inr s" using s coerceScalar_kind [OF assms(2,3)] by simp
  ultimately show ?thesis
    using m getDotted_set [of "Split key (CHR ''.'')"] getDotted_other Split_not_Nil by blast
qed

definition sample_writer :: config_writer where
  "sample_writer = \<lparr>cw_read = Contents [], cw_decode = (\<lambda>_. Inr [(''retry'', TTable [(''on_unknown'', TScalar (SStr ''fail''))])]),
     cw_encode = (\<lambda>m. Inr (if m = [] then ''0'' else ''1'')), cw_mkdir = None, cw_write = None, cw_rename = None\<rparr>"

theorem config_set_writes_only_its_key_witness:
  "\<exists>new. getDotted new [''retry'', ''max_attempts''] = Some (TScalar (SInt 3)) \<and>
     getDotted new [''retry'', ''on_unknown''] = Some (TScalar (SStr ''fail''))"
proof -
  have k: "''retry.max_attempts'' \<in> scalar_keys Default" "scalar_get ''retry.max_attempts'' Default = SInt 0"
    by (simp_all add: scalar_keys_def scalar_get_def scalar_fields_def struct_fields_def Default_def)
  have p: "CHR ''.'' \<notin> set p" if "p \<in> set (provider_names Default)" for p using that by (auto simp: Default_def)
  have sp: "Split ''retry.max_attempts'' (CHR ''.'') = [''retry'', ''max_attempts'']" and n: "Atoi ''3'' = Some 3" by code_simp+
  have "coerceScalar plain_cfg_libs ''retry.max_attempts'' ''3'' = Inr (SInt 3)"
    using coerceScalar_kind [OF k(1) p] k(2) n by simp
  then have "writeConfigValue plain_cfg_libs sample_writer ''/c'' ''/c/config.toml'' ''retry.max_attempts'' ''3'' = Inr ''1''"
    by (simp add: writeConfigValue_def raw_document_def sample_writer_def sp)
  from config_set_writes_only_its_key [OF this k(1) p, unfolded sp] obtain old new s where
    o: "raw_document sample_writer ''/c/config.toml'' = Inr old" "getDotted new [''retry'', ''max_attempts''] = Some (TScalar s)"
    "setScalar plain_cfg_libs (SInt 0) ''3'' = Inr s"
    "\<forall>qs. incomparable [''retry'', ''max_attempts''] qs \<longrightarrow> getDotted new qs = getDotted old qs"
    unfolding k(2) by blast
  have "s = SInt 3" "old = [(''retry'', TTable [(''on_unknown'', TScalar (SStr ''fail''))])]"
    using o(1,3) n by (simp_all add: raw_document_def sample_writer_def)
  moreover have "incomparable [''retry'', ''max_attempts''] [''retry'', ''on_unknown'']" by (simp add: incomparable_def)
  ultimately have w: "s = SInt 3" "getDotted new [''retry'', ''on_unknown''] =
      getDotted [(''retry'', TTable [(''on_unknown'', TScalar (SStr ''fail''))])] [''retry'', ''on_unknown'']"
    using o(4) by blast+
  have "getDotted new [''retry'', ''on_unknown''] = Some (TScalar (SStr ''fail''))" unfolding w(2) by simp
  then show ?thesis using o(2) w(1) by blast
qed

end
