(* ===== verification/SupervisorProps.thy ===== *)
theory SupervisorProps
  imports Supervisor
begin

text \<open>
  The properties of the per-task state machine of \<open>Supervisor\<close>, with the sample task, world and
  dependencies their witnesses run.
\<close>

section \<open>The life cycle and the database\<close>

text \<open>C1: every \<open>Handle\<close> refines the documented life cycle. If it reports an error, the database is
  exactly what it was and the task in memory differs from the old one at most in its accounted waiting
  time. Otherwise it either ignores the event without any effect, or takes one transition of the table;
  a transition never touches the task's identity, prompt, arguments, snapshot or a known session, and
  counts an attempt exactly when the task is running afterwards.\<close>

theorem Handle_refines_lifecycle:
  assumes "Handle D ev s w = (r, s', w')"
  shows "case r of
      Some e \<Rightarrow> w_db w' = w_db w \<and> forget_wait (s_task s') = forget_wait (s_task s)
    | None \<Rightarrow> s' = s \<and> w_db w' = w_db w \<and> w_trace w' = w_trace w \<or>
        lifecycle (Status (s_task s)) ev (Status (s_task s')) \<and> same_identity (s_task s) (s_task s') \<and>
        TotalAttempts (s_task s') = TotalAttempts (s_task s) + (if Status (s_task s') = RUNNING then 1 else 0)"
proof (cases r)
  case None
  then show ?thesis using Handle_transition assms by simp
next
  case (Some e)
  then show ?thesis using Handle_error assms by simp
qed

definition fake_engine :: engine where
  "fake_engine = map compiled (sort_desc rule_Priority fake_DetectionRules)"

definition sample_deps :: deps where
  "sample_deps = \<lparr>d_provider = fake (Inr ''/bin/defib''), d_libs = fake_libs, d_engine = fake_engine,
     d_rng = (\<lambda>_. 1 / 2), d_clock = (\<lambda>k. int k * Second), d_spawn = (\<lambda>k. Inr (100 + int k)),
     d_kill = (\<lambda>_. None), d_uuid = (\<lambda>k. Itoa (int k)), d_fault = (\<lambda>_. NoFault),
     d_files = (\<lambda>_ _. Inr (''o'', ''e'')), d_probe = False, d_json = (\<lambda>_. ''{}'')\<rparr>"

definition sample_policy :: sup_policy where
  "sample_policy = \<lparr>Scheduler_policy = default_policy, OnUnknown = ''retry'', ScanBytes = 1000,
     ProbeInterval = 0\<rparr>"

definition sample_sup :: supervisor where
  "sample_sup = New sample_task sample_spec sample_policy"

definition sample_world :: world where
  "sample_world = \<lparr>w_db = empty_db\<lparr>db_tasks := [row_of_task sample_task]\<rparr>, w_timers = NewTimers,
     w_pstate = Map.empty, w_step = 0, w_rng = 0, w_trace = []\<rparr>"

text \<open>What evaluates the model on the sample.\<close>

lemmas db_eval = UpdateTaskTx_def and_then_def event_stmt_def drop_id_def Tx_AppendEvent_def Tx_UpdateTask_def
  Tx_AddAttempt_def Tx_UpdateAttempt_def Let_def empty_db_def persistAttempt_def

lemmas sup_eval = Handle_def spawnAttempt_def stop_def pause_def wake_def attemptExit_def recordPausedExit_def
  persist_def finish_def fail_task_def clock_Now_def do_Spawn_def do_Kill_def NewString_def buildCommand_def
  stopProber_def startProber_def account_wait_def Terminal_def closeAttempt_def

lemmas sample_eval = sample_deps_def sample_sup_def New_def sample_world_def sample_task_def sample_policy_def
  NewTimers_def timers_Cancel_def timers_Arm_def row_of_task_def row_of_attempt_def sample_spec_def fake_def
  fake_Capabilities_def full_capabilities_def fake_BuildStart_def fake_BuildResume_def fake_command_def scriptPath_def
  deref_def

theorem Handle_refines_lifecycle_witness:
  "\<exists>s' w'. Handle sample_deps EventUserStop sample_sup sample_world = (None, s', w') \<and>
     Status (s_task s') = STOPPED \<and> lifecycle PENDING EventUserStop STOPPED"
proof -
  obtain r s' w' where h: "Handle sample_deps EventUserStop sample_sup sample_world = (r, s', w')"
    by (metis prod_cases3)
  moreover have "(case Handle sample_deps EventUserStop sample_sup sample_world of (r, s', w') \<Rightarrow>
      r = None \<and> Status (s_task s') = STOPPED) \<and> Status (s_task sample_sup) = PENDING"
    by (simp add: sup_eval db_eval sample_eval)
  ultimately have "r = None" "Status (s_task s') = STOPPED" "Status (s_task sample_sup) = PENDING" by simp_all
  with Handle_refines_lifecycle [OF h] h show ?thesis by (cases "s' = sample_sup") auto
qed

text \<open>A terminal task stays as it is: whatever events still arrive, nothing is spawned, killed, armed,
  announced or written.\<close>

theorem terminal_is_final:
  assumes "Status (s_task s) \<in> {SUCCEEDED, FAILED, STOPPED}"
  shows "Handle D ev s w = (None, s, w) \<and> Run D evs s w = (None, s, w)"
proof -
  have "Terminal (Status (s_task s))" using assms by (simp add: Terminal_def)
  then show ?thesis using Handle_terminal by (cases evs) auto
qed

theorem terminal_is_final_witness:
  "Run sample_deps [EventStart, EventUserResume] (sample_sup\<lparr>s_task := sample_task\<lparr>Status := FAILED\<rparr>\<rparr>) sample_world
     = (None, sample_sup\<lparr>s_task := sample_task\<lparr>Status := FAILED\<rparr>\<rparr>, sample_world)"
  using terminal_is_final [of "sample_sup\<lparr>s_task := sample_task\<lparr>Status := FAILED\<rparr>\<rparr>" sample_deps _
      sample_world "[EventStart, EventUserResume]"] by simp

text \<open>C7: from the creation of a task on, through any sequence of events and any failures of the outside,
  its row in the database is the supervisor's task (after an error, up to the accounted waiting time
  only), and its attempts are numbered 1 to \<open>TotalAttempts\<close> without gap or repetition, so the
  uniqueness constraint on them never stops a task.\<close>

theorem database_matches_memory:
  assumes "db_ok d" and "Tx_CreateTask t d = Inr (w_db w)" and "TotalAttempts t = 0"
    and "Run D evs (New t sp pol) w = (r, s', w')"
  shows "\<exists>u. task_row (ID t) (w_db w') = Some (row_of_task u) \<and> forget_wait u = forget_wait (s_task s') \<and>
    (r = None \<longrightarrow> u = s_task s') \<and> attempt_nos (ID t) (w_db w') = [1..TotalAttempts u] \<and> db_ok (w_db w')"
proof -
  have new: "ID t \<notin> ID ` set (db_tasks d)" "w_db w = d\<lparr>db_tasks := db_tasks d @ [row_of_task t]\<rparr>"
    using assms(2) by (auto simp: Tx_CreateTask_Inr)
  have "a_TaskID r \<noteq> ID t" if r: "r \<in> set (db_attempts d)" for r
  proof -
    have "(a_ID r, a_TaskID r, a_AttemptNo r) \<in> set (attempt_keys d)" using r by (simp add: attempt_keys_def)
    then have "a_TaskID r \<in> set (map ID (db_tasks d))"
      using assms(1) unfolding db_ok_def keys_ok_def by blast
    then show ?thesis using new(1) by auto
  qed
  then have "attempt_nos (ID t) (w_db w) = []" using new(2) by (simp add: attempt_nos_def filter_empty_conv)
  then have "sup_inv (s_task (New t sp pol)) (w_db w)"
    using assms(3) db_ok_CreateTask [OF assms(2,1)] task_row_CreateTask [OF assms(2)]
    by (simp add: sup_inv_def New_def)
  from Run_inv [OF assms(4) this] obtain u where u: "sup_inv u (w_db w')"
    "forget_wait u = forget_wait (s_task s')" "r = None \<longrightarrow> u = s_task s'" by blast
  moreover have "ID u = ID t"
    using forget_wait_ID [OF u(2)] Run_ID [OF assms(4)] by (simp add: New_def)
  ultimately show ?thesis by (auto simp: sup_inv_def)
qed

theorem database_matches_memory_witness:
  "\<exists>r s' w'. Run sample_deps [EventStart, EventUserPause] sample_sup sample_world = (r, s', w') \<and>
     attempt_nos ''t1'' (w_db w') = [1..TotalAttempts (s_task s')] \<and> r = None"
proof -
  obtain r s' w' where h: "Run sample_deps [EventStart, EventUserPause] sample_sup sample_world = (r, s', w')"
    by (metis prod_cases3)
  have "Tx_CreateTask sample_task empty_db = Inr (w_db sample_world)"
    by (simp add: Tx_CreateTask_Inr sample_world_def empty_db_def)
  from database_matches_memory [OF db_ok_empty this _ h [unfolded sample_sup_def]]
  have "\<exists>u. (r = None \<longrightarrow> u = s_task s') \<and> attempt_nos ''t1'' (w_db w') = [1..TotalAttempts u]"
    by (auto simp: sample_task_def)
  moreover have "fst (Run sample_deps [EventStart, EventUserPause] sample_sup sample_world) = None"
    by (simp add: sup_eval db_eval sample_eval)
  ultimately show ?thesis using h by auto
qed

section \<open>Sessions\<close>

text \<open>C9: once a session is known it is resumed, with that very reference: every attempt but the first, and
  the first one too when the task was created on an existing session, asks a resuming provider for a
  resume command; and no event ever replaces a known reference.\<close>

theorem known_session_is_resumed:
  assumes "SessionRef (s_task s) = Some ref" and "ref \<noteq> []" and "cap_Resume (p_Capabilities (d_provider D))"
    and "TotalAttempts (s_task s) \<noteq> 0 \<or> SessionMode (s_task s) = ''existing''"
  shows "fst (buildCommand D s w) = fst (p_BuildResume (d_provider D) (s_spec s) ref (w_pstate w)) \<and>
    fst (snd (buildCommand D s w)) \<and>
    (\<forall>ev r s' w'. Handle D ev s w = (r, s', w') \<longrightarrow> SessionRef (s_task s') = Some ref)"
proof (intro conjI allI impI)
  show "fst (buildCommand D s w) = fst (p_BuildResume (d_provider D) (s_spec s) ref (w_pstate w))"
    "fst (snd (buildCommand D s w))"
    using assms by (auto simp: buildCommand_def deref_def Let_def split: prod.splits)
  fix ev r s' w' assume h: "Handle D ev s w = (r, s', w')"
  show "SessionRef (s_task s') = Some ref"
  proof (cases r)
    case None
    then show ?thesis using Handle_transition [of D ev s w s' w'] h assms(1,2)
      by (auto simp: same_identity_def deref_def)
  next
    case (Some e)
    then have "forget_wait (s_task s') = forget_wait (s_task s)" using Handle_error h by blast
    then have "SessionRef (forget_wait (s_task s')) = SessionRef (forget_wait (s_task s))" by simp
    then show ?thesis using assms(1) by (simp add: forget_wait_def)
  qed
qed

theorem known_session_is_resumed_witness:
  "\<exists>c st. p_BuildResume (d_provider sample_deps) sample_spec ''s1'' Map.empty = (c, st) \<and>
     fst (buildCommand sample_deps (sample_sup\<lparr>s_task := sample_task\<lparr>SessionRef := Some ''s1'', TotalAttempts := 1\<rparr>\<rparr>)
       sample_world) = c"
proof -
  let ?s = "sample_sup\<lparr>s_task := sample_task\<lparr>SessionRef := Some ''s1'', TotalAttempts := 1\<rparr>\<rparr>"
  have "SessionRef (s_task ?s) = Some ''s1''" "''s1'' \<noteq> []" "cap_Resume (p_Capabilities (d_provider sample_deps))"
    "TotalAttempts (s_task ?s) \<noteq> 0 \<or> SessionMode (s_task ?s) = ''existing''"
    by (simp_all add: sample_deps_def fake_def fake_Capabilities_def full_capabilities_def)
  from known_session_is_resumed [OF this, of sample_world] show ?thesis
    by (auto simp: sample_sup_def New_def sample_world_def intro: prod.collapse [symmetric])
qed

section \<open>Waiting\<close>


definition sample_running :: supervisor where
  "sample_running = sample_sup\<lparr>s_task := sample_task\<lparr>Status := RUNNING, TotalAttempts := 1\<rparr>\<rparr>"

text \<open>The sample's output carries a reset time an hour ahead.\<close>

definition limit_output :: string where
  "limit_output = ''FAKE_RESET_AT='' @ format_RFC3339Nano (3600 * Second) @ [CHR 0x0A]"

lemma classify_limit:
  "classify sample_deps sample_running (EventAttemptExit 1 limit_output []) 0
     = \<lparr>res_Category = CategoryRateLimit, res_MatchedRule = ''fake.reset'', res_ResetAt = Some (3600 * Second)\<rparr>"
proof -
  have out: "Tail limit_output 1000 = limit_output" "Tail [] 1000 = ([] :: string)" by code_simp+
  have "Classify fake_libs fake_engine \<lparr>in_ExitCode = 1, in_Stdout = limit_output, in_Stderr = []\<rparr> 0
     = \<lparr>res_Category = CategoryRateLimit, res_MatchedRule = ''fake.reset'', res_ResetAt = Some (3600 * Second)\<rparr>"
    by code_simp
  then show ?thesis
    by (simp add: classify_def ev_input_def sample_deps_def sample_running_def sample_sup_def New_def
        sample_policy_def out)
qed


section \<open>Two flaws\<close>

text \<open>C23: pausing a running task and resuming it starts a second child next to the first: pause leaves the
  child running, resume starts the next attempt without killing or awaiting it, and the open attempt the
  supervisor remembers is the new one, so the first child's exit will be recorded on it.\<close>

theorem resume_starts_second_child:
  assumes "Status (s_task s) = RUNNING" and "s_currentAttempt s = Some a" and "a_AttemptNo a = TotalAttempts (s_task s)"
    and "Handle D EventUserPause s w = (None, s1, w1)"
    and "Handle D EventUserResume s1 w1 = (None, s2, w2)" and "Status (s_task s2) = RUNNING"
  shows "\<exists>argv pid t a2. w_trace w2 = w_trace w @ [Notified t, Spawned (TotalAttempts (s_task s) + 1) argv (Inr pid),
      Notified (s_task s2)] \<and>
    s_currentAttempt s1 = Some a \<and> s_currentAttempt s2 = Some a2 \<and> a_AttemptNo a2 = a_AttemptNo a + 1"
proof -
  have "pause D s w = (None, s1, w1)" using assms(1,4) by (simp add: Handle_def)
  from pause_committed [OF this] obtain t where p: "Status (s_task s1) = PAUSED" "s_currentAttempt s1 = s_currentAttempt s"
    "w_trace w1 = w_trace w @ [Notified t]" by blast
  have tot: "TotalAttempts (s_task s1) = TotalAttempts (s_task s)"
    using Handle_transition [OF assms(4)] p(1) by auto
  have "wake D EventUserResume s1 w1 = (None, s2, w2)" using assms(5) p(1) by (simp add: Handle_def)
  from wake_trace [OF this assms(6)] show ?thesis using p tot assms(2,3) by auto
qed

definition sample_attempt :: attempt where
  "sample_attempt = \<lparr>a_ID = ''a1'', a_TaskID = ''t1'', a_AttemptNo = 1, a_PID = Some 7, a_StartedAt = 0,
     a_EndedAt = None, a_ExitCode = None, a_Outcome = None, a_ResetAt = None, a_MatchedRule = None,
     a_StdoutPath = ''o'', a_StderrPath = ''e''\<rparr>"

theorem resume_starts_second_child_witness:
  "\<exists>s0 s2 w2 t argv pid. Run sample_deps [EventUserPause, EventUserResume] s0 sample_world = (None, s2, w2) \<and>
     s_currentAttempt s0 = Some sample_attempt \<and>
     w_trace w2 = w_trace sample_world @ [Notified t, Spawned 2 argv (Inr pid), Notified (s_task s2)]"
proof -
  let ?s0 = "sample_running\<lparr>s_currentAttempt := Some sample_attempt\<rparr>"
  obtain r1 s1 w1 where h1: "Handle sample_deps EventUserPause ?s0 sample_world = (r1, s1, w1)" by (metis prod_cases3)
  obtain r2 s2 w2 where h2: "Handle sample_deps EventUserResume s1 w1 = (r2, s2, w2)" by (metis prod_cases3)
  have "case Handle sample_deps EventUserPause ?s0 sample_world of (r1, s1, w1) \<Rightarrow> r1 = None \<and> Status (s_task s1) = PAUSED \<and>
        (case Handle sample_deps EventUserResume s1 w1 of (r2, s2, w2) \<Rightarrow> r2 = None \<and> Status (s_task s2) = RUNNING)"
    by (simp add: sup_eval db_eval sample_eval sample_running_def)
  then have e: "r1 = None" "Status (s_task s1) = PAUSED" "r2 = None" "Status (s_task s2) = RUNNING"
    by (simp_all only: h1 h2 prod.case)
  have st: "Status (s_task ?s0) = RUNNING" "TotalAttempts (s_task ?s0) = 1" "s_currentAttempt ?s0 = Some sample_attempt"
    "a_AttemptNo sample_attempt = TotalAttempts (s_task ?s0)"
    by (simp_all add: sample_running_def sample_attempt_def)
  have "Run sample_deps [EventUserPause, EventUserResume] ?s0 sample_world = (None, s2, w2)"
    using e st(1) h1 h2 by (simp add: Terminal_def)
  moreover obtain t argv pid where "w_trace w2 = w_trace sample_world @ [Notified t, Spawned (TotalAttempts (s_task ?s0) + 1) argv (Inr pid),
      Notified (s_task s2)]"
    using resume_starts_second_child [OF st(1,3,4) h1 [unfolded e] h2 [unfolded e] e(4)] by blast
  ultimately show ?thesis unfolding st(2) using st(3) by (metis one_add_one)
qed

text \<open>A wake timer that fires before \<open>next_wake_at\<close>, which a clock set back is enough for, strands the
  task: the arm is used up, the event is dropped without a new arm, and no later step of any timer wakes
  the task, which is still WAITING.\<close>

theorem early_fire_strands_task:
  assumes "Status (s_task s) = WAITING" and "NextWakeAt (s_task s) = Some nw"
    and "timer_expire a (w_timers w0) = (ts, Some (ID (s_task s)))"
    and "w = w0\<lparr>w_timers := ts\<rparr>" and "d_clock D (w_step w) < nw"
  shows "\<exists>w'. Handle D EventTimerFire s w = (None, s, w') \<and> \<not> timers_Armed (w_timers w') (ID (s_task s)) \<and>
    (\<forall>ys. filter (arms_task (ID (s_task s))) ys = [] \<longrightarrow>
       ID (s_task s) \<notin> set (snd (timer_run ys (w_timers w'))))"
proof -
  obtain w' where w': "clock_Now D w = (d_clock D (w_step w), w')" "w_timers w' = ts"
    using assms(4) by (simp add: clock_Now_def)
  have "Handle D EventTimerFire s w = (None, s, w')" using assms w' by (simp add: Handle_def)
  moreover have na: "\<not> timers_Armed ts (ID (s_task s))"
    using timers_Armed_expire [of a "w_timers w0" "ID (s_task s)"] assms(3) by simp
  moreover have "ID (s_task s) \<notin> set (snd (timer_run ys ts))"
    if "filter (arms_task (ID (s_task s))) ys = []" for ys
    using timer_run_balance [of ys ts "ID (s_task s)"] na that by (auto simp: count_list_0_iff split: if_splits)
  ultimately show ?thesis using w'(2) by auto
qed

definition sample_waiting :: supervisor where
  "sample_waiting = sample_sup\<lparr>s_task := sample_task\<lparr>Status := WAITING, NextWakeAt := Some (5 * Second)\<rparr>\<rparr>"

theorem early_fire_strands_task_witness:
  "\<exists>w w'. Status (s_task sample_waiting) = WAITING \<and>
     Handle sample_deps EventTimerFire sample_waiting w = (None, sample_waiting, w') \<and>
     \<not> timers_Armed (w_timers w') ''t1''"
proof -
  let ?w0 = "sample_world\<lparr>w_timers := timers_Arm 0 ''t1'' (5 * Second) NewTimers, w_step := 3\<rparr>"
  have st: "Status (s_task sample_waiting) = WAITING" "NextWakeAt (s_task sample_waiting) = Some (5 * Second)"
    "ID (s_task sample_waiting) = ''t1''" by (simp_all add: sample_waiting_def sample_task_def)
  obtain ts where ts: "timer_expire 0 (w_timers ?w0) = (ts, Some ''t1'')"
    by (simp add: timer_expire_def timers_Arm_def timers_Cancel_def NewTimers_def)
  then have ts': "timer_expire 0 (w_timers ?w0) = (ts, Some (ID (s_task sample_waiting)))" by (simp only: st(3))
  have "d_clock sample_deps (w_step (?w0\<lparr>w_timers := ts\<rparr>)) < 5 * Second" by (simp add: sample_deps_def)
  from early_fire_strands_task [OF st(1,2) ts' refl this] st show ?thesis by metis
qed

section \<open>Well-formed tasks\<close>

text \<open>The fields a status stands for: a wake time exactly while waiting, an exit reason exactly at the end, and
  the current attempt is the last one.\<close>

definition task_wf :: "task \<Rightarrow> bool" where
  "task_wf t \<longleftrightarrow> (NextWakeAt t \<noteq> None \<longleftrightarrow> Status t = WAITING) \<and> (ExitReason t \<noteq> None \<longleftrightarrow> Terminal (Status t)) \<and>
     CurrentAttempt t = TotalAttempts t"

abbreviation sup_of :: "outcome \<Rightarrow> supervisor" where
  "sup_of out \<equiv> fst (snd out)"

lemma persist_wf: "task_wf (s_task s) \<Longrightarrow> task_wf nxt \<Longrightarrow> task_wf (s_task (sup_of (persist D nxt fn s w)))"
  by (simp add: persist_def split_beta Let_def split: option.split)

lemma wf_account [simp]: "task_wf (account_wait now since t) = task_wf t"
  "ExitReason (account_wait now since t) = ExitReason t" "CurrentAttempt (account_wait now since t) = CurrentAttempt t"
  by (simp_all add: task_wf_def account_wait_def)

lemma wf_stopProber [simp]: "s_task (stopProber s) = s_task s" "s_task (startProber D s) = s_task s"
  by (simp_all add: stopProber_def startProber_def)

lemma wf_fail_task: "task_wf (s_task s) \<Longrightarrow> task_wf (s_task (sup_of (fail_task D reason s w)))"
  by (auto simp: fail_task_def split_beta Let_def intro!: persist_wf) (simp add: task_wf_def Terminal_def)

lemma wf_spawnAttempt:
  assumes "task_wf (s_task s)" and "\<not> Terminal (Status (s_task s))"
  shows "task_wf (s_task (sup_of (spawnAttempt D cause s w)))"
proof -
  have "task_wf ((s_task s)\<lparr>Status := RUNNING, CurrentAttempt := n, TotalAttempts := n, NextWakeAt := None, UpdatedAt := now\<rparr>)" for n now
    using assms by (simp add: task_wf_def Terminal_def)
  then show ?thesis
    using assms(1) by (auto simp: spawnAttempt_def split_beta Let_def wf_fail_task intro!: persist_wf split: sum.split option.split)
qed

lemma wf_finish:
  assumes "task_wf (s_task s)" and "CurrentAttempt nxt = TotalAttempts nxt" and "Terminal st"
  shows "task_wf (s_task (sup_of (finish D nxt st reason r s w)))"
  using assms by (auto simp: finish_def Let_def intro!: persist_wf) (auto simp: task_wf_def Terminal_def)

lemma adopted_sel [simp]: "CurrentAttempt (adoptSessionRef D s ev t) = CurrentAttempt t"
  "ExitReason (adoptSessionRef D s ev t) = ExitReason t"
  by (simp_all add: adoptSessionRef_def split: option.split)

text \<open>C37: the fields of a task always agree with its status: every event keeps a task well formed, whether the
  handler acts, ignores the event or fails. A task has a wake time exactly while it waits and an exit reason
  exactly when it is terminal, and its current attempt is its last one.\<close>

theorem Handle_keeps_task_wf:
  assumes "task_wf (s_task s)" and "Handle D ev s w = (r, s', w')"
  shows "task_wf (s_task s')"
proof -
  have st: "task_wf (s_task (closeAttempt e res now s))" for e res now using assms(1) by simp
  have wake: "task_wf (s_task (sup_of (wake D e s w1)))" if "Status (s_task s) \<in> {WAITING, PAUSED}" for e w1
  proof -
    have "\<exists>s2 w2. wake D e s w1 = spawnAttempt D (wake_cause e) s2 w2 \<and> task_wf (s_task s2) \<and> \<not> Terminal (Status (s_task s2))"
      using that assms(1) by (auto simp: wake_def Let_def split_beta Terminal_def split: option.split)
    then show ?thesis using wf_spawnAttempt by metis
  qed
  have exit: "task_wf (s_task (sup_of (attemptExit D e s w)))" if running: "Status (s_task s) = RUNNING" for e
  proof -
    obtain now w1 where n: "clock_Now D w = (now, w1)" by fastforce
    define res where "res = classify D s e now"
    define s1 where "s1 = closeAttempt e res now s"
    define nxt where "nxt = exit_task D s1 e res now"
    have wf: "task_wf (s_task s1)" "CurrentAttempt nxt = TotalAttempts nxt" "ExitReason nxt = None"
      using assms(1) running by (auto simp: s1_def nxt_def exit_task_def task_wf_def Terminal_def)
    obtain nw k where nw: "NextWake (Scheduler_policy (s_policy s1)) (TotalAttempts nxt) (res_ResetAt res) now
      (d_rng D) (w_rng w1) = (nw, k)" by fastforce
    note fin = wf_finish [OF wf(1,2)]
    have go: "task_wf (s_task (sup_of (persist D (nxt\<lparr>Status := WAITING, NextWakeAt := Some nw\<rparr>) fn s1 w2)))" for fn w2
      using wf by (intro persist_wf) (auto simp: task_wf_def Terminal_def)
    note body = attemptExit_def [of D e s w, unfolded n Let_def prod.case, folded res_def, folded s1_def,
      folded exit_task_def, folded nxt_def]
    show ?thesis
      unfolding body nw prod.case
      using fin go by (simp add: Terminal_def split_beta split: option.split)
  qed
  have paused: "task_wf (s_task (sup_of (recordPausedExit D e s w)))" for e
    using assms(1) by (auto simp: recordPausedExit_def Let_def split_beta intro!: persist_wf) (auto simp: task_wf_def)
  have pause: "task_wf (s_task (sup_of (pause D s w)))" if "\<not> Terminal (Status (s_task s))"
    using assms(1) that by (auto simp: pause_def Let_def split_beta intro!: persist_wf split: option.split)
      (auto simp: task_wf_def Terminal_def)
  have stop: "task_wf (s_task (sup_of (stop D s w)))"
    using assms(1) by (auto simp: stop_def Let_def split_beta intro!: persist_wf split: option.split)
      (auto simp: task_wf_def Terminal_def)
  have "task_wf (s_task (sup_of (Handle D ev s w)))"
    using assms(1) wake exit paused pause stop wf_spawnAttempt [of s]
    by (cases ev) (auto simp: Handle_def Let_def split_beta Terminal_def split: option.split)
  then show ?thesis using assms(2) by simp
qed

lemma sample_task_wf: "task_wf (s_task sample_sup)"
  by (simp add: task_wf_def Terminal_def sample_sup_def New_def sample_task_def)

theorem Handle_keeps_task_wf_witness:
  "task_wf (s_task (fst (snd (Handle sample_deps EventStart sample_sup sample_world))))"
proof -
  obtain r s' w' where h: "Handle sample_deps EventStart sample_sup sample_world = (r, s', w')" by (metis prod_cases3)
  show ?thesis using Handle_keeps_task_wf [OF sample_task_wf h] h by simp
qed

section \<open>Termination\<close>

lemma persist_policy [simp]: "s_policy (fst (snd (persist D nxt fn s w))) = s_policy s"
  by (simp add: persist_def split_beta Let_def split: option.split)

lemma fail_task_policy [simp]: "s_policy (fst (snd (fail_task D reason s w))) = s_policy s"
  by (simp add: fail_task_def split_beta Let_def)

lemma spawnAttempt_policy [simp]: "s_policy (fst (snd (spawnAttempt D cause s w))) = s_policy s"
  by (simp add: spawnAttempt_def split_beta Let_def split: option.split sum.split)

lemma small_policy [simp]: "s_policy (stopProber s) = s_policy s" "s_policy (startProber D s) = s_policy s"
  "s_policy (closeAttempt ev r now s) = s_policy s"
  by (simp_all add: stopProber_def startProber_def closeAttempt_def split: option.split)

lemma finish_policy [simp]: "s_policy (fst (snd (finish D nxt st reason r s w))) = s_policy s"
  by (simp add: finish_def Let_def)

lemma Handle_policy: "s_policy (fst (snd (Handle D ev s w))) = s_policy s"
proof -
  have w: "s_policy (fst (snd (wake D e s w'))) = s_policy s" for e w'
    by (simp add: wake_def Let_def split_beta split: option.split)
  have "s_policy (fst (snd (attemptExit D e s w))) = s_policy s" for e
    by (simp add: attemptExit_def Let_def split_beta split: option.split)
  moreover have "s_policy (fst (snd (recordPausedExit D e s w))) = s_policy s" for e
    by (simp add: recordPausedExit_def Let_def split_beta)
  moreover have "s_policy (fst (snd (pause D s w))) = s_policy s"
    by (simp add: pause_def Let_def split_beta split: option.split)
  moreover have "s_policy (fst (snd (stop D s w))) = s_policy s"
    by (simp add: stop_def Let_def split_beta split: option.split)
  ultimately show ?thesis using w by (cases ev) (simp_all add: Handle_def Let_def split_beta split: option.split)
qed

text \<open>How often the events of a run change the status of the task.\<close>

fun transitions :: "deps \<Rightarrow> event list \<Rightarrow> supervisor \<Rightarrow> world \<Rightarrow> nat" where
  "transitions D [] s w = 0"
| "transitions D (ev # evs) s w = (case Handle D ev s w of
     (Some e, s', w') \<Rightarrow> 0
   | (None, s', w') \<Rightarrow> (if Status (s_task s') = Status (s_task s) then 0 else 1) + transitions D evs s' w')"

text \<open>What is left of a capped task, and how much.\<close>

definition capped_ok :: "int \<Rightarrow> task \<Rightarrow> bool" where
  "capped_ok m t \<longleftrightarrow> 0 < m \<and> (case Status t of PENDING \<Rightarrow> TotalAttempts t = 0
     | RUNNING \<Rightarrow> 0 < TotalAttempts t \<and> TotalAttempts t \<le> m | WAITING \<Rightarrow> 0 \<le> TotalAttempts t \<and> TotalAttempts t < m
     | PAUSED \<Rightarrow> False | _ \<Rightarrow> TotalAttempts t \<le> m)"

definition remaining :: "int \<Rightarrow> task \<Rightarrow> nat" where
  "remaining m t = (case Status t of PENDING \<Rightarrow> nat (2 * m) | RUNNING \<Rightarrow> nat (2 * (m - TotalAttempts t) + 1)
     | WAITING \<Rightarrow> nat (2 * (m - TotalAttempts t)) | _ \<Rightarrow> 0)"

lemma lifecycle_cases: "lifecycle st ev st' \<Longrightarrow> ev \<noteq> EventUserPause \<Longrightarrow> st \<noteq> PAUSED \<Longrightarrow>
    st = PENDING \<and> st' = RUNNING \<or> st = WAITING \<and> st' = RUNNING \<or> st = RUNNING \<and> st' = WAITING \<or>
    st \<in> {PENDING, RUNNING, WAITING} \<and> st' \<in> {SUCCEEDED, FAILED, STOPPED}"
  by (induction rule: lifecycle.induct) (auto simp: Terminal_def, (metis status.exhaust)+)

lemma capped_step:
  assumes "Handle D ev s w = (None, s', w')" and "ev \<noteq> EventUserPause" and "capped_ok m (s_task s)"
    and "MaxAttempts (Scheduler_policy (s_policy s)) = m"
  shows "capped_ok m (s_task s') \<and>
    (if Status (s_task s') = Status (s_task s) then 0 else 1) + remaining m (s_task s') \<le> remaining m (s_task s)"
  using Handle_transition [OF assms(1)]
proof
  assume "lifecycle (Status (s_task s)) ev (Status (s_task s')) \<and> same_identity (s_task s) (s_task s') \<and>
    TotalAttempts (s_task s') = TotalAttempts (s_task s) + (if Status (s_task s') = RUNNING then 1 else 0)"
  then have lc: "lifecycle (Status (s_task s)) ev (Status (s_task s'))"
    and n: "TotalAttempts (s_task s') = TotalAttempts (s_task s) + (if Status (s_task s') = RUNNING then 1 else 0)" by auto
  have np: "Status (s_task s) \<noteq> PAUSED" using assms(3) by (auto simp: capped_ok_def)
  have cap: "TotalAttempts (s_task s') < m" if r: "Status (s_task s) = RUNNING" "Status (s_task s') = WAITING"
  proof -
    obtain c so se where "ev = EventAttemptExit c so se" using lc r by (auto simp: lifecycle_to_waiting)
    then have "attemptExit D ev s w = (None, s', w')" using assms(1) r by (simp add: Handle_def)
    from attemptExit_waiting [OF this r(2)] have "TotalAttempts (s_task s) < m"
      using ExceededCap_NoneD(1) assms(3,4) by (fastforce simp: capped_ok_def)
    then show ?thesis using n r by simp
  qed
  from lifecycle_cases [OF lc assms(2) np] show ?thesis
    using assms(3) n cap by (auto simp: capped_ok_def remaining_def)
qed (use assms(3) in auto)



end
