(* ===== verification/DaemonSteps.thy ===== *)
theory DaemonSteps
  imports Methods SupervisorProps
begin

text \<open>
  The daemon as an interleaving of steps: the loops of the supervisors, their children and timers, the requests
  of the API and restarts, with the invariant that ties the live runtimes to the rows of the database, and
  what no step may do to a row.
\<close>

section \<open>The rows of the tasks\<close>

definition row_ok :: "string task_rec \<Rightarrow> db \<Rightarrow> bool" where
  "row_ok r d \<longleftrightarrow> 0 \<le> TotalAttempts r \<and> attempt_nos (ID r) d = [1..TotalAttempts r]"

definition db_numbered :: "db \<Rightarrow> bool" where
  "db_numbered d \<longleftrightarrow> db_ok d \<and> (\<forall>i r. task_row i d = Some r \<longrightarrow> row_ok r d)"

definition row_is :: "task \<Rightarrow> db \<Rightarrow> bool" where
  "row_is t d \<longleftrightarrow> task_row (ID t) d = Some (row_of_task t)"

lemma row_of_task_total [simp]: "TotalAttempts (row_of_task t) = TotalAttempts t" "Status (row_of_task t) = Status t"
  by (simp_all add: row_of_task_def)

lemma numbered_sup_inv: "db_numbered d \<Longrightarrow> row_is t d \<Longrightarrow> sup_inv t d"
  unfolding db_numbered_def row_is_def sup_inv_def row_ok_def by fastforce

lemma numbered_task_tx:
  assumes "task_tx xs t u d d'" and "db_numbered d" and "row_is t d"
  shows "db_numbered d'" "row_is u d'" "j \<noteq> ID t \<Longrightarrow> task_row j d' = task_row j d"
proof -
  note u = task_tx_inv [OF assms(1) numbered_sup_inv [OF assms(2,3)]]
  note frame = task_tx_frame [OF assms(1)]
  have ID: "ID u = ID t" using assms(1) by (simp add: task_tx_def)
  show "row_is u d'" using u by (simp add: sup_inv_def row_is_def)
  show "j \<noteq> ID t \<Longrightarrow> task_row j d' = task_row j d" by (rule frame)
  have "row_ok r d'" if r: "task_row i d' = Some r" for i r
  proof (cases "i = ID t")
    case True
    then show ?thesis using u r ID by (auto simp: sup_inv_def row_ok_def)
  next
    case False
    moreover have "ID r = i" using task_row_Some_ID [OF r] by simp
    ultimately show ?thesis using frame [of i] r assms(2) by (auto simp: db_numbered_def row_ok_def)
  qed
  then show "db_numbered d'" using u by (auto simp: db_numbered_def sup_inv_def)
qed

section \<open>The steps of the daemon\<close>

text \<open>Every live runtime supervises the task of its row, and that task can still move.\<close>

abbreviation rt_task :: "runtime \<Rightarrow> task" where
  "rt_task rt \<equiv> s_task (rt_sup rt)"

definition runtime_ok :: "db \<Rightarrow> string \<Rightarrow> runtime \<Rightarrow> bool" where
  "runtime_ok d i rt \<longleftrightarrow> ID (rt_task rt) = i \<and> row_is (rt_task rt) d \<and> \<not> Terminal (Status (rt_task rt))"

definition daemon_ok :: "daemon \<Rightarrow> bool" where
  "daemon_ok d \<longleftrightarrow> db_numbered (task_db d) \<and> (\<forall>i rt. dm_runtimes d i = Some rt \<longrightarrow> runtime_ok (task_db d) i rt)"

lemma runtime_ok_row: "runtime_ok d i rt \<Longrightarrow> task_row i d' = task_row i d \<Longrightarrow> runtime_ok d' i rt"
  by (auto simp: runtime_ok_def row_is_def)

text \<open>The parts of a daemon the invariant reads.\<close>

lemma daemon_ok_cong:
  "daemon_ok d \<Longrightarrow> task_db d' = task_db d \<Longrightarrow> dm_runtimes d' = dm_runtimes d \<Longrightarrow> daemon_ok d'"
  by (simp add: daemon_ok_def)

lemma daemon_ok_runtimes:
  "daemon_ok d \<Longrightarrow> task_db d' = task_db d \<Longrightarrow>
    (\<And>i rt. dm_runtimes d' i = Some rt \<Longrightarrow> \<exists>rt0. dm_runtimes d i = Some rt0 \<and> rt_sup rt = rt_sup rt0) \<Longrightarrow> daemon_ok d'"
  by (fastforce simp: daemon_ok_def runtime_ok_def)

lemma notifyFunc_sel [simp]: "dm_world (notifyFunc G cfg t d) = dm_world d"
  "dm_runtimes (notifyFunc G cfg t d) = dm_runtimes d"
  by (simp_all add: notifyFunc_def fireHook_def Let_def)

lemma notify_all_sel [simp]: "dm_world (fold (notifyFunc G cfg) ts d) = dm_world d"
  "dm_runtimes (fold (notifyFunc G cfg) ts d) = dm_runtimes d"
  by (induction ts arbitrary: d) simp_all

lemma now_of_sel: "now_of G d = (t, d') \<Longrightarrow> task_db d' = task_db d \<and> dm_runtimes d' = dm_runtimes d \<and>
    w_timers (dm_world d') = w_timers (dm_world d)"
  by (auto simp: now_of_def)

lemma new_uuid_sel: "new_uuid G d = (t, d') \<Longrightarrow> task_db d' = task_db d \<and> dm_runtimes d' = dm_runtimes d"
  by (auto simp: new_uuid_def)

lemma postEvent_sel [simp]: "dm_world (postEvent i ev d) = dm_world d"
  by (simp add: postEvent_def split: option.split)

lemma postEvent_runtimes: "dm_runtimes (postEvent i ev d) j = Some rt \<Longrightarrow>
    \<exists>rt0. dm_runtimes d j = Some rt0 \<and> rt_sup rt = rt_sup rt0"
  by (auto simp: postEvent_def split: option.splits if_splits)

lemma after_spawn_sel [simp]: "rt_sup (after_spawn b rt) = rt_sup rt"
  by (simp add: after_spawn_def)

lemma postEvent_ok: "daemon_ok d \<Longrightarrow> daemon_ok (postEvent i ev d)"
  by (rule daemon_ok_runtimes) (auto dest: postEvent_runtimes)

lemma daemon_ok_update: "daemon_ok d \<Longrightarrow> dm_runtimes d i = Some rt \<Longrightarrow> rt_sup rt' = rt_sup rt \<Longrightarrow>
    daemon_ok (d\<lparr>dm_runtimes := (dm_runtimes d)(i \<mapsto> rt')\<rparr>)"
  by (erule daemon_ok_runtimes) (auto split: if_splits)

lemma child_writes_ok: "daemon_ok d \<Longrightarrow> daemon_ok (child_writes i p d)"
  by (auto simp: child_writes_def daemon_ok_update split: option.split)

lemma child_exits_ok: "daemon_ok d \<Longrightarrow> daemon_ok (child_exits i c out err d)"
  unfolding child_exits_def
  by (auto intro!: postEvent_ok daemon_ok_update split: option.split)

lemma timer_fires_ok: "daemon_ok d \<Longrightarrow> daemon_ok (timer_fires a d)"
  unfolding timer_fires_def Let_def
  by (auto intro!: postEvent_ok split: prod.split option.split elim!: daemon_ok_cong)

text \<open>One turn of a supervisor's loop.\<close>

lemma Handle_step:
  assumes "Handle D ev s w = (r, s', w')" and "db_numbered (w_db w)" and "row_is (s_task s) (w_db w)"
  shows "db_numbered (w_db w') \<and> (\<forall>j. j \<noteq> ID (s_task s) \<longrightarrow> task_row j (w_db w') = task_row j (w_db w)) \<and>
    (r = None \<longrightarrow> ID (s_task s') = ID (s_task s) \<and> row_is (s_task s') (w_db w'))"
proof (cases r)
  case (Some e)
  then show ?thesis using Handle_error assms by fastforce
next
  case None
  have "s' = s \<and> w_db w' = w_db w \<or> acted ev (s_task s) (w_db w) None (s_task s') (w_db w')"
    using Handle_summary [of ev s w D] assms(1) None by (auto simp: summary_def)
  then show ?thesis
  proof
    assume "acted ev (s_task s) (w_db w) None (s_task s') (w_db w')"
    then obtain xs where xs: "task_tx xs (s_task s) (s_task s') (w_db w) (w_db w')"
      by (blast dest: acted_task_tx)
    then show ?thesis using numbered_task_tx [OF xs assms(2,3)] by (auto simp: task_tx_def)
  qed (use assms in auto)
qed

lemma row_is_other: "task_row (ID t) d' = task_row (ID t) d \<Longrightarrow> row_is t d' = row_is t d"
  by (simp add: row_is_def)

lemma loop_turn_ok:
  assumes "daemon_ok d"
  shows "daemon_ok (loop_turn G i d)"
proof (cases "dm_runtimes d i")
  case None
  then show ?thesis using assms by (simp add: loop_turn_def)
next
  case (Some rt)
  have rt: "runtime_ok (task_db d) i rt" and num: "db_numbered (task_db d)"
    using assms Some by (auto simp: daemon_ok_def)
  show ?thesis
  proof (cases "rt_events rt")
    case Nil
    then show ?thesis using assms Some rt by (simp add: loop_turn_def runtime_ok_def)
  next
    case (Cons ev evs)
    obtain err s w where h: "Handle (rt_deps rt) ev (rt_sup rt) (dm_world d) = (err, s, w)" by (metis prod_cases3)
    note step = Handle_step [OF h num]
    let ?rts = "(dm_runtimes d)(i := (if err \<noteq> None \<or> Terminal (Status (s_task s)) then None
       else Some (after_spawn (child_started (w_trace (dm_world d)) (w_trace w)) (rt\<lparr>rt_sup := s, rt_events := evs\<rparr>))))"
    have "task_db (loop_turn G i d) = w_db w" "dm_runtimes (loop_turn G i d) = ?rts"
      using Some rt Cons h by (simp_all add: loop_turn_def runtime_ok_def Let_def)
    moreover have "runtime_ok (w_db w) j r" if "?rts j = Some r" for j r
      using that step rt assms by (auto simp: runtime_ok_def daemon_ok_def row_is_def split: if_splits)
    ultimately show ?thesis using step rt by (auto simp: daemon_ok_def runtime_ok_def)
  qed
qed


text \<open>Creating, starting and removing a task.\<close>

lemma no_row_no_attempts: "db_ok d \<Longrightarrow> task_row i d = None \<Longrightarrow> attempt_nos i d = []"
  by (force simp: task_row_None db_ok_def keys_ok_def attempt_keys_def attempt_nos_def filter_empty_conv)

lemma numbered_CreateTask:
  assumes "Tx_CreateTask t d = Inr d'" and "db_numbered d" and "TotalAttempts t = 0"
  shows "db_numbered d' \<and> row_is t d' \<and> (\<forall>j. j \<noteq> ID t \<longrightarrow> task_row j d' = task_row j d)"
proof -
  have new: "task_row (ID t) d = None" and nos: "attempt_nos i d' = attempt_nos i d" for i
    using assms(1) by (auto simp: Tx_CreateTask_Inr task_row_None attempt_nos_def)
  have "attempt_nos (ID t) d' = []" using no_row_no_attempts [OF _ new] assms(2) nos by (simp add: db_numbered_def)
  then show ?thesis
    using assms nos db_ok_CreateTask task_row_CreateTask [OF assms(1)]
    by (auto simp: db_numbered_def row_ok_def row_is_def)
qed

lemma numbered_DeleteTask:
  assumes "Tx_DeleteTask i d = Inr d'" and "db_numbered d"
  shows "db_numbered d' \<and> (\<forall>j. task_row j d' = (if j = i then None else task_row j d))"
proof -
  have "attempt_nos j d' = attempt_nos j d" if "j \<noteq> i" for j
  proof -
    have "db_attempts d' = filter (\<lambda>r. a_TaskID r \<noteq> i) (db_attempts d)"
      using assms(1) by (auto simp: Tx_DeleteTask_def split: if_splits)
    then show ?thesis using that by (auto simp: attempt_nos_def intro!: arg_cong [of _ _ "map a_AttemptNo"] filter_cong)
  qed
  then show ?thesis
    using assms db_ok_DeleteTask task_row_DeleteTask [OF assms(1)] task_row_Some_ID
    by (fastforce simp: db_numbered_def row_ok_def)
qed

lemma startRuntime_cases:
  assumes "startRuntime G t cfg prov d = (r, d')"
  obtains (failed) e where "r = Some e" "task_db d' = task_db d" "dm_runtimes d' = dm_runtimes d"
      "w_timers (dm_world d') = w_timers (dm_world d)"
    | (started) rt where "r = None" "task_db d' = task_db d" "dm_runtimes d' = (dm_runtimes d)(ID t \<mapsto> rt)"
      "rt_task rt = t" "rt_events rt = []" "w_timers (dm_world d') = w_timers (dm_world d)"
proof -
  obtain now d1 where n: "now_of G d = (now, d1)" by fastforce
  note sel = now_of_sel [OF n]
  show ?thesis
  proof (cases "buildPolicy (o_cfg G) cfg now")
    case (Inl e)
    then show ?thesis using assms n sel by (intro failed) (auto simp: startRuntime_def)
  next
    case (Inr pol)
    show ?thesis
    proof (cases "NewEngine (o_libs G) (Merge (p_DetectionRules prov) (configRules cfg))")
      case (Inl e)
      then show ?thesis using assms n sel Inr by (intro failed) (auto simp: startRuntime_def)
    next
      case (Inr en)
      then show ?thesis using assms n sel started \<open>buildPolicy _ _ _ = _\<close>
        by (auto simp: startRuntime_def New_def)
    qed
  qed
qed

lemma startRuntime_ok:
  assumes "startRuntime G t cfg prov d = (r, d')" and "daemon_ok d" and "row_is t (task_db d)"
    and "\<not> Terminal (Status t)"
  shows "daemon_ok d'"
  using assms(1)
proof (cases rule: startRuntime_cases)
  case (failed e)
  then show ?thesis using daemon_ok_cong [OF assms(2)] by simp
next
  case (started rt)
  then show ?thesis using assms(2-4) by (auto simp: daemon_ok_def runtime_ok_def split: if_splits)
qed

lemma create_commit_ok:
  assumes "daemon_ok d" and "Status t = PENDING" and "TotalAttempts t = 0"
  shows "daemon_ok (snd (create_commit G (t, cfg, prov) d))"
proof -
  let ?w = "dm_world d"
  obtain err db' where c: "CreateTask (o_fault G (w_step ?w)) t (w_db ?w) = (err, db')" by fastforce
  let ?d1 = "d\<lparr>dm_world := ?w\<lparr>w_db := db', w_step := Suc (w_step ?w)\<rparr>\<rparr>"
  have num: "db_numbered (task_db d)" using assms(1) by (simp add: daemon_ok_def)
  from tx.run_cases [OF c [unfolded CreateTask_def]] show ?thesis
  proof (elim disjE conjE)
    assume "err \<noteq> None" "db' = task_db d"
    then show ?thesis using c by (auto simp: create_commit_def Let_def intro!: daemon_ok_cong [OF assms(1)])
  next
    assume e: "err = None" and "Tx_CreateTask t (task_db d) = Inr db'"
    note new = numbered_CreateTask [OF this(2) num assms(3)]
    have "dm_runtimes d (ID t) = None"
    proof (rule ccontr)
      assume "dm_runtimes d (ID t) \<noteq> None"
      then obtain rt where "dm_runtimes d (ID t) = Some rt" by auto
      then have "task_row (ID t) (task_db d) \<noteq> None"
        using assms(1) by (fastforce simp: daemon_ok_def runtime_ok_def row_is_def)
      then show False using \<open>Tx_CreateTask t (task_db d) = Inr db'\<close>
        by (simp add: Tx_CreateTask_Inr task_row_None)
    qed
    then have "runtime_ok db' j rt" if "dm_runtimes d j = Some rt" for j rt
    proof -
      have "j \<noteq> ID t" using that \<open>dm_runtimes d (ID t) = None\<close> by auto
      moreover have "runtime_ok (task_db d) j rt" using assms(1) that by (simp add: daemon_ok_def)
      ultimately show ?thesis using new runtime_ok_row by blast
    qed
    then have "daemon_ok ?d1" using new by (simp add: daemon_ok_def)
    moreover obtain r d2 where s: "startRuntime G t cfg prov ?d1 = (r, d2)" by fastforce
    ultimately have "daemon_ok d2" using startRuntime_ok [OF s] new assms(2) by (simp add: Terminal_def)
    then show ?thesis using c s e by (auto simp: create_commit_def Let_def postEvent_ok split: option.split)
  qed
qed

lemma create_prepare_task:
  assumes "create_prepare G raw d = (Inr (t, cfg, prov), d')"
  shows "Status t = PENDING \<and> TotalAttempts t = 0"
  using assms by (auto simp: create_prepare_def Let_def split_beta split: sum.splits if_splits option.splits prod.splits)

lemma remove_finish_ok:
  assumes "daemon_ok d" and "dm_runtimes d i = None"
  shows "daemon_ok (snd (snd (remove_finish G i d)))"
proof -
  let ?w = "dm_world d"
  obtain err db' where c: "DeleteTask (o_fault G (w_step ?w)) i (w_db ?w) = (err, db')" by fastforce
  have num: "db_numbered (task_db d)" using assms(1) by (simp add: daemon_ok_def)
  have fin: "snd (snd (remove_finish G i d)) = d\<lparr>dm_world := ?w\<lparr>w_db := db', w_step := Suc (w_step ?w)\<rparr>\<rparr>"
    using c by (simp add: remove_finish_def Let_def split: option.split)
  from tx.run_cases [OF c [unfolded DeleteTask_def]] show ?thesis
  proof (elim disjE conjE)
    assume "err \<noteq> None" "db' = task_db d"
    then show ?thesis unfolding fin by (auto intro!: daemon_ok_cong [OF assms(1)])
  next
    assume "Tx_DeleteTask i (task_db d) = Inr db'"
    note del = numbered_DeleteTask [OF this num]
    have "runtime_ok db' j rt" if "dm_runtimes d j = Some rt" for j rt
    proof -
      have "j \<noteq> i" using that assms(2) by auto
      moreover have "runtime_ok (task_db d) j rt" using assms(1) that by (simp add: daemon_ok_def)
      ultimately show ?thesis using del runtime_ok_row [of "task_db d" j rt db'] by simp
    qed
    then show ?thesis unfolding fin using del by (simp add: daemon_ok_def)
  qed
qed


section \<open>Recovery\<close>

text \<open>A database whose rows decode to the tasks they encode.\<close>

definition readable :: "db \<Rightarrow> bool" where
  "readable d \<longleftrightarrow> (\<forall>r \<in> set (db_tasks d). \<exists>t. r = row_of_task t \<and> task_times_ok t)"

lemma scan_rows_Inr: "scan_rows f wrap rs = Inr xs \<longleftrightarrow> list_all2 (\<lambda>r x. f r = Inr x) rs xs"
proof (induction rs arbitrary: xs)
  case (Cons r rs)
  have "scan_rows f wrap (r # rs) = Inr xs \<longleftrightarrow> (\<exists>y ys. xs = y # ys \<and> f r = Inr y \<and> scan_rows f wrap rs = Inr ys)"
    by (auto split: sum.splits)
  then show ?case by (simp add: Cons.IH list_all2_Cons1)
qed auto

lemma row_of_stored [simp]: "row_of_task (stored t) = row_of_task t"
  by (simp add: row_of_task_def stored_def or_empty_object_def)

lemma find_distinct_key: "distinct (map k xs) \<Longrightarrow> r \<in> set xs \<Longrightarrow> List.find (\<lambda>x. k x = k r) xs = Some r"
  by (induction xs) auto

lemma task_times_ok_stored [simp]: "task_times_ok (stored t) = task_times_ok t"
  by (simp add: task_times_ok_def stored_def)

lemma task_row_mem: "distinct (map ID (db_tasks d)) \<Longrightarrow> r \<in> set (db_tasks d) \<Longrightarrow> task_row (ID r) d = Some r"
  unfolding task_row_def by (rule find_distinct_key)

lemma scanTask_ID: "scanTask r = Inr t \<Longrightarrow> ID t = ID r"
  by (auto simp: scanTask_def split: sum.splits)

lemma scanTask_Status: "scanTask r = Inr t \<Longrightarrow> Status t = Status r"
  by (auto simp: scanTask_def split: sum.splits)

lemma ListTasks_rows:
  assumes "ListTasks d = Inr ts"
  shows "\<exists>rs. mset rs = mset (db_tasks d) \<and> list_all2 (\<lambda>r t. scanTask r = Inr t) rs ts"
  using assms unfolding ListTasks_def scan_rows_Inr by (intro exI conjI) (rule mset_sort)

lemma ListTasks_IDs: "ListTasks d = Inr ts \<Longrightarrow> mset (map ID ts) = mset (map ID (db_tasks d))"
proof -
  assume "ListTasks d = Inr ts"
  then obtain rs where rs: "mset rs = mset (db_tasks d)" "list_all2 (\<lambda>r t. scanTask r = Inr t) rs ts"
    using ListTasks_rows by blast
  have "map ID ts = map ID rs" using rs(2) by (induction rule: list_all2_induct) (auto dest: scanTask_ID)
  then show ?thesis using rs(1) by simp
qed

lemma ListTasks_readable:
  assumes "ListTasks d = Inr ts" and "readable d" and "db_ok d" and "t \<in> set ts"
  shows "row_is t d \<and> task_times_ok t"
proof -
  obtain rs where rs: "mset rs = mset (db_tasks d)" "list_all2 (\<lambda>r t. scanTask r = Inr t) rs ts"
    using ListTasks_rows [OF assms(1)] by blast
  then obtain r where r: "r \<in> set (db_tasks d)" "scanTask r = Inr t"
    using assms(4) mset_eq_setD [OF rs(1)] by (fastforce simp: list_all2_conv_all_nth in_set_conv_nth)
  then obtain t0 where "r = row_of_task t0" "task_times_ok t0" using assms(2) by (auto simp: readable_def)
  then have "row_of_task t = r" "task_times_ok t" using r(2) by auto
  moreover have "distinct (map ID (db_tasks d))" using assms(3) by (simp add: db_ok_def keys_ok_def)
  ultimately show ?thesis using task_row_mem r by (metis row_is_def row_of_task_sel)
qed

definition interrupted_stmts :: "outside \<Rightarrow> task \<Rightarrow> time \<Rightarrow> time \<Rightarrow> attempt option \<Rightarrow> stmt list" where
  "interrupted_stmts G t now nw op = (case op of None \<Rightarrow> [] | Some a \<Rightarrow> [SUpdateAttempt (close_interrupted now a)]) @
     [SAppendEvent \<lparr>e_ID = 0, e_TaskID = ID t, e_TS = now, e_Type = ''attempt_exit'',
        e_Detail = o_json G [(''outcome'', JStr CategoryUnknown), (''rule'', JStr daemon_interrupted),
           (''attempt'', JInt (CurrentAttempt t))]\<rparr>,
      SAppendEvent \<lparr>e_ID = 0, e_TaskID = ID t, e_TS = now, e_Type = ''scheduled'',
        e_Detail = o_json G [(''next_wake_at'', JStr (format_RFC3339Nano nw)), (''cause'', JStr daemon_interrupted)]\<rparr>]"

lemma interrupted_tx_exec:
  "interrupted_tx G t now nw op = exec_stmts (interrupted_stmts G t now nw op @ [SUpdateTask (interrupted_task now nw t)])"
proof -
  have "(case op of None \<Rightarrow> Inr | Some a \<Rightarrow> Tx_UpdateAttempt (close_interrupted now a)) =
    exec_stmts (case op of None \<Rightarrow> [] | Some a \<Rightarrow> [SUpdateAttempt (close_interrupted now a)])"
    by (rule ext) (simp split: option.split)
  then show ?thesis unfolding interrupted_tx_def tx_exec update_stmt_exec by (simp add: interrupted_stmts_def and_then_exec)
qed

lemma interrupted_task_tx:
  assumes "interrupted_tx G t now nw op d = Inr d'"
  shows "task_tx (interrupted_stmts G t now nw op) t (interrupted_task now nw t) d d'"
  using assms unfolding interrupted_tx_exec task_tx_def
  by (auto simp: attempts_clause_def interrupted_task_def interrupted_stmts_def split: option.split)


text \<open>The recovery of an interrupted task either fails, and the database is what it was, or puts the task
  back in line.\<close>

lemma recoverInterrupted_cases:
  assumes "recoverInterrupted G t cfg d = (r, d')"
  obtains (failed) e where "r = Inl e" "task_db d' = task_db d" "dm_runtimes d' = dm_runtimes d"
      "w_timers (dm_world d') = w_timers (dm_world d)"
    | (recovered) now nw op where "r = Inr (interrupted_task now nw t)" "dm_runtimes d' = dm_runtimes d"
      "task_tx (interrupted_stmts G t now nw op) t (interrupted_task now nw t) (task_db d) (task_db d')"
      "w_timers (dm_world d') = w_timers (dm_world d)"
proof -
  obtain now d1 where n: "now_of G d = (now, d1)" by fastforce
  note sel = now_of_sel [OF n]
  show ?thesis
  proof (cases "buildPolicy (o_cfg G) cfg now")
    case (Inl e)
    then show ?thesis using assms n sel by (intro failed) (auto simp: recoverInterrupted_def)
  next
    case pol: (Inr pol)
    obtain nw d2 where w: "interrupted_wake G cfg pol t now d1 = (nw, d2)" by fastforce
    then have sel2: "task_db d2 = task_db d" "dm_runtimes d2 = dm_runtimes d"
      "w_timers (dm_world d2) = w_timers (dm_world d)"
      using sel by (auto simp: interrupted_wake_def split: if_splits prod.splits)
    show ?thesis
    proof (cases "openAttempt t d2")
      case (Inl e)
      then show ?thesis using assms n w sel2 pol by (intro failed) (auto simp: recoverInterrupted_def)
    next
      case op: (Inr op)
      let ?w = "dm_world d2"
      obtain err db' where u: "UpdateTaskTx (o_fault G (w_step ?w)) (interrupted_tx G t now nw op) (w_db ?w) = (err, db')"
        by fastforce
      let ?d3 = "d2\<lparr>dm_world := ?w\<lparr>w_db := db', w_step := Suc (w_step ?w)\<rparr>\<rparr>"
      have run: "recoverInterrupted G t cfg d = (case err of
          Some e \<Rightarrow> (Inl (Wrap ''persist interrupted attempt: '' e []), ?d3)
        | None \<Rightarrow> (Inr (interrupted_task now nw t), notifyFunc G cfg (interrupted_task now nw t) ?d3))"
        using n pol w op u by (simp add: recoverInterrupted_def Let_def)
      from tx.run_cases [OF u] show ?thesis
      proof (elim disjE conjE)
        assume "err \<noteq> None" and db': "db' = w_db ?w"
        then obtain e where "err = Some e" by auto
        then show ?thesis using assms run sel2 db' by (intro failed) auto
      next
        assume "err = None" "interrupted_tx G t now nw op (w_db ?w) = Inr db'"
        then show ?thesis using assms run sel2 interrupted_task_tx [of G t now nw op "w_db ?w" db']
          by (intro recovered) auto
      qed
    qed
  qed
qed

lemma arm_wake_sel [simp]: "task_db (arm_wake G t d) = task_db d" "dm_runtimes (arm_wake G t d) = dm_runtimes d"
  by (simp_all add: arm_wake_def now_of_def Let_def)

text \<open>Restoring one task: what holds of the others, and the invariant.\<close>

lemma daemon_ok_row:
  assumes "daemon_ok d" and "db_numbered db'" and "\<And>j. j \<noteq> i \<Longrightarrow> task_row j db' = task_row j (task_db d)"
    and "dm_runtimes d i = None" and "task_db d' = db'" and "dm_runtimes d' = dm_runtimes d"
  shows "daemon_ok d'"
proof -
  have "runtime_ok db' j rt" if "dm_runtimes d j = Some rt" for j rt
  proof -
    have "j \<noteq> i" using that assms(4) by auto
    moreover have "runtime_ok (task_db d) j rt" using assms(1) that by (simp add: daemon_ok_def)
    ultimately show ?thesis using assms(3) runtime_ok_row by blast
  qed
  then show ?thesis using assms(2,5,6) by (simp add: daemon_ok_def)
qed

lemma reconcileTask_ok:
  assumes "daemon_ok d" and "row_is t (task_db d)" and "\<not> Terminal (Status t)" and "dm_runtimes d (ID t) = None"
  shows "daemon_ok (snd (reconcileTask G t d)) \<and>
    (\<forall>j. j \<noteq> ID t \<longrightarrow> task_row j (task_db (snd (reconcileTask G t d))) = task_row j (task_db d))"
proof (cases "o_unmarshal G (ConfigJSON t)")
  case (Inl e)
  then show ?thesis using assms by (simp add: reconcileTask_def)
next
  case cfg: (Inr cfg)
  show ?thesis
  proof (cases "registry_Get (o_registry G) (Provider t)")
    case (Inl e)
    then show ?thesis using assms cfg by (simp add: reconcileTask_def)
  next
    case prov: (Inr prov)
    obtain r d1 where rec: "(if Status t = RUNNING then recoverInterrupted G t cfg d else (Inr t, d)) = (r, d1)" by fastforce
    have d1: "daemon_ok d1 \<and> (\<forall>j. j \<noteq> ID t \<longrightarrow> task_row j (task_db d1) = task_row j (task_db d)) \<and>
      (\<forall>t'. r = Inr t' \<longrightarrow> ID t' = ID t \<and> row_is t' (task_db d1) \<and> \<not> Terminal (Status t'))"
    proof (cases "Status t = RUNNING")
      case True
      then have "recoverInterrupted G t cfg d = (r, d1)" using rec by simp
      then show ?thesis
      proof (cases rule: recoverInterrupted_cases)
        case (failed e)
        then show ?thesis using daemon_ok_cong [OF assms(1)] by simp
      next
        case (recovered now nw op)
        note num = numbered_task_tx [OF recovered(3) _ assms(2)]
        show ?thesis using recovered(1,2) num daemon_ok_row [OF assms(1) num(1) num(3) assms(4)] assms(1)
          by (auto simp: daemon_ok_def interrupted_task_def Terminal_def)
      qed
    qed (use rec assms in auto)
    show ?thesis
    proof (cases r)
      case (Inl e)
      then show ?thesis using cfg prov rec d1 by (simp add: reconcileTask_def)
    next
      case (Inr t')
      obtain e d2 where s: "startRuntime G t' cfg prov d1 = (e, d2)" by fastforce
      have "daemon_ok d2" using startRuntime_ok [OF s] d1 Inr by simp
      moreover have "task_db d2 = task_db d1" using s by (cases rule: startRuntime_cases) simp_all
      moreover have "snd (reconcileTask G t d) = d2 \<or> snd (reconcileTask G t d) = arm_wake G t' d2 \<or>
          snd (reconcileTask G t d) = postEvent (ID t') EventStart d2"
        using cfg prov rec s Inr by (cases e; cases "Status t'") (simp_all add: reconcileTask_def)
      ultimately show ?thesis using d1 postEvent_ok daemon_ok_cong [of d2 "arm_wake G t' d2"] by auto
    qed
  qed
qed


lemma reconcile_all_ok:
  "daemon_ok d \<Longrightarrow> \<forall>t \<in> set ts. row_is t (task_db d) \<Longrightarrow> distinct (map ID ts) \<Longrightarrow>
    daemon_ok (fold (reconcile_one G) ts d)"
proof (induction ts arbitrary: d)
  case (Cons t ts)
  let ?d = "reconcile_one G t d"
  have one: "daemon_ok ?d \<and> (\<forall>j. j \<noteq> ID t \<longrightarrow> task_row j (task_db ?d) = task_row j (task_db d))"
    using Cons.prems reconcileTask_ok [of d t G] by (auto simp: reconcile_one_def)
  then have "\<forall>u \<in> set ts. row_is u (task_db ?d)"
    using Cons.prems(2,3) by (auto simp: row_is_def) (metis image_eqI)
  then show ?case using Cons.IH [of ?d] one Cons.prems(3) by simp
qed simp

lemma ListTasks_distinct: "db_ok d \<Longrightarrow> ListTasks d = Inr ts \<Longrightarrow> distinct (map ID ts)"
  using ListTasks_IDs [of d ts] mset_eq_imp_distinct_iff [of "map ID ts" "map ID (db_tasks d)"]
  by (simp add: db_ok_def keys_ok_def)

lemma Reconcile_ok: "daemon_ok d \<Longrightarrow> readable (task_db d) \<Longrightarrow> daemon_ok (snd (Reconcile G d))"
  using ListTasks_readable ListTasks_distinct reconcile_all_ok
  by (auto simp: Reconcile_def daemon_ok_def db_numbered_def split: sum.split)

text \<open>A restarted daemon has the database and nothing else.\<close>

definition rebooted :: "daemon \<Rightarrow> daemon" where
  "rebooted d = d\<lparr>dm_world := (dm_world d)\<lparr>w_timers := NewTimers, w_pstate := Map.empty, w_trace := []\<rparr>,
     dm_runtimes := Map.empty, dm_bus := newBus, dm_shutdown := None\<rparr>"

lemma rebooted_ok: "daemon_ok d \<Longrightarrow> daemon_ok (rebooted d)"
  by (simp add: daemon_ok_def rebooted_def)

section \<open>The interleaved steps of a daemon\<close>

text \<open>What can happen next: a turn of a supervisor's loop, output or exit of a child, the expiry of a timer, a
  probe's success, a request of the API, a restart. A creation is committed with what a creation prepared at
  any earlier time; a task is removed once its row is terminal, as \<open>remove_begin\<close> or \<open>waitTerminal\<close> has seen.\<close>

inductive dstep :: "outside \<Rightarrow> daemon \<Rightarrow> daemon \<Rightarrow> bool" for G where
  turn: "dstep G d (loop_turn G i d)"
| written: "dstep G d (child_writes i p d)"
| exit: "dstep G d (child_exits i c out err d)"
| timer: "dstep G d (timer_fires a d)"
| available: "dstep G d (postEvent i EventAvailabilityOK d)"
| prepare: "create_prepare G raw d = (r, d') \<Longrightarrow> dstep G d d'"
| commit: "create_prepare G raw d0 = (Inr tcp, d1) \<Longrightarrow> create_commit G tcp d = (r, d') \<Longrightarrow> dstep G d d'"
| resume: "handleResume raw d = (r, d') \<Longrightarrow> dstep G d d'"
| pause: "handlePause raw d = (r, d') \<Longrightarrow> dstep G d d'"
| stop: "handleStop raw d = (r, d') \<Longrightarrow> dstep G d d'"
| shutdown: "handleShutdown raw d = (r, d') \<Longrightarrow> dstep G d d'"
| attach: "attach_begin raw d = (r, d') \<Longrightarrow> dstep G d d'"
| remove_now: "remove_begin raw d = (r, d') \<Longrightarrow> dstep G d d'"
| remove: "wait_check i d = WaitDone \<Longrightarrow> remove_finish G i d = (r, dir, d') \<Longrightarrow> dstep G d d'"
| restart: "readable (task_db d) \<Longrightarrow> Reconcile G (rebooted d) = (r, d') \<Longrightarrow> dstep G d d'"

inductive reachable :: "outside \<Rightarrow> daemon \<Rightarrow> daemon \<Rightarrow> bool" for G where
  start: "reachable G d d"
| step: "reachable G d d' \<Longrightarrow> dstep G d' d'' \<Longrightarrow> reachable G d d''"

lemma create_prepare_sel:
  assumes "create_prepare G raw d = (r, d')"
  shows "task_db d' = task_db d \<and> dm_runtimes d' = dm_runtimes d"
  using assms
  by (auto simp: create_prepare_def create_session_def new_uuid_def now_of_def Let_def
      split: sum.splits if_splits option.splits)

lemma handleAction_ok: "handleAction ev vs raw d = (r, d') \<Longrightarrow> daemon_ok d \<Longrightarrow> daemon_ok d'"
  by (auto simp: handleAction_def postEvent_ok split: sum.splits if_splits)

lemma remove_begin_ok: "remove_begin raw d = (r, d') \<Longrightarrow> daemon_ok d \<Longrightarrow> daemon_ok d'"
  by (auto simp: remove_begin_def postEvent_ok split: sum.splits if_splits)

lemma attach_begin_ok: "attach_begin raw d = (r, d') \<Longrightarrow> daemon_ok d \<Longrightarrow> daemon_ok d'"
  by (auto simp: attach_begin_def liveInteractive_def Let_def intro!: daemon_ok_update
      split: sum.splits if_splits option.splits prod.splits)

lemma GetTask_Inr: "GetTask i d = Inr t \<Longrightarrow> \<exists>r. task_row i d = Some r \<and> scanTask r = Inr t"
  unfolding GetTask_row by (cases "task_row i d") (auto split: sum.splits)

lemma wait_check_row: "wait_check i d = WaitDone \<Longrightarrow> \<exists>r. task_row i (task_db d) = Some r \<and> Terminal (Status r)"
  unfolding wait_check_def by (auto dest!: GetTask_Inr scanTask_Status split: sum.splits if_splits)

lemma terminal_row_no_runtime:
  assumes "daemon_ok d" and "wait_check i d = WaitDone"
  shows "dm_runtimes d i = None"
proof (rule ccontr)
  assume "dm_runtimes d i \<noteq> None"
  then obtain rt where "dm_runtimes d i = Some rt" by auto
  then have "runtime_ok (task_db d) i rt" using assms(1) unfolding daemon_ok_def by blast
  then have rt: "task_row i (task_db d) = Some (row_of_task (rt_task rt))" "\<not> Terminal (Status (rt_task rt))"
    unfolding runtime_ok_def row_is_def by auto
  from wait_check_row [OF assms(2)] obtain r where "task_row i (task_db d) = Some r" "Terminal (Status r)" by blast
  then show False using rt row_of_task_total(2) [of "rt_task rt"] by (metis option.inject)
qed

lemma dstep_ok: "dstep G d d' \<Longrightarrow> daemon_ok d \<Longrightarrow> daemon_ok d'"
proof (induction rule: dstep.induct)
  case (prepare raw d r d')
  then show ?case using create_prepare_sel daemon_ok_cong by blast
next
  case (commit raw d0 tcp d1 d r d')
  obtain t cfg prov where tcp: "tcp = (t, cfg, prov)" by (metis prod_cases3)
  note new = create_prepare_task [OF commit(1) [unfolded tcp]]
  from create_commit_ok [OF commit(3) conjunct1 [OF new] conjunct2 [OF new], of G cfg prov] show ?case
    unfolding tcp [symmetric] commit(2) snd_conv .
next
  case (remove i d r dir d')
  have "dm_runtimes d i = None" by (rule terminal_row_no_runtime [OF remove(3,1)])
  from remove_finish_ok [OF remove(3) this, of G] show ?case unfolding remove(2) snd_conv .
next
  case (restart d r d')
  have "readable (task_db (rebooted d))" using restart(1) by (simp add: rebooted_def)
  from Reconcile_ok [OF rebooted_ok [OF restart(3)] this, of G] show ?case unfolding restart(2) snd_conv .
next
  case (shutdown raw d r d')
  then show ?case
    by (auto simp: handleShutdown_def split: sum.splits if_splits elim!: daemon_ok_cong)
qed (auto simp: loop_turn_ok child_writes_ok child_exits_ok timer_fires_ok postEvent_ok handleResume_def
    handlePause_def handleStop_def intro: handleAction_ok remove_begin_ok attach_begin_ok)


text \<open>What a step may do to the row of a task that stays.\<close>

definition row_kept :: "string task_rec \<Rightarrow> string task_rec \<Rightarrow> bool" where
  "row_kept r r' \<longleftrightarrow> r' = r \<or>
     \<not> Terminal (Status r) \<and> ID r' = ID r \<and> Name r' = Name r \<and> Provider r' = Provider r \<and> Mode r' = Mode r \<and>
     Cwd r' = Cwd r \<and> Prompt r' = Prompt r \<and> Args r' = Args r \<and> ConfigJSON r' = ConfigJSON r \<and>
     CreatedAt r' = CreatedAt r \<and>
     TotalAttempts r' = TotalAttempts r + (if Status r' = RUNNING then 1 else 0)"

definition rows_kept :: "db \<Rightarrow> db \<Rightarrow> bool" where
  "rows_kept d d' \<longleftrightarrow> (\<forall>i r. task_row i d = Some r \<longrightarrow> (\<exists>r'. task_row i d' = Some r' \<and> row_kept r r'))"

lemma rows_kept_refl [simp]: "rows_kept d d"
  by (simp add: rows_kept_def row_kept_def)

lemma rows_kept_one:
  assumes "\<And>j. j \<noteq> ID t \<Longrightarrow> task_row j d' = task_row j d" and "row_is t d" and "row_is u d'" and "ID u = ID t"
    and "row_kept (row_of_task t) (row_of_task u)"
  shows "rows_kept d d'"
  unfolding rows_kept_def
proof (intro allI impI)
  fix i r assume r: "task_row i d = Some r"
  show "\<exists>r'. task_row i d' = Some r' \<and> row_kept r r'"
    using r assms by (cases "i = ID t") (auto simp: row_is_def row_kept_def)
qed

lemma row_kept_task:
  "same_identity t u \<Longrightarrow> \<not> Terminal (Status t) \<Longrightarrow>
     TotalAttempts u = TotalAttempts t + (if Status u = RUNNING then 1 else 0) \<Longrightarrow> row_kept (row_of_task t) (row_of_task u)"
  by (simp add: row_kept_def same_identity_def row_of_task_def)

lemma Handle_rows:
  assumes "Handle D ev s w = (r, s', w')" and "db_numbered (w_db w)" and "row_is (s_task s) (w_db w)"
  shows "rows_kept (w_db w) (w_db w')"
proof (cases r)
  case (Some e)
  then show ?thesis using Handle_error assms(1) by fastforce
next
  case None
  note step = Handle_step [OF assms]
  from Handle_transition [OF assms(1) [unfolded None]] show ?thesis
  proof
    assume t: "lifecycle (Status (s_task s)) ev (Status (s_task s')) \<and> same_identity (s_task s) (s_task s') \<and>
      TotalAttempts (s_task s') = TotalAttempts (s_task s) + (if Status (s_task s') = RUNNING then 1 else 0)"
    then have "row_kept (row_of_task (s_task s)) (row_of_task (s_task s'))"
      using row_kept_task lifecycle_not_terminal by blast
    then show ?thesis using step assms(3) None by (intro rows_kept_one [of "s_task s" _ _ "s_task s'"]) auto
  qed simp
qed

lemma loop_turn_rows:
  assumes "daemon_ok d"
  shows "rows_kept (task_db d) (task_db (loop_turn G i d))"
proof (cases "dm_runtimes d i")
  case (Some rt)
  then have rt: "runtime_ok (task_db d) i rt" and num: "db_numbered (task_db d)"
    using assms by (auto simp: daemon_ok_def)
  then have row: "row_is (s_task (rt_sup rt)) (task_db d)" by (simp add: runtime_ok_def)
  show ?thesis
  proof (cases "rt_events rt")
    case (Cons ev evs)
    obtain err s w where h: "Handle (rt_deps rt) ev (rt_sup rt) (dm_world d) = (err, s, w)" by (metis prod_cases3)
    have "task_db (loop_turn G i d) = w_db w"
      using Some rt Cons h by (simp add: loop_turn_def runtime_ok_def Let_def)
    then show ?thesis using Handle_rows [OF h num row] by simp
  qed (use Some in \<open>simp add: loop_turn_def\<close>)
qed (simp add: loop_turn_def)

lemma create_commit_db:
  "task_db (snd (create_commit G (t, cfg, prov) d)) = task_db d \<or>
   Tx_CreateTask t (task_db d) = Inr (task_db (snd (create_commit G (t, cfg, prov) d)))"
proof -
  let ?w = "dm_world d"
  obtain err db' where c: "CreateTask (o_fault G (w_step ?w)) t (w_db ?w) = (err, db')" by fastforce
  obtain r d2 where s: "startRuntime G t cfg prov (d\<lparr>dm_world := ?w\<lparr>w_db := db', w_step := Suc (w_step ?w)\<rparr>\<rparr>) = (r, d2)"
    by fastforce
  have "task_db d2 = db'" using s by (cases rule: startRuntime_cases) simp_all
  then have "task_db (snd (create_commit G (t, cfg, prov) d)) = db'"
    using c s by (simp add: create_commit_def Let_def split: option.split)
  then show ?thesis using tx.run_cases [OF c [unfolded CreateTask_def]] by auto
qed

lemma create_commit_rows: "rows_kept (task_db d) (task_db (snd (create_commit G (t, cfg, prov) d)))"
  using create_commit_db [of G t cfg prov d]
proof
  assume c: "Tx_CreateTask t (task_db d) = Inr (task_db (snd (create_commit G (t, cfg, prov) d)))"
  then have "task_row (ID t) (task_db d) = None" by (auto simp: Tx_CreateTask_Inr task_row_None)
  then show ?thesis using task_row_CreateTask [OF c] by (auto simp: rows_kept_def row_kept_def)
qed simp

lemma reconcileTask_rows:
  assumes "db_numbered (task_db d)" and "row_is t (task_db d)" and "\<not> Terminal (Status t)"
  shows "rows_kept (task_db d) (task_db (snd (reconcileTask G t d)))"
proof (cases "o_unmarshal G (ConfigJSON t)")
  case cfg: (Inr cfg)
  show ?thesis
  proof (cases "registry_Get (o_registry G) (Provider t)")
    case prov: (Inr prov)
    obtain r d1 where rec: "(if Status t = RUNNING then recoverInterrupted G t cfg d else (Inr t, d)) = (r, d1)" by fastforce
    have "rows_kept (task_db d) (task_db d1)"
    proof (cases "Status t = RUNNING")
      case True
      then have "recoverInterrupted G t cfg d = (r, d1)" using rec by simp
      then show ?thesis
      proof (cases rule: recoverInterrupted_cases)
        case (recovered now nw op)
        let ?u = "interrupted_task now nw t"
        have "row_kept (row_of_task t) (row_of_task ?u)"
          using True by (intro row_kept_task) (auto simp: interrupted_task_def Terminal_def same_identity_def)
        then show ?thesis using numbered_task_tx [OF recovered(3) assms(1,2)] assms(2)
          by (intro rows_kept_one [of t _ _ ?u]) (auto simp: interrupted_task_def)
      qed simp
    qed (use rec in simp)
    moreover have "task_db (snd (reconcileTask G t d)) = task_db d1"
    proof (cases r)
      case (Inr t')
      obtain e d2 where s: "startRuntime G t' cfg prov d1 = (e, d2)" by fastforce
      have "task_db d2 = task_db d1" using s by (cases rule: startRuntime_cases) simp_all
      then show ?thesis
        using cfg prov rec s Inr by (cases e; cases "Status t'") (simp_all add: reconcileTask_def)
    qed (use cfg prov rec in \<open>simp add: reconcileTask_def\<close>)
    ultimately show ?thesis by simp
  qed (use cfg in \<open>simp add: reconcileTask_def\<close>)
qed (simp add: reconcileTask_def)


lemma reconcile_one_step:
  assumes "daemon_ok d" and "row_is t (task_db d)"
  shows "daemon_ok (reconcile_one G t d) \<and> rows_kept (task_db d) (task_db (reconcile_one G t d)) \<and>
    (\<forall>j. j \<noteq> ID t \<longrightarrow> task_row j (task_db (reconcile_one G t d)) = task_row j (task_db d))"
  using reconcileTask_ok [OF assms, of G] reconcileTask_rows [OF _ assms(2), of G] assms(1)
  by (simp add: reconcile_one_def daemon_ok_def)

lemma reconcile_all_rows:
  "daemon_ok d \<Longrightarrow> \<forall>t \<in> set ts. row_is t (task_db d) \<Longrightarrow> distinct (map ID ts) \<Longrightarrow>
    rows_kept (task_db d) (task_db (fold (reconcile_one G) ts d)) \<and>
    (\<forall>j. j \<notin> ID ` set ts \<longrightarrow> task_row j (task_db (fold (reconcile_one G) ts d)) = task_row j (task_db d))"
proof (induction ts arbitrary: d)
  case (Cons t ts)
  let ?d = "reconcile_one G t d"
  have t: "row_is t (task_db d)" using Cons.prems(2) by simp
  note one = reconcile_one_step [OF Cons.prems(1) t, of G]
  have "\<forall>u \<in> set ts. row_is u (task_db ?d)"
    using one Cons.prems(2,3) by (auto simp: row_is_def) (metis image_eqI)
  then have IH: "rows_kept (task_db ?d) (task_db (fold (reconcile_one G) ts ?d))"
    "\<forall>j. j \<notin> ID ` set ts \<longrightarrow> task_row j (task_db (fold (reconcile_one G) ts ?d)) = task_row j (task_db ?d)"
    using Cons.IH [of ?d] one Cons.prems(3) by simp_all
  have "\<exists>r'. task_row i (task_db (fold (reconcile_one G) ts ?d)) = Some r' \<and> row_kept r r'"
    if r: "task_row i (task_db d) = Some r" for i r
  proof (cases "i = ID t")
    case True
    then have "i \<notin> ID ` set ts" using Cons.prems(3) by auto
    then show ?thesis using IH(2) one r by (simp add: rows_kept_def)
  next
    case False
    then show ?thesis using IH(1) one r by (simp add: rows_kept_def)
  qed
  then show ?case using IH(2) one by (auto simp: rows_kept_def)
qed simp

lemma Reconcile_rows:
  assumes "daemon_ok d" and "readable (task_db d)"
  shows "rows_kept (task_db d) (task_db (snd (Reconcile G d)))"
proof (cases "ListTasks (task_db d)")
  case (Inr ts)
  have "db_ok (task_db d)" using assms(1) by (simp add: daemon_ok_def db_numbered_def)
  then show ?thesis
    using reconcile_all_rows [OF assms(1), of ts G] ListTasks_readable [OF Inr assms(2)] ListTasks_distinct [OF _ Inr] Inr
    by (simp add: Reconcile_def)
qed (simp add: Reconcile_def)

lemma remove_finish_db:
  "task_db (snd (snd (remove_finish G i d))) = task_db d \<or>
   Tx_DeleteTask i (task_db d) = Inr (task_db (snd (snd (remove_finish G i d))))"
proof -
  let ?w = "dm_world d"
  obtain err db' where c: "DeleteTask (o_fault G (w_step ?w)) i (w_db ?w) = (err, db')" by fastforce
  then have "task_db (snd (snd (remove_finish G i d))) = db'" by (simp add: remove_finish_def Let_def split: option.split)
  then show ?thesis using tx.run_cases [OF c [unfolded DeleteTask_def]] by auto
qed

lemma daemon_db_sel [simp]:
  "task_db (child_writes i p d) = task_db d" "task_db (child_exits i c out err d) = task_db d"
  "task_db (timer_fires a d) = task_db d"
  by (simp_all add: child_writes_def child_exits_def timer_fires_def Let_def split: option.split prod.split)

lemma method_db_sel:
  "handleAction ev vs raw d = (r, d') \<Longrightarrow> task_db d' = task_db d"
  "handleShutdown raw' d = (r', d') \<Longrightarrow> task_db d' = task_db d"
  "attach_begin raw d = (r2, d') \<Longrightarrow> task_db d' = task_db d"
  "remove_begin raw3 d = (r3, d') \<Longrightarrow> task_db d' = task_db d"
  by (auto simp: handleAction_def handleShutdown_def attach_begin_def remove_begin_def liveInteractive_def Let_def
      split: sum.splits if_splits option.splits prod.splits)

section \<open>Properties of every interleaving\<close>



section \<open>A sample daemon\<close>

definition sample_config :: config where
  "sample_config = Default\<lparr>c_Providers := [(''fake'', \<lparr>p_Binary = [], p_Model = [], p_ResumePrompt = [],
     p_Unattended = False, p_ExtraArgs = [], p_Script = ''/w/script''\<rparr>)]\<rparr>"

definition sample_outside :: outside where
  "sample_outside = \<lparr>o_registry = [(''fake'', fake (Inr ''/bin/defib''))],
     o_dirs = \<lparr>dir_Config = ''/c'', dir_State = ''/s'', dir_Runtime = ''/r''\<rparr>, o_libs = fake_libs,
     o_cfg = plain_cfg_libs, o_fs = empty_fs, o_getenv = (\<lambda>_. []), o_lookPath = (\<lambda>_. None), o_stat = (\<lambda>_. None),
     o_rng = (\<lambda>_. 1 / 2), o_clock = (\<lambda>k. int k * Second), o_spawn = (\<lambda>k. Inr (100 + int k)), o_kill = (\<lambda>_. None),
     o_uuid = (\<lambda>k. Itoa (int k)), o_fault = (\<lambda>_. NoFault), o_json = (\<lambda>_. ''{}''), o_marshal = (\<lambda>_. ''{}''),
     o_unmarshal = (\<lambda>_. Inr sample_config), o_event_json = (\<lambda>_. ''{}'')\<rparr>"

definition waiting_task :: task where
  "waiting_task = sample_task\<lparr>ID := sample_id\<rparr>"

definition sample_daemon :: daemon where
  "sample_daemon = \<lparr>dm_world = sample_world\<lparr>w_db := empty_db\<lparr>db_tasks := [row_of_task waiting_task]\<rparr>\<rparr>,
     dm_runtimes = Map.empty, dm_bus = newBus, dm_hooks = [], dm_shutdown = None\<rparr>"

lemma sample_attempt_files: "AttemptFiles ''/s'' sample_id 1 =
    Inr (''/s/tasks/'' @ sample_id @ ''/attempts/1/stdout.log'', ''/s/tasks/'' @ sample_id @ ''/attempts/1/stderr.log'',
      ''/s/tasks/'' @ sample_id @ ''/attempts/1/meta.json'')"
  by code_simp

lemma sample_durations:
  "ParseDuration ''30s'' = Some (30 * Second)" "ParseDuration ''1h'' = Some Hour"
  "ParseDuration ''15s'' = Some (15 * Second)" "ParseDuration ''15m'' = Some (15 * Minute)"
  "ParseDuration ''72h'' = Some (72 * Hour)"
  by code_simp+

lemma sample_buildPolicy: "buildPolicy C sample_config now =
    Inr \<lparr>Scheduler_policy = \<lparr>BackoffBase = 30 * Second, BackoffFactor = 2, BackoffMax = Hour,
       BackoffJitter = fl (1 / 5), ResetBuffer = 15 * Second, MaxAttempts = 0, Deadline = None,
       MaxTotalWait = 72 * Hour\<rparr>, OnUnknown = ''retry'', ScanBytes = 65536, ProbeInterval = 15 * Minute\<rparr>"
  by (simp add: buildPolicy_def sample_config_def Default_def parse_dur_def parse_deadline_def sample_durations)

lemma sample_engine: "NewEngine fake_libs (Merge fake_DetectionRules []) = Inr fake_engine"
proof -
  have "rule_compiles fake_libs r" if "r \<in> set fake_DetectionRules" for r
    using that by (auto simp: rule_compiles_def fake_DetectionRules_def builtin_rule_def validCategories_def
        fake_libs_def plain_libs_def)
  moreover have m: "Merge fake_DetectionRules [] = sort_desc rule_Priority fake_DetectionRules"
    by (simp add: Merge_def merge_rules_def userByName_def)
  ultimately show ?thesis by (simp add: NewEngine_Inr m fake_engine_def)
qed

lemma sample_list: "ListTasks (task_db sample_daemon) = Inr [stored waiting_task]"
proof -
  have "task_times_ok waiting_task" by (simp add: task_times_ok_def waiting_task_def sample_task_def year_ok_epoch)
  then have "scanTask (row_of_task waiting_task) = Inr (stored waiting_task)" by simp
  then show ?thesis by (simp add: ListTasks_def sample_daemon_def)
qed

lemmas daemon_eval = Reconcile_def reconcile_one_def reconcileTask_def startRuntime_def now_of_def loop_turn_def
  postEvent_def task_deps_def task_spec_of_def entry_of_def providerConfigMap_def configRules_def registry_Get_def
  sample_attempt_files sample_buildPolicy sample_engine sample_outside_def sample_daemon_def waiting_task_def
  stored_def or_empty_object_def after_spawn_def child_started_def announced_def newProbe_def notifyFunc_def

lemma sample_turn:
  "case dm_runtimes (loop_turn sample_outside sample_id (snd (Reconcile sample_outside sample_daemon))) sample_id of
     Some rt \<Rightarrow> Status (s_task (rt_sup rt)) = RUNNING \<and> TotalAttempts (s_task (rt_sup rt)) = 1 | None \<Rightarrow> False"
proof -
  have c: "c_Providers sample_config = [(''fake'', \<lparr>p_Binary = [], p_Model = [], p_ResumePrompt = [],
     p_Unattended = False, p_ExtraArgs = [], p_Script = ''/w/script''\<rparr>)]" "c_Rules sample_config = []"
     "a_Command (c_Availability sample_config) = []" "n_OnStateChange (c_Notifications sample_config) = []"
    by (simp_all add: sample_config_def Default_def)
  show ?thesis
    using sample_list by (simp add: daemon_eval sup_eval db_eval sample_eval c)
qed


lemma sample_ok: "daemon_ok sample_daemon" "readable (task_db sample_daemon)" "rebooted sample_daemon = sample_daemon"
proof -
  have "TotalAttempts waiting_task = 0" by (simp add: waiting_task_def sample_task_def)
  then have "db_numbered (task_db sample_daemon)"
    using numbered_CreateTask [of waiting_task empty_db] by (simp add: Tx_CreateTask_Inr empty_db_def sample_daemon_def
        db_numbered_def db_ok_def keys_ok_def attempt_keys_def event_keys_def task_row_def)
  then show "daemon_ok sample_daemon" by (simp add: daemon_ok_def) (simp add: sample_daemon_def)
  show "readable (task_db sample_daemon)"
    by (auto simp: readable_def sample_daemon_def task_times_ok_def waiting_task_def sample_task_def year_ok_epoch
        intro!: exI [of _ waiting_task])
  show "rebooted sample_daemon = sample_daemon"
    by (simp add: rebooted_def sample_daemon_def sample_world_def)
qed

definition sample_running :: daemon where
  "sample_running = loop_turn sample_outside sample_id (snd (Reconcile sample_outside sample_daemon))"

lemma sample_reachable: "reachable sample_outside sample_daemon sample_running"
  unfolding sample_running_def
proof (rule reachable.step [OF reachable.step [OF reachable.start] dstep.turn])
  show "dstep sample_outside sample_daemon (snd (Reconcile sample_outside sample_daemon))"
    using sample_ok by (intro dstep.restart [of _ _ "fst (Reconcile sample_outside sample_daemon)"]) simp_all
qed


text \<open>C2: whatever the interleaving of supervisors, children, timers, requests and restarts, the daemon stays
  in step with its database: each live runtime supervises a task that can still move and whose row is exactly
  the supervisor's task, the tables satisfy their constraints, and the attempts of every task, live or not,
  are numbered from 1 to its total, each once.\<close>

theorem live_tasks_match_rows:
  assumes "reachable G d0 d" and "daemon_ok d0"
  shows "db_ok (task_db d) \<and>
    (\<forall>i r. task_row i (task_db d) = Some r \<longrightarrow> attempt_nos i (task_db d) = [1..TotalAttempts r]) \<and>
    (\<forall>i rt. dm_runtimes d i = Some rt \<longrightarrow> ID (s_task (rt_sup rt)) = i \<and>
       task_row i (task_db d) = Some (row_of_task (s_task (rt_sup rt))) \<and> \<not> Terminal (Status (s_task (rt_sup rt))))"
proof -
  have "daemon_ok d" using assms by (induction rule: reachable.induct) (auto intro: dstep_ok)
  then show ?thesis using task_row_Some_ID
    by (fastforce simp: daemon_ok_def db_numbered_def row_ok_def runtime_ok_def row_is_def)
qed

theorem live_tasks_match_rows_witness:
  "\<exists>rt. dm_runtimes sample_running sample_id = Some rt \<and> attempt_nos sample_id (task_db sample_running) = [1] \<and>
     task_row sample_id (task_db sample_running) = Some (row_of_task (s_task (rt_sup rt)))"
proof -
  obtain rt where rt: "dm_runtimes sample_running sample_id = Some rt" "TotalAttempts (s_task (rt_sup rt)) = 1"
    using sample_turn unfolding sample_running_def by (auto split: option.splits)
  note ok = live_tasks_match_rows [OF sample_reachable sample_ok(1)]
  have row: "task_row sample_id (task_db sample_running) = Some (row_of_task (s_task (rt_sup rt)))"
    using ok rt(1) by blast
  then have "attempt_nos sample_id (task_db sample_running) = [1..TotalAttempts (row_of_task (s_task (rt_sup rt)))]"
    using ok by blast
  then show ?thesis using rt row by simp
qed

end
