(* ===== verification/DaemonProps.thy ===== *)
theory DaemonProps
  imports DaemonSteps
begin

text \<open>
  The properties of the daemon's operations: what validation of the configuration is worth, the backoff of the
  probe, what a restart restores, and the answers of the methods.
\<close>

section \<open>Configuration and start\<close>

lemma validate_errors_Nil:
  assumes "validate_errors L C c = []"
  shows "ParseDuration (r_BackoffBase (c_Retry c)) \<noteq> None" "ParseDuration (r_BackoffMax (c_Retry c)) \<noteq> None"
    "ParseDuration (r_ResetBuffer (c_Retry c)) \<noteq> None" "ParseDuration (a_PollInterval (c_Availability c)) \<noteq> None"
    "r_MaxTotalWait (c_Retry c) = [] \<or> ParseDuration (r_MaxTotalWait (c_Retry c)) \<noteq> None"
    "r_Deadline (c_Retry c) = [] \<or> ParseDuration (r_Deadline (c_Retry c)) \<noteq> None \<or> parse_RFC3339 (r_Deadline (c_Retry c)) \<noteq> None"
    "validateRules L C 0 (c_Rules c) = []"
  using assms unfolding validate_errors_def validateDuration_def validateDeadline_def
  by (auto split: if_splits)

lemma validated_policy:
  assumes "validate_errors L C c = []"
  shows "\<exists>pol. buildPolicy C c now = Inr pol"
  using validate_errors_Nil [OF assms]
  by (auto simp: buildPolicy_def parse_dur_def parse_deadline_def Let_def split: option.splits)

lemma validRule_compiles:
  "validateRule L C i r = [] \<Longrightarrow> rule_compiles L (configRule r)"
  by (auto simp: validateRule_def validateRegex_def validateExtractor_def Let_def rule_compiles_def configRule_def
      cfg_validCategories_def validCategories_def split: if_splits option.splits)

lemma validRules_compile: "validateRules L C i rs = [] \<Longrightarrow> r \<in> set rs \<Longrightarrow> rule_compiles L (configRule r)"
  by (induction rs arbitrary: i) (auto dest: validRule_compiles)

lemma Merge_mem: "r \<in> set (Merge b user) \<Longrightarrow> r \<in> set b \<or> r \<in> set user"
  by (auto simp: Merge_def merge_rules_def userByName_def split: option.splits dest!: map_of_SomeD)

text \<open>C16: a configuration that passes validation can be run: for every task and every provider whose own rules
  compile, building the policy and the detection engine succeeds, so \<open>startRuntime\<close> reports no error and the
  task has a supervisor that is about to run it. An error there can only come from a snapshot that was not
  validated.\<close>

theorem validated_config_starts:
  assumes "validate_errors (o_libs G) (o_cfg G) cfg = []"
    and "\<And>r. r \<in> set (p_DetectionRules prov) \<Longrightarrow> rule_compiles (o_libs G) r"
  shows "case startRuntime G t cfg prov d of (err, d') \<Rightarrow> err = None \<and>
    (\<exists>rt. dm_runtimes d' (ID t) = Some rt \<and> s_task (rt_sup rt) = t \<and>
       OnUnknown (s_policy (rt_sup rt)) = r_OnUnknown (c_Retry cfg))"
proof -
  obtain now d1 where n: "now_of G d = (now, d1)" by fastforce
  then have d1: "dm_runtimes d1 = dm_runtimes d" using now_of_sel by blast
  obtain pol where pol: "buildPolicy (o_cfg G) cfg now = Inr pol" using validated_policy [OF assms(1)] by blast
  then have "OnUnknown pol = r_OnUnknown (c_Retry cfg)"
    by (auto simp: buildPolicy_def Let_def split: sum.splits)
  moreover have "rule_compiles (o_libs G) r" if "r \<in> set (Merge (p_DetectionRules prov) (configRules cfg))" for r
    using that assms(2) validRules_compile [OF validate_errors_Nil(7) [OF assms(1)]]
    by (auto dest!: Merge_mem simp: configRules_def)
  then obtain e where "NewEngine (o_libs G) (Merge (p_DetectionRules prov) (configRules cfg)) = Inr e"
    using NewEngine_Inr by blast
  ultimately show ?thesis using n pol d1 by (simp add: startRuntime_def New_def)
qed

lemma sample_valid: "validate_errors (o_libs sample_outside) (o_cfg sample_outside) sample_config = []"
proof -
  have "0 \<le> fl (1 / 5)" "fl (1 / 5) \<le> 1" by code_simp+
  then show ?thesis
    by (simp add: validate_errors_def one_of_def validateDuration_def validateDeadline_def sample_config_def Default_def
        sample_durations not_less)
qed

lemma sample_rules:
  "list_all (rule_compiles (o_libs sample_outside)) (p_DetectionRules (fake (Inr ''/bin/defib'')))"
  by (simp add: fake_def sample_outside_def rule_compiles_def fake_DetectionRules_def builtin_rule_def
      validCategories_def fake_libs_def plain_libs_def)

theorem validated_config_starts_witness:
  "fst (startRuntime sample_outside waiting_task sample_config (fake (Inr ''/bin/defib'')) sample_daemon) = None"
proof -
  have r: "rule_compiles (o_libs sample_outside) r" if "r \<in> set (p_DetectionRules (fake (Inr ''/bin/defib'')))" for r
    using sample_rules that by (simp add: list_all_iff)
  show ?thesis
    using validated_config_starts [where t = waiting_task and d = sample_daemon and prov = "fake (Inr ''/bin/defib'')", OF sample_valid r]
    by (cases "startRuntime sample_outside waiting_task sample_config (fake (Inr ''/bin/defib'')) sample_daemon") simp
qed

text \<open>Validation does not ask that a duration be positive: with a negative base the next attempt is planned in the
  past, and the task is retried without any pause.\<close>

definition negative_config :: config where
  "negative_config = Default\<lparr>c_Retry := (c_Retry Default)\<lparr>r_BackoffBase := ''-30s'', r_BackoffJitter := 0\<rparr>\<rparr>"

definition negative_policy :: policy where
  "negative_policy = \<lparr>BackoffBase = - 30 * Second, BackoffFactor = 2, BackoffMax = Hour, BackoffJitter = 0,
     ResetBuffer = 15 * Second, MaxAttempts = 0, Deadline = None, MaxTotalWait = 72 * Hour\<rparr>"

lemma negative_backoff_validates:
  "validate_errors L C negative_config = [] \<and>
   (\<exists>pol. buildPolicy C negative_config now = Inr pol \<and>
      fst (NextWake (Scheduler_policy pol) 1 None now rng k) = time_Add now (- 30 * Second))"
proof -
  have d: "ParseDuration ''-30s'' = Some (- 30 * Second)" by code_simp
  have v: "validate_errors L C negative_config = []"
    by (simp add: validate_errors_def one_of_def validateDuration_def validateDeadline_def negative_config_def Default_def
        sample_durations d)
  have "\<exists>pol. buildPolicy C negative_config now = Inr pol \<and> Scheduler_policy pol = negative_policy"
    by (simp add: buildPolicy_def negative_config_def Default_def parse_dur_def parse_deadline_def sample_durations d
        negative_policy_def)
  moreover have "backoffFor negative_policy 1 = - 30 * Second" by code_simp
  then have "fst (NextWake negative_policy 1 None now rng k) = time_Add now (- 30 * Second)"
    by (simp add: NextWake_def jitteredDelay_def negative_policy_def)
  ultimately show ?thesis using v by auto
qed


section \<open>The probe\<close>

lemma backoff_loop_power:
  "0 \<le> dl \<Longrightarrow> backoff_loop n dl = min probeBackoffMax (2 ^ n * dl)"
proof (induction n arbitrary: dl)
  case (Suc n)
  have "2 ^ n * (dl * 2) \<ge> dl * 2" using Suc.prems by (simp add: mult_le_cancel_right1)
  then show ?case using Suc by (auto simp: min_def mult.assoc)
qed (simp add: min_def)

text \<open>While the availability command keeps failing, the probe waits one minute, then twice as long each
  time, and never more than fifteen minutes; until that time it reports the provider unavailable without
  running the command, and any run that succeeds or answers resets it.\<close>

theorem probe_backs_off:
  "backoffDelay p = min (15 * Minute) (2 ^ (pr_failures p - 1) * Minute) \<and>
   (case probe now after outcome p of (available, run, p') \<Rightarrow>
      (available \<longleftrightarrow> run \<and> outcome = probeAvailable) \<and>
      (run \<longleftrightarrow> (\<forall>t. pr_nextAllowed p = Some t \<longrightarrow> t \<le> now)) \<and>
      pr_failures p' = (if \<not> run then pr_failures p else if outcome = probeError then Suc (pr_failures p) else 0) \<and>
      pr_nextAllowed p' = (if \<not> run then pr_nextAllowed p else if outcome = probeError
         then Some (time_Add after (min (15 * Minute) (2 ^ pr_failures p * Minute))) else None))"
proof -
  have d: "backoffDelay q = min (15 * Minute) (2 ^ (pr_failures q - 1) * Minute)" for q
    by (simp add: backoffDelay_def backoff_loop_power)
  have "(case pr_nextAllowed p of None \<Rightarrow> False | Some t \<Rightarrow> now < t) \<longleftrightarrow> \<not> (\<forall>t. pr_nextAllowed p = Some t \<longrightarrow> t \<le> now)"
    by (cases "pr_nextAllowed p") (simp_all add: not_le)
  then show ?thesis using d by (cases outcome) (simp_all add: probe_def Let_def)
qed

theorem probe_backs_off_witness:
  "backoffDelay \<lparr>pr_failures = 3, pr_nextAllowed = None\<rparr> = 4 * Minute \<and>
   backoffDelay \<lparr>pr_failures = 30, pr_nextAllowed = None\<rparr> = 15 * Minute \<and>
   probe 5 6 probeAvailable \<lparr>pr_failures = 1, pr_nextAllowed = Some 9\<rparr> =
     (False, False, \<lparr>pr_failures = 1, pr_nextAllowed = Some 9\<rparr>)"
proof -
  obtain a r p' where p: "probe 5 6 probeAvailable \<lparr>pr_failures = 1, pr_nextAllowed = Some 9\<rparr> = (a, r, p')"
    by (metis prod_cases3)
  show ?thesis
    using probe_backs_off [where p = "\<lparr>pr_failures = 3, pr_nextAllowed = None\<rparr>"]
      probe_backs_off [where p = "\<lparr>pr_failures = 30, pr_nextAllowed = None\<rparr>"]
      probe_backs_off [where now = 5 and after = 6 and outcome = probeAvailable and
        p = "\<lparr>pr_failures = 1, pr_nextAllowed = Some 9\<rparr>"] p
    by (cases p') auto
qed


section \<open>Recovery\<close>

text \<open>What a restart needs of a task, and of the outside.\<close>

definition restorable :: "outside \<Rightarrow> task \<Rightarrow> bool" where
  "restorable G t \<longleftrightarrow> (case o_unmarshal G (ConfigJSON t) of Inl e \<Rightarrow> False | Inr cfg \<Rightarrow>
     validate_errors (o_libs G) (o_cfg G) cfg = [] \<and>
     (case registry_Get (o_registry G) (Provider t) of Inl e \<Rightarrow> False | Inr prov \<Rightarrow>
        list_all (rule_compiles (o_libs G)) (p_DetectionRules prov)))"

lemma ListAttempts_cong:
  "filter (\<lambda>r. a_TaskID r = i) (db_attempts d') = filter (\<lambda>r. a_TaskID r = i) (db_attempts d) \<Longrightarrow>
    ListAttempts i d' = ListAttempts i d"
  by (simp add: ListAttempts_def)

lemma list_all2_mem: "list_all2 P xs ys \<Longrightarrow> y \<in> set ys \<Longrightarrow> \<exists>x \<in> set xs. P x y"
  by (induction rule: list_all2_induct) auto

lemma ListAttempts_mem:
  assumes "ListAttempts i d = Inr as" and "a \<in> set as"
  shows "\<exists>r \<in> set (db_attempts d). a_TaskID r = i \<and> scanAttempt r = Inr a \<and> a_ID r = a_ID a"
proof -
  let ?rs = "sort_key a_AttemptNo (filter (\<lambda>r. a_TaskID r = i) (db_attempts d))"
  have all: "list_all2 (\<lambda>r x. scanAttempt r = Inr x) ?rs as"
    using assms(1) by (simp add: ListAttempts_def scan_rows_Inr)
  then obtain r where "r \<in> set ?rs" "scanAttempt r = Inr a"
    using list_all2_mem [OF all assms(2)] by blast
  moreover from this have "a_ID r = a_ID a" by (auto simp: scanAttempt_def split: sum.splits)
  ultimately show ?thesis by auto
qed

lemma filter_map_same:
  "\<forall>r \<in> set xs. P (f r) = P r \<and> (P r \<longrightarrow> f r = r) \<Longrightarrow> filter P (map f xs) = filter P xs"
  by (induction xs) auto

lemma Tx_UpdateAttempt_frame:
  assumes "Tx_UpdateAttempt a d = Inr d'" and "db_ok d" and "r \<in> set (db_attempts d)" and "a_ID r = a_ID a"
    and "j \<noteq> a_TaskID r"
  shows "filter (\<lambda>x. a_TaskID x = j) (db_attempts d') = filter (\<lambda>x. a_TaskID x = j) (db_attempts d)"
proof -
  have "distinct (map a_ID (db_attempts d))"
    using assms(2) by (simp add: db_ok_def keys_ok_def attempt_keys_def comp_def)
  then have "a_TaskID x = a_TaskID r" if "x \<in> set (db_attempts d)" "a_ID x = a_ID a" for x
    using that assms(3,4) by (metis inj_on_def distinct_map)
  then show ?thesis
    using assms(1,5) by (auto simp: Tx_UpdateAttempt_def intro!: filter_map_same split: if_splits)
qed

lemma interrupted_tx_succeeds:
  assumes "ID t \<in> ID ` set (db_tasks d)" and "db_ok d"
    and "\<And>a. op = Some a \<Longrightarrow> \<exists>r \<in> set (db_attempts d). a_TaskID r = ID t \<and> a_ID r = a_ID a"
  shows "\<exists>d'. interrupted_tx G t now nw op d = Inr d' \<and> (\<forall>j. j \<noteq> ID t \<longrightarrow> ListAttempts j d' = ListAttempts j d)"
proof -
  let ?log = "and_then (event_stmt (ID t) now ''attempt_exit'' (o_json G [(''outcome'', JStr CategoryUnknown),
       (''rule'', JStr daemon_interrupted), (''attempt'', JInt (CurrentAttempt t))]))
    (and_then (event_stmt (ID t) now ''scheduled'' (o_json G [(''next_wake_at'', JStr (format_RFC3339Nano nw)),
         (''cause'', JStr daemon_interrupted)]))
      (Tx_UpdateTask (interrupted_task now nw t)))"
  have rest: "\<exists>d2. ?log d1 = Inr d2 \<and> db_attempts d2 = db_attempts d1" if "ID t \<in> ID ` set (db_tasks d1)" for d1
    using that by (simp add: and_then_def event_stmt_def drop_id_def Tx_AppendEvent_def Let_def Tx_UpdateTask_def
        interrupted_task_def)
  show ?thesis
  proof (cases op)
    case None
    have "interrupted_tx G t now nw op d = ?log d"
      unfolding interrupted_tx_def None option.case and_then_def [of Inr] sum.case ..
    then obtain d2 where "interrupted_tx G t now nw op d = Inr d2" "db_attempts d2 = db_attempts d"
      using rest [OF assms(1)] by metis
    then show ?thesis using ListAttempts_cong [of _ d2 d] by auto
  next
    case (Some a)
    then obtain r where r: "r \<in> set (db_attempts d)" "a_TaskID r = ID t" "a_ID r = a_ID a" using assms(3) by blast
    then have "a_ID (close_interrupted now a) \<in> a_ID ` set (db_attempts d)"
      by (metis (no_types, lifting) attempt_rec.select_convs(1) attempt_rec.surjective attempt_rec.update_convs(6,8,10)
          close_interrupted_def image_eqI)
    then obtain d1 where d1: "Tx_UpdateAttempt (close_interrupted now a) d = Inr d1" by (simp add: Tx_UpdateAttempt_def)
    have "a_ID (close_interrupted now a) = a_ID a" by (simp add: close_interrupted_def)
    note frame = Tx_UpdateAttempt_frame [OF d1 assms(2) r(1)]
    have "ID t \<in> ID ` set (db_tasks d1)" using assms(1) Tx_UpdateAttempt_keys [OF d1] by simp
    moreover have "interrupted_tx G t now nw op d = ?log d1"
      unfolding interrupted_tx_def Some option.case and_then_def [of "Tx_UpdateAttempt _"] d1 sum.case ..
    ultimately obtain d2 where "interrupted_tx G t now nw op d = Inr d2" "db_attempts d2 = db_attempts d1"
      using rest by metis
    then show ?thesis using frame r \<open>a_ID (close_interrupted now a) = a_ID a\<close> ListAttempts_cong [of _ d2 d] by auto
  qed
qed


lemma arm_wake_armed: "timers_Armed (w_timers (dm_world (arm_wake G t d))) j \<longleftrightarrow>
    ID t = j \<or> timers_Armed (w_timers (dm_world d)) j"
  by (simp add: arm_wake_def now_of_def Let_def wt.armed_arm)

text \<open>The recovery of a restorable task when no transaction fails.\<close>

lemma recoverInterrupted_succeeds:
  assumes "validate_errors (o_libs G) (o_cfg G) cfg = []" and "\<And>k. o_fault G k = NoFault"
    and "db_ok (task_db d)" and "ID t \<in> ID ` set (db_tasks (task_db d))" and "ListAttempts (ID t) (task_db d) = Inr as"
  shows "\<exists>now nw d'. recoverInterrupted G t cfg d = (Inr (interrupted_task now nw t), d') \<and>
    (\<forall>j. j \<noteq> ID t \<longrightarrow> ListAttempts j (task_db d') = ListAttempts j (task_db d))"
proof -
  obtain now d1 where n: "now_of G d = (now, d1)" by fastforce
  obtain pol where pol: "buildPolicy (o_cfg G) cfg now = Inr pol"
    using validated_policy [OF assms(1)] by blast
  obtain nw d2 where w: "interrupted_wake G cfg pol t now d1 = (nw, d2)" by fastforce
  then have db: "task_db d2 = task_db d"
    using now_of_sel [OF n] by (auto simp: interrupted_wake_def split: if_splits prod.splits)
  let ?op = "List.find (\<lambda>a. a_EndedAt a = None) as"
  have op: "openAttempt t d2 = Inr ?op" using assms(5) db by (simp add: openAttempt_def)
  have ex: "\<exists>r \<in> set (db_attempts (task_db d)). a_TaskID r = ID t \<and> a_ID r = a_ID a" if "?op = Some a" for a
    using find_Some_mem [OF that] ListAttempts_mem [OF assms(5)] by blast
  from interrupted_tx_succeeds [where G = G and now = now and nw = nw, OF assms(4,3) ex] obtain db' where
    db': "interrupted_tx G t now nw ?op (task_db d) = Inr db'" "\<forall>j. j \<noteq> ID t \<longrightarrow> ListAttempts j db' = ListAttempts j (task_db d)"
    by auto
  then have "UpdateTaskTx (o_fault G (w_step (dm_world d2))) (interrupted_tx G t now nw ?op) (task_db d2) = (None, db')"
    by (simp add: UpdateTaskTx_def assms(2) db)
  then show ?thesis using n pol w op db'(2) by (simp add: recoverInterrupted_def Let_def) blast
qed

definition restored :: "task \<Rightarrow> daemon \<Rightarrow> bool" where
  "restored t d \<longleftrightarrow> (\<exists>rt. dm_runtimes d (ID t) = Some rt \<and>
     Status (rt_task rt) = (if Status t = RUNNING then WAITING else Status t) \<and>
     (Status (rt_task rt) = WAITING \<longrightarrow> timers_Armed (w_timers (dm_world d)) (ID t)) \<and>
     (Status (rt_task rt) = PENDING \<longrightarrow> rt_events rt = [EventStart]))"

lemma reconcileTask_restores:
  assumes "restorable G t" and "\<And>k. o_fault G k = NoFault" and "daemon_ok d" and "row_is t (task_db d)"
    and "ListAttempts (ID t) (task_db d) = Inr as" and "\<not> Terminal (Status t)" and d': "snd (reconcileTask G t d) = d'"
  shows "restored t d' \<and> (\<forall>j. j \<noteq> ID t \<longrightarrow> dm_runtimes d' j = dm_runtimes d j \<and>
      ListAttempts j (task_db d') = ListAttempts j (task_db d) \<and>
      (timers_Armed (w_timers (dm_world d)) j \<longrightarrow> timers_Armed (w_timers (dm_world d')) j))"
proof -
  obtain cfg prov where cfg: "o_unmarshal G (ConfigJSON t) = Inr cfg" "registry_Get (o_registry G) (Provider t) = Inr prov"
      "validate_errors (o_libs G) (o_cfg G) cfg = []" "list_all (rule_compiles (o_libs G)) (p_DetectionRules prov)"
    using assms(1) by (auto simp: restorable_def split: sum.splits)
  have "\<exists>t1 d1. (if Status t = RUNNING then recoverInterrupted G t cfg d else (Inr t, d)) = (Inr t1, d1) \<and>
      ID t1 = ID t \<and> Status t1 = (if Status t = RUNNING then WAITING else Status t) \<and> dm_runtimes d1 = dm_runtimes d \<and>
      w_timers (dm_world d1) = w_timers (dm_world d) \<and>
      (\<forall>j. j \<noteq> ID t \<longrightarrow> ListAttempts j (task_db d1) = ListAttempts j (task_db d))"
  proof (cases "Status t = RUNNING")
    case True
    have "db_ok (task_db d)" using assms(3) by (simp add: daemon_ok_def db_numbered_def)
    moreover have "ID t \<in> ID ` set (db_tasks (task_db d))"
      using task_row_None [of "ID t" "task_db d"] assms(4) by (auto simp: row_is_def)
    ultimately obtain now nw d1 where
      r: "recoverInterrupted G t cfg d = (Inr (interrupted_task now nw t), d1)"
      "\<forall>j. j \<noteq> ID t \<longrightarrow> ListAttempts j (task_db d1) = ListAttempts j (task_db d)"
      using recoverInterrupted_succeeds [OF cfg(3) assms(2) _ _ assms(5)] by blast
    moreover from r(1) have "dm_runtimes d1 = dm_runtimes d \<and> w_timers (dm_world d1) = w_timers (dm_world d)"
      by (cases rule: recoverInterrupted_cases) simp_all
    ultimately show ?thesis using True by (simp add: interrupted_task_def)
  qed simp
  then obtain t1 d1 where t1: "(if Status t = RUNNING then recoverInterrupted G t cfg d else (Inr t, d)) = (Inr t1, d1)"
      "ID t1 = ID t" "Status t1 = (if Status t = RUNNING then WAITING else Status t)"
    and d1: "dm_runtimes d1 = dm_runtimes d" "w_timers (dm_world d1) = w_timers (dm_world d)"
      "\<forall>j. j \<noteq> ID t \<longrightarrow> ListAttempts j (task_db d1) = ListAttempts j (task_db d)" by blast
  obtain e d2 where s: "startRuntime G t1 cfg prov d1 = (e, d2)" by fastforce
  have e: "e = None" using validated_config_starts [OF cfg(3), of prov t1 d1] cfg(4) s by (simp add: list_all_iff)
  from s obtain rt where d2: "task_db d2 = task_db d1" "dm_runtimes d2 = (dm_runtimes d1)(ID t \<mapsto> rt)" "rt_task rt = t1"
      "rt_events rt = []" "w_timers (dm_world d2) = w_timers (dm_world d1)"
    using e t1(2) by (cases rule: startRuntime_cases) auto
  have "d' = (case Status t1 of WAITING \<Rightarrow> arm_wake G t1 d2 | PENDING \<Rightarrow> postEvent (ID t1) EventStart d2 | _ \<Rightarrow> d2)"
    using d' cfg(1,2) t1(1) s e by (simp add: reconcileTask_def)
  then consider "Status t1 = WAITING" "d' = arm_wake G t1 d2" | "Status t1 = PENDING" "d' = postEvent (ID t1) EventStart d2"
    | "Status t1 \<notin> {WAITING, PENDING}" "d' = d2" by (cases "Status t1") auto
  then show ?thesis
    by cases (use t1(2,3) d1 d2 in \<open>auto simp: restored_def arm_wake_armed postEvent_def\<close>)
qed


lemma restored_kept:
  assumes "restored u d" and "dm_runtimes d' (ID u) = dm_runtimes d (ID u)"
    and "timers_Armed (w_timers (dm_world d)) (ID u) \<Longrightarrow> timers_Armed (w_timers (dm_world d')) (ID u)"
  shows "restored u d'"
  using assms by (auto simp: restored_def)

lemma reconcile_all_restores:
  assumes "\<And>k. o_fault G k = NoFault"
  shows "daemon_ok d \<Longrightarrow> distinct (map ID ts) \<Longrightarrow>
    \<forall>t \<in> set ts. row_is t (task_db d) \<and> dm_runtimes d (ID t) = None \<and> (\<exists>as. ListAttempts (ID t) (task_db d) = Inr as) \<and>
       (Terminal (Status t) \<or> restorable G t) \<Longrightarrow>
    (\<forall>t \<in> set ts. Terminal (Status t) \<or> restored t (fold (reconcile_one G) ts d)) \<and>
    (\<forall>u. ID u \<notin> ID ` set ts \<longrightarrow> restored u d \<longrightarrow> restored u (fold (reconcile_one G) ts d))"
proof (induction ts arbitrary: d)
  case (Cons t ts)
  let ?d = "reconcile_one G t d"
  have t: "row_is t (task_db d)" "dm_runtimes d (ID t) = None" "Terminal (Status t) \<or> restorable G t"
    using Cons.prems(3) by simp_all
  obtain as where as: "ListAttempts (ID t) (task_db d) = Inr as" using Cons.prems(3) by auto
  note one = reconcile_one_step [OF Cons.prems(1) t(1), of G]
  have new: "(Terminal (Status t) \<or> restored t ?d) \<and> (\<forall>j. j \<noteq> ID t \<longrightarrow> dm_runtimes ?d j = dm_runtimes d j \<and>
      ListAttempts j (task_db ?d) = ListAttempts j (task_db d) \<and>
      (timers_Armed (w_timers (dm_world d)) j \<longrightarrow> timers_Armed (w_timers (dm_world ?d)) j))"
  proof (cases "Terminal (Status t)")
    case False
    then show ?thesis
      using reconcileTask_restores [OF _ assms Cons.prems(1) t(1) as False refl] t(2,3) by (simp add: reconcile_one_def)
  qed (simp add: reconcile_one_def)
  have "\<forall>u \<in> set ts. ID u \<noteq> ID t" using Cons.prems(2) by (auto simp: image_iff)
  then have rest: "\<forall>u \<in> set ts. row_is u (task_db ?d) \<and> dm_runtimes ?d (ID u) = None \<and>
      (\<exists>as. ListAttempts (ID u) (task_db ?d) = Inr as) \<and> (Terminal (Status u) \<or> restorable G u)"
    using Cons.prems(3) one new by (simp add: row_is_def)
  have keep: "restored u ?d" if "ID u \<noteq> ID t" "restored u d" for u
    using restored_kept [OF that(2)] new that(1) by blast
  have IH: "(\<forall>t \<in> set ts. Terminal (Status t) \<or> restored t (fold (reconcile_one G) ts ?d)) \<and>
    (\<forall>u. ID u \<notin> ID ` set ts \<longrightarrow> restored u ?d \<longrightarrow> restored u (fold (reconcile_one G) ts ?d))"
    using Cons.IH [OF _ _ rest] one Cons.prems(2) by simp
  then show ?case using new keep Cons.prems(2) by auto
qed simp



definition interrupted_sample :: task where
  "interrupted_sample = waiting_task\<lparr>Status := RUNNING\<rparr>"

definition interrupted_daemon :: daemon where
  "interrupted_daemon = sample_daemon\<lparr>dm_world := sample_world\<lparr>w_db := empty_db\<lparr>db_tasks := [row_of_task interrupted_sample]\<rparr>\<rparr>\<rparr>"

lemma interrupted_daemon_ok:
  "daemon_ok interrupted_daemon" "dm_runtimes interrupted_daemon = Map.empty" "readable (task_db interrupted_daemon)"
  "ListTasks (task_db interrupted_daemon) = Inr [stored interrupted_sample]" "restorable sample_outside (stored interrupted_sample)"
  "ListAttempts i (task_db interrupted_daemon) = Inr []"
proof -
  have t: "TotalAttempts interrupted_sample = 0" by (simp add: interrupted_sample_def waiting_task_def sample_task_def)
  have times: "task_times_ok interrupted_sample"
    by (simp add: task_times_ok_def interrupted_sample_def waiting_task_def sample_task_def year_ok_epoch)
  show rts: "dm_runtimes interrupted_daemon = Map.empty" by (simp add: interrupted_daemon_def sample_daemon_def)
  have "db_numbered (task_db interrupted_daemon)"
    using numbered_CreateTask [of interrupted_sample empty_db] t by (simp add: Tx_CreateTask_Inr empty_db_def
        interrupted_daemon_def db_numbered_def db_ok_def keys_ok_def attempt_keys_def event_keys_def task_row_def)
  then show "daemon_ok interrupted_daemon" by (simp add: daemon_ok_def rts)
  show "readable (task_db interrupted_daemon)" using times by (auto simp: readable_def interrupted_daemon_def)
  show "ListTasks (task_db interrupted_daemon) = Inr [stored interrupted_sample]"
    using times by (simp add: ListTasks_def interrupted_daemon_def)
  show "ListAttempts i (task_db interrupted_daemon) = Inr []"
    by (simp add: ListAttempts_def interrupted_daemon_def empty_db_def)
  have "o_unmarshal sample_outside c = Inr sample_config" for c by (simp add: sample_outside_def)
  moreover have "registry_Get (o_registry sample_outside) (Provider (stored interrupted_sample)) = Inr (fake (Inr ''/bin/defib''))"
    by (simp add: registry_Get_def sample_outside_def stored_def interrupted_sample_def waiting_task_def sample_task_def)
  ultimately show "restorable sample_outside (stored interrupted_sample)"
    using sample_valid sample_rules by (simp add: restorable_def)
qed


text \<open>Recovery does nothing twice: once every task that can move has a supervisor, reconciling again
  changes nothing, neither the database nor a runtime, a timer or a queued event.\<close>

theorem Reconcile_twice:
  assumes "\<And>r. r \<in> set (db_tasks (task_db d)) \<Longrightarrow> Terminal (Status r) \<or> dm_runtimes d (ID r) \<noteq> None"
  shows "snd (Reconcile G d) = d"
proof (cases "ListTasks (task_db d)")
  case (Inr ts)
  obtain rs where rs: "mset rs = mset (db_tasks (task_db d))" "list_all2 (\<lambda>r t. scanTask r = Inr t) rs ts"
    using ListTasks_rows [OF Inr] by blast
  have idle: "reconcile_one G t d = d" if t: "t \<in> set ts" for t
  proof -
    obtain r where "r \<in> set rs" "scanTask r = Inr t" using list_all2_mem [OF rs(2) t] by blast
    then show ?thesis
      using assms [of r] mset_eq_setD [OF rs(1)] scanTask_ID scanTask_Status by (fastforce simp: reconcile_one_def)
  qed
  have "fold (reconcile_one G) us d = d" if "set us \<subseteq> set ts" for us
    using that idle by (induction us) auto
  then show ?thesis using Inr by (simp add: Reconcile_def)
qed (simp add: Reconcile_def)

theorem Reconcile_twice_witness:
  "\<exists>rt. dm_runtimes sample_running sample_id = Some rt \<and>
     (let d = sample_daemon\<lparr>dm_runtimes := [sample_id \<mapsto> rt]\<rparr> in snd (Reconcile sample_outside d) = d)"
proof -
  obtain rt where rt: "dm_runtimes sample_running sample_id = Some rt"
    using sample_turn unfolding sample_running_def by (auto split: option.splits)
  have "r \<in> set (db_tasks (task_db (sample_daemon\<lparr>dm_runtimes := [sample_id \<mapsto> rt]\<rparr>))) \<Longrightarrow> ID r = sample_id" for r
    by (simp add: sample_daemon_def waiting_task_def)
  then show ?thesis
    using rt Reconcile_twice [of "sample_daemon\<lparr>dm_runtimes := [sample_id \<mapsto> rt]\<rparr>" sample_outside] by auto
qed


text \<open>An interrupted attempt counts, but recovery does not look at the caps: whenever the recovery of a task
  succeeds, the task goes on waiting for another attempt at the time \<open>NextWake\<close> gives (or at once under
  \<open>resume_now\<close>), even if it has used up \<open>max_attempts\<close> and any exit of a child at this point would have made
  it fail.\<close>

theorem recovery_ignores_caps:
  assumes "recoverInterrupted G t cfg d = (Inr t', d')"
  shows "Status t' = WAITING \<and> TotalAttempts t' = TotalAttempts t \<and>
    (\<exists>now pol. buildPolicy (o_cfg G) cfg now = Inr pol \<and> NextWakeAt t' = Some
       (if r_OnInterrupt (c_Retry cfg) = ''resume_now'' then now
        else fst (NextWake (Scheduler_policy pol) (TotalAttempts t) None now (o_rng G) (w_rng (dm_world d)))))"
proof -
  obtain now d1 where n: "now_of G d = (now, d1)" by fastforce
  then have rng: "w_rng (dm_world d1) = w_rng (dm_world d)" by (auto simp: now_of_def)
  obtain pol where pol: "buildPolicy (o_cfg G) cfg now = Inr pol"
    using assms n by (auto simp: recoverInterrupted_def split: sum.splits)
  obtain nw d2 where w: "interrupted_wake G cfg pol t now d1 = (nw, d2)" by fastforce
  have "t' = interrupted_task now nw t"
    using assms n pol w by (auto simp: recoverInterrupted_def Let_def split: sum.splits prod.splits option.splits)
  moreover have "nw = (if r_OnInterrupt (c_Retry cfg) = ''resume_now'' then now
      else fst (NextWake (Scheduler_policy pol) (TotalAttempts t) None now (o_rng G) (w_rng (dm_world d))))"
    using w rng by (auto simp: interrupted_wake_def split: if_splits prod.splits)
  ultimately show ?thesis using pol by (intro conjI exI [of _ now] exI [of _ pol]) (simp_all add: interrupted_task_def)
qed

definition capped_config :: config where
  "capped_config = sample_config\<lparr>c_Retry := (c_Retry sample_config)\<lparr>r_MaxAttempts := 1, r_OnInterrupt := ''resume_now''\<rparr>\<rparr>"

theorem recovery_ignores_caps_witness:
  "\<exists>t' d'. recoverInterrupted sample_outside (interrupted_sample\<lparr>TotalAttempts := 1, CurrentAttempt := 1\<rparr>) capped_config
     interrupted_daemon = (Inr t', d') \<and> Status t' = WAITING \<and> TotalAttempts t' = 1 \<and>
   (\<exists>pol. buildPolicy (o_cfg sample_outside) capped_config 0 = Inr pol \<and>
     ExceededCap (Scheduler_policy pol) (TotalAttempts t') 0 0 0 \<noteq> CapNone)"
proof -
  let ?t = "interrupted_sample\<lparr>TotalAttempts := 1, CurrentAttempt := 1\<rparr>"
  have c: "c_Retry capped_config = (c_Retry Default)\<lparr>r_MaxAttempts := 1, r_OnInterrupt := ''resume_now''\<rparr>"
    "c_Availability capped_config = c_Availability Default" "c_ScanBytes capped_config = 65536"
    "n_OnStateChange (c_Notifications capped_config) = []"
    by (simp_all add: capped_config_def sample_config_def Default_def)
  have pol: "\<exists>pol. buildPolicy C capped_config now = Inr pol \<and> MaxAttempts (Scheduler_policy pol) = 1 \<and>
      Deadline (Scheduler_policy pol) = None \<and> MaxTotalWait (Scheduler_policy pol) = 72 * Hour" for C now
    by (simp add: buildPolicy_def c Default_def parse_dur_def parse_deadline_def sample_durations)
  have valid: "validate_errors (o_libs sample_outside) (o_cfg sample_outside) capped_config = []"
    using sample_valid by (auto simp: validate_errors_def capped_config_def one_of_def split: if_splits)
  have ok: "db_ok (task_db interrupted_daemon)" "ID ?t \<in> ID ` set (db_tasks (task_db interrupted_daemon))"
    using interrupted_daemon_ok(1) by (simp_all add: daemon_ok_def db_numbered_def interrupted_daemon_def)
  have "\<exists>t' d'. recoverInterrupted sample_outside ?t capped_config interrupted_daemon = (Inr t', d')"
    using recoverInterrupted_succeeds [OF valid _ ok interrupted_daemon_ok(6)] by (auto simp: sample_outside_def)
  then obtain t' d' where r: "recoverInterrupted sample_outside ?t capped_config interrupted_daemon = (Inr t', d')" by blast
  obtain p where p: "buildPolicy (o_cfg sample_outside) capped_config 0 = Inr p" "MaxAttempts (Scheduler_policy p) = 1"
    "Deadline (Scheduler_policy p) = None" using pol by blast
  then have "ExceededCap (Scheduler_policy p) 1 0 0 0 \<noteq> CapNone" by (simp add: ExceededCap_def)
  then show ?thesis using r p recovery_ignores_caps [OF r] by auto
qed


section \<open>The answers of the methods\<close>

lemma scanTask_Name: "scanTask r = Inr t \<Longrightarrow> Name t = Name r"
  by (auto simp: scanTask_def split: sum.splits)

lemma ListTasks_mem:
  assumes "ListTasks d = Inr ts"
  shows "t \<in> set ts \<Longrightarrow> \<exists>r \<in> set (db_tasks d). scanTask r = Inr t"
    and "r \<in> set (db_tasks d) \<Longrightarrow> \<exists>t \<in> set ts. scanTask r = Inr t"
proof -
  obtain rs where rs: "mset rs = mset (db_tasks d)" "list_all2 (\<lambda>r t. scanTask r = Inr t) rs ts"
    using ListTasks_rows [OF assms] by blast
  have "list_all2 (\<lambda>t r. scanTask r = Inr t) ts rs" using rs(2) by (simp add: list_all2_conv_all_nth)
  then show "r \<in> set (db_tasks d) \<Longrightarrow> \<exists>t \<in> set ts. scanTask r = Inr t"
    using mset_eq_setD [OF rs(1)] list_all2_mem by fastforce
  show "t \<in> set ts \<Longrightarrow> \<exists>r \<in> set (db_tasks d). scanTask r = Inr t"
    using mset_eq_setD [OF rs(1)] list_all2_mem [OF rs(2)] by fastforce
qed

lemma scan_error_other: "scanTask r = Inl e \<Longrightarrow> \<not> errors_Is (Wrap m e []) ErrNotFound"
  by (auto simp: scanTask_def timePtrFromDB_def timeFromDB_def split: sum.splits option.splits)

lemma resolveTask_cases:
  assumes "resolveTask sel d = Inr t"
  obtains (full_id) r where "task_row sel (task_db d) = Some r" "scanTask r = Inr t" "ID t = sel"
    | (selected) ts where "task_row sel (task_db d) = None" "ListTasks (task_db d) = Inr ts" "filter (selects sel) ts = [t]"
proof (cases "GetTask sel (task_db d)")
  case (Inr t0)
  then have "t0 = t" using assms by (simp add: resolveTask_def split: if_splits)
  then show ?thesis using full_id GetTask_Inr [OF Inr] scanTask_ID task_row_Some_ID by metis
next
  case (Inl e)
  then have e: "errors_Is e ErrNotFound" and rest: "sel \<noteq> []" using assms by (auto simp: resolveTask_def split: if_splits)
  have none: "task_row sel (task_db d) = None"
    using Inl e scan_error_other by (auto simp: GetTask_row split: option.splits sum.splits)
  obtain ts where ts: "ListTasks (task_db d) = Inr ts" using assms Inl e rest by (auto simp: resolveTask_def split: sum.splits)
  have "filter (selects sel) ts = [t]"
    using assms Inl e rest ts by (auto simp: resolveTask_def Let_def split: list.splits)
  then show ?thesis using selected none ts by blast
qed


lemma resolveTask_row:
  assumes "resolveTask sel d = Inr t" and "db_ok (task_db d)"
  shows "\<exists>r. task_row (ID t) (task_db d) = Some r \<and> scanTask r = Inr t"
  using assms(1)
proof (cases rule: resolveTask_cases)
  case (selected ts)
  then have "t \<in> set (filter (selects sel) ts)" by simp
  then have "t \<in> set ts" by simp
  then obtain r where r: "r \<in> set (db_tasks (task_db d))" "scanTask r = Inr t" using ListTasks_mem(1) selected(2) by blast
  then show ?thesis using task_row_mem assms(2) scanTask_ID [OF r(2)] by (auto simp: db_ok_def keys_ok_def)
qed auto

text \<open>C20: a selector never picks the wrong task: what \<open>resolveTask\<close> returns is read from the row of a task whose
  full identifier is the selector, or else of the only task, terminal ones included, whose name is the selector
  or whose identifier starts with it; and a full identifier always selects its own task, whatever names others
  bear.\<close>

theorem resolveTask_unique:
  assumes "db_ok (task_db d)"
  shows "(resolveTask sel d = Inr t \<longrightarrow> (\<exists>r. task_row (ID t) (task_db d) = Some r \<and> scanTask r = Inr t \<and>
      (ID r = sel \<or> selects sel t \<and> (\<forall>r' \<in> set (db_tasks (task_db d)).
          (Name r' = sel \<or> HasPrefix (ID r') sel) \<longrightarrow> r' = r)))) \<and>
    (\<forall>r \<in> set (db_tasks (task_db d)). ID r \<noteq> [] \<longrightarrow> scanTask r = Inr t \<longrightarrow> resolveTask (ID r) d = Inr t)"
proof (intro conjI impI ballI)
  have dist: "distinct (map ID (db_tasks (task_db d)))" using assms by (simp add: db_ok_def keys_ok_def)
  show "resolveTask (ID r) d = Inr t" if r: "r \<in> set (db_tasks (task_db d))" "ID r \<noteq> []" "scanTask r = Inr t" for r
    using task_row_mem [OF dist r(1)] r(2,3) by (simp add: resolveTask_def GetTask_row)
  assume res: "resolveTask sel d = Inr t"
  then obtain r where r: "task_row (ID t) (task_db d) = Some r" "scanTask r = Inr t" using resolveTask_row assms by blast
  have "ID r = sel \<or> selects sel t \<and> (\<forall>r' \<in> set (db_tasks (task_db d)).
      (Name r' = sel \<or> HasPrefix (ID r') sel) \<longrightarrow> r' = r)"
    using res
  proof (cases rule: resolveTask_cases)
    case (full_id r0)
    then show ?thesis using r scanTask_ID by fastforce
  next
    case (selected ts)
    then have "t \<in> set (filter (selects sel) ts)" by simp
    then have "selects sel t" by simp
    moreover have "r' = r" if r': "r' \<in> set (db_tasks (task_db d))" "Name r' = sel \<or> HasPrefix (ID r') sel" for r'
    proof -
      obtain t' where t': "t' \<in> set ts" "scanTask r' = Inr t'" using ListTasks_mem(2) selected(2) r'(1) by blast
      then have "selects sel t'" using r'(2) scanTask_ID scanTask_Name by (auto simp: selects_def)
      then have "t' \<in> set (filter (selects sel) ts)" using t'(1) by simp
      then have "t' = t" using selected(3) by simp
      then have "ID r' = ID t" using t'(2) scanTask_ID by metis
      then show ?thesis using task_row_mem [OF dist r'(1)] r(1) by simp
    qed
    ultimately show ?thesis by blast
  qed
  then show "\<exists>r. task_row (ID t) (task_db d) = Some r \<and> scanTask r = Inr t \<and>
      (ID r = sel \<or> selects sel t \<and> (\<forall>r' \<in> set (db_tasks (task_db d)).
          (Name r' = sel \<or> HasPrefix (ID r') sel) \<longrightarrow> r' = r))"
    using r by blast
qed

theorem resolveTask_unique_witness:
  "resolveTask sample_id sample_daemon = Inr (stored waiting_task)"
proof -
  have "db_ok (task_db sample_daemon)" using sample_ok(1) by (simp add: daemon_ok_def db_numbered_def)
  moreover have "row_of_task waiting_task \<in> set (db_tasks (task_db sample_daemon))" by (simp add: sample_daemon_def)
  moreover have "scanTask (row_of_task waiting_task) = Inr (stored waiting_task)"
    by (simp add: task_times_ok_def waiting_task_def sample_task_def year_ok_epoch)
  moreover have "ID (row_of_task waiting_task) = sample_id" "sample_id \<noteq> []"
    by (simp_all add: waiting_task_def sample_id_def)
  ultimately show ?thesis
    using resolveTask_unique [where d = sample_daemon and t = "stored waiting_task" and sel = sample_id] by auto
qed



definition faulty_outside :: outside where
  "faulty_outside = sample_outside\<lparr>o_fault := (\<lambda>_. BeginFails (Err ''disk is full''))\<rparr>"

definition faulty_daemon :: daemon where
  "faulty_daemon = snd (Reconcile faulty_outside sample_daemon)"

lemma sample_fault:
  "case dm_runtimes faulty_daemon sample_id of None \<Rightarrow> False
   | Some rt \<Rightarrow> rt_events rt = [EventStart] \<and> task_db faulty_daemon = task_db sample_daemon \<and>
      (case Handle (rt_deps rt) EventStart (rt_sup rt) (dm_world faulty_daemon) of (e, _, _) \<Rightarrow> e \<noteq> None)"
proof -
  have c: "c_Providers sample_config = [(''fake'', \<lparr>p_Binary = [], p_Model = [], p_ResumePrompt = [],
     p_Unattended = False, p_ExtraArgs = [], p_Script = ''/w/script''\<rparr>)]" "c_Rules sample_config = []"
     "a_Command (c_Availability sample_config) = []" "n_OnStateChange (c_Notifications sample_config) = []"
    by (simp_all add: sample_config_def Default_def)
  show ?thesis
    using sample_list by (simp add: faulty_outside_def faulty_daemon_def daemon_eval sup_eval db_eval sample_eval c)
qed



lemma create_commit_row:
  assumes "create_commit G (t, cfg, prov) d = (Inr i, d')"
  shows "task_row (ID t) (task_db d) = None \<and> task_row (ID t) (task_db d') = Some (row_of_task t) \<and>
    (\<forall>j. j \<noteq> ID t \<longrightarrow> task_row j (task_db d') = task_row j (task_db d))"
proof -
  let ?w = "dm_world d"
  obtain err db' where c: "CreateTask (o_fault G (w_step ?w)) t (w_db ?w) = (err, db')" by fastforce
  have "err = None" using assms c by (auto simp: create_commit_def Let_def split: option.splits)
  then have tx: "Tx_CreateTask t (task_db d) = Inr db'" using tx.run_cases [OF c [unfolded CreateTask_def]] by simp
  obtain r d2 where s: "startRuntime G t cfg prov (d\<lparr>dm_world := ?w\<lparr>w_db := db', w_step := Suc (w_step ?w)\<rparr>\<rparr>) = (r, d2)"
    by fastforce
  have "task_db d2 = db'" using s by (cases rule: startRuntime_cases) simp_all
  then have "task_db d' = db'" using assms c s \<open>err = None\<close>
    by (auto simp: create_commit_def Let_def split: option.splits)
  then show ?thesis using task_row_CreateTask [OF tx] tx by (auto simp: Tx_CreateTask_Inr task_row_None)
qed


lemma env_layer_silent: "(\<And>k. getenv k = []) \<Longrightarrow> env_layer C getenv fs c = Inr c"
proof (induction fs arbitrary: c)
  case (Cons f fs)
  then show ?case by (cases f) (simp add: Let_def)
qed simp

definition sample_request :: create_params where
  "sample_request = \<lparr>cp_Name = ''x'', cp_Provider = ''fake'', cp_Mode = [], cp_Cwd = ''/w'', cp_Prompt = ''p'', cp_Args = [],
     cp_SessionMode = [], cp_SessionRef = [], cp_Overrides = []\<rparr>"

lemma sample_create_config: "create_config sample_outside sample_request = Inr Default"
proof -
  have "0 \<le> fl (1 / 5)" "fl (1 / 5) \<le> 1" by code_simp+
  then have v: "validate_errors fake_libs plain_cfg_libs Default = []"
    by (simp add: validate_errors_def one_of_def validateDuration_def validateDeadline_def Default_def
        sample_durations not_less)
  have "Resolve plain_cfg_libs empty_fs \<lparr>o_GlobalPath = p, o_WorkDir = ''/w'', o_Getenv = (\<lambda>_. []), o_Overrides = []\<rparr> = Inr Default" for p
    by (simp add: Resolve_def file_layers_def mergeFile_def empty_fs_def project_layer_def findProjectFile_def
        find_up.simps env_layer_silent)
  then show ?thesis by (simp add: create_config_def sample_outside_def sample_request_def validate_def v)
qed

definition empty_daemon :: daemon where
  "empty_daemon = sample_daemon\<lparr>dm_world := sample_world\<lparr>w_db := empty_db\<rparr>\<rparr>"

lemma empty_daemon_ok: "daemon_ok empty_daemon"
  by (simp add: daemon_ok_def empty_daemon_def db_numbered_def task_row_def) (simp add: sample_daemon_def empty_db_def)

lemma sample_prepare:
  assumes "task_db d = empty_db"
  shows "\<exists>t d'. create_prepare sample_outside (Inr sample_request) d = (Inr (t, Default, fake (Inr ''/bin/defib'')), d') \<and>
    Name t = ''x'' \<and> ID t = Itoa (int (Suc (w_step (dm_world d)))) \<and> w_step (dm_world d') = w_step (dm_world d) + 3"
proof -
  have l: "ListTasks empty_db = Inr []" by (simp add: ListTasks_def empty_db_def)
  have "registry_Get (o_registry sample_outside) ''fake'' = Inr (fake (Inr ''/bin/defib''))"
    by (simp add: registry_Get_def sample_outside_def)
  moreover have "c_DefaultMode Default = ''headless''" by (simp add: Default_def)
  moreover have "cap_ClientSuppliedID (p_Capabilities (fake (Inr ''/bin/defib'')))"
    by (simp add: fake_def fake_Capabilities_def full_capabilities_def)
  ultimately have "case create_prepare sample_outside (Inr sample_request) d of (r, d') \<Rightarrow>
      w_step (dm_world d') = w_step (dm_world d) + 3 \<and> (case r of Inl e \<Rightarrow> False
       | Inr (t, c, p) \<Rightarrow> Name t = ''x'' \<and> ID t = Itoa (int (Suc (w_step (dm_world d)))) \<and> c = Default \<and>
           p = fake (Inr ''/bin/defib''))"
    using assms l by (simp add: create_prepare_def unmarshalParams_def sample_create_config) (simp add: sample_request_def
        non_empty_or_def create_session_def new_uuid_def now_of_def checkNameUnique_def sample_outside_def)
  then show ?thesis by (auto split: prod.splits sum.splits)
qed

lemma sample_commit:
  assumes "ID t \<notin> ID ` set (db_tasks (task_db d))"
  shows "\<exists>i d'. create_commit sample_outside (t, Default, fake (Inr ''/bin/defib'')) d = (Inr i, d')"
proof -
  have "\<exists>pol. buildPolicy C Default now = Inr pol" for C now
    by (simp add: buildPolicy_def Default_def parse_dur_def parse_deadline_def sample_durations)
  then obtain pol where "buildPolicy plain_cfg_libs Default now = Inr (pol now)" for now by metis
  then show ?thesis using assms sample_engine
    by (simp add: create_commit_def CreateTask_def UpdateTaskTx_def Tx_CreateTask_def sample_outside_def Let_def
        startRuntime_def now_of_def fake_def configRules_def) (simp add: Default_def)
qed


section \<open>Streams\<close>

text \<open>A subscription to one task delivers exactly the events of that task, in order, up to and including the
  first terminal one, and ends there; without a selector it delivers everything and never ends by itself.\<close>

theorem subscription_until_terminal:
  "handleSubscribe sel evs = (let mine = filter (\<lambda>ev. sel = [] \<or> te_TaskID ev = sel \<or> te_Name ev = sel) evs;
       before = takeWhile (\<lambda>ev. \<not> (sel \<noteq> [] \<and> Terminal (te_Status ev))) mine
     in (take (Suc (length before)) mine, before \<noteq> mine))"
proof (induction sel evs rule: handleSubscribe.induct)
  case (2 sel ev evs)
  then show ?case by (auto simp: Let_def split: prod.splits)
qed (simp add: Let_def)

lemma Split_lines:
  assumes "\<forall>l \<in> set ls. CHR 0x0A \<notin> set l"
  shows "Split (concat (map (\<lambda>l. l @ [CHR 0x0A]) ls)) (CHR 0x0A) = ls @ [[]]"
  using assms
proof (induction ls)
  case (Cons l ls)
  then show ?case
    using Split_append_sep [of l "CHR 0x0A" "concat (map (\<lambda>l. l @ [CHR 0x0A]) ls)"] Split_no_sep [of "CHR 0x0A" l]
    by simp
qed simp

lemma scan_lines_short: "\<forall>l \<in> set ls. length l < 1048576 \<Longrightarrow> scan_lines ls = (map drop_cr ls, None)"
  by (induction ls) auto

text \<open>A stored log comes back line by line: what a child wrote as lines, each ended by a line feed and
  shorter than a mebibyte, is sent as exactly these lines, in order, without their line ends (or the carriage
  return a terminal adds).\<close>

theorem stored_log_roundtrip:
  assumes "\<forall>l \<in> set ls. CHR 0x0A \<notin> set l \<and> length l < 1048575"
  shows "sendStoredLog (name, Inr (Some (concat (map (\<lambda>l. l @ [CHR 0x0A]) ls)))) = (map (\<lambda>l. (name, drop_cr l)) ls, None)"
proof -
  have "raw_lines (concat (map (\<lambda>l. l @ [CHR 0x0A]) ls)) = ls"
    using Split_lines [of ls] assms by (simp add: raw_lines_def)
  then show ?thesis using scan_lines_short [of ls] assms by (fastforce simp: sendStoredLog_def comp_def)
qed

theorem stored_log_roundtrip_witness:
  "sendStoredLog (''stdout'', Inr (Some (''ab'' @ [CHR 0x0D, CHR 0x0A] @ ''c'' @ [CHR 0x0A]))) =
     ([(''stdout'', ''ab''), (''stdout'', ''c'')], None)"
  using stored_log_roundtrip [of "[''ab'' @ [CHR 0x0D], ''c'']" "''stdout''"] by (simp add: drop_cr_def)

end
