(* ===== verification/CliProps.thy ===== *)
theory CliProps
  imports Cli DaemonProps
begin

text \<open>
  Properties that span the command line and the daemon: what \<open>defib start\<close> tells the user about the task that the
  daemon then creates from the same configuration.
\<close>

section \<open>Unattended runs are announced\<close>

lemma buildCreateParams_parts:
  assumes "buildCreateParams opts msg pass dflt = Inr p"
  shows "start_overrides opts dflt = Inr (cp_Overrides p) \<and> cp_Provider p = sf_Provider opts \<and> cp_Cwd p = sf_Cwd opts"
proof (cases "start_overrides opts dflt")
  case (Inr os)
  then show ?thesis using assms by (auto simp: buildCreateParams_def)
qed (use assms in \<open>simp add: buildCreateParams_def\<close>)

lemma start_request_parts:
  assumes "start_request X E g prompt getwd opts dash args = Inr (p, warned)"
  shows "warned = unattendedEffective X E g p \<and> start_overrides opts (resolveDefaultProvider X E g) = Inr (cp_Overrides p) \<and>
    cp_Provider p = sf_Provider opts"
proof -
  obtain msg where msg: "prompt = Inr msg" using assms by (cases prompt) (simp_all add: start_request_def)
  obtain cwd where cwd: "(if sf_Cwd opts = [] then getwd else Inr (sf_Cwd opts)) = Inr cwd"
    using assms msg by (cases "if sf_Cwd opts = [] then getwd else Inr (sf_Cwd opts)") (simp_all add: start_request_def)
  let ?b = "buildCreateParams (opts\<lparr>sf_Cwd := cwd\<rparr>) msg (passthroughArgs dash args) (resolveDefaultProvider X E g)"
  have b: "?b = Inr p" "warned = unattendedEffective X E g p"
    using assms msg cwd by (cases ?b; simp add: start_request_def)+
  have "provider_overrides (opts\<lparr>sf_Cwd := cwd\<rparr>) = provider_overrides opts" by (rule ext) (simp add: provider_overrides_def)
  moreover have "sf_Model (opts\<lparr>sf_Cwd := cwd\<rparr>) = sf_Model opts" "sf_Unattended (opts\<lparr>sf_Cwd := cwd\<rparr>) = sf_Unattended opts"
    "sf_Provider (opts\<lparr>sf_Cwd := cwd\<rparr>) = sf_Provider opts" "sf_MaxAttempts (opts\<lparr>sf_Cwd := cwd\<rparr>) = sf_MaxAttempts opts"
    "sf_Deadline (opts\<lparr>sf_Cwd := cwd\<rparr>) = sf_Deadline opts" by simp_all
  ultimately have "start_overrides (opts\<lparr>sf_Cwd := cwd\<rparr>) dflt = start_overrides opts dflt" for dflt
    by (simp only: start_overrides_def)
  then show ?thesis using buildCreateParams_parts [OF b(1)] b(2) by simp
qed

lemma create_prepare_parts:
  assumes "create_prepare G (Inr p) d = (Inr (t, cfg, prov), d')"
  shows "create_config G p = Inr cfg \<and> Provider t = non_empty_or (cp_Provider p) (c_DefaultProvider cfg)"
  using assms
  by (auto simp: create_prepare_def unmarshalParams_def Let_def split: sum.splits if_splits prod.splits option.splits)

text \<open>C15: \<open>defib start\<close> prints the unattended warning exactly when the agent will run with its approvals skipped:
  the client resolves the configuration for the new task as the daemon does, flags, project file and environment
  included (when both see the same files and environment and no \<open>--config\<close> was given).\<close>

theorem unattended_is_announced:
  assumes "start_request X E g prompt getwd opts dash args = Inr (p, warned)"
    and "create_prepare G (Inr p) d = (Inr (t, cfg, prov), d')"
    and "X = \<lparr>cc_libs = o_cfg G, cc_fs = o_fs G, cc_getenv = o_getenv G\<rparr>"
    and "g_configPath g = []" and "e_dirs E = Inr (o_dirs G)"
  shows "warned \<longleftrightarrow> unattended (task_spec_of cfg t)"
proof -
  obtain opt where r: "Resolve (o_cfg G) (o_fs G) opt = Inr cfg"
    "opt = \<lparr>o_GlobalPath = filepath_Join [dir_Config (o_dirs G), ''config.toml''], o_WorkDir = cp_Cwd p,
       o_Getenv = o_getenv G, o_Overrides = cp_Overrides p\<rparr>"
    using create_prepare_parts [OF assms(2)] by (auto simp: create_config_def split: sum.splits option.splits)
  have "unattendedEffective X E g p = p_Unattended (entry_of (Provider t) cfg)"
    using r create_prepare_parts [OF assms(2)] assms(3-5)
    by (simp add: unattendedEffective_def globalConfigPath_def client_Resolve_def)
  then show ?thesis
    using start_request_parts [OF assms(1)] by (simp add: unattended_def task_spec_of_def Let_def providerConfigMap_def)
qed

definition yolo_flags :: start_flags where
  "yolo_flags = \<lparr>sf_Name = ''x'', sf_Provider = ''fake'', sf_Mode = [], sf_Session = [], sf_Cwd = ''/w'', sf_Model = None,
     sf_Unattended = Some True, sf_MaxAttempts = None, sf_Deadline = None\<rparr>"
definition yolo_config :: config where
  "yolo_config = Default\<lparr>c_Providers := map (\<lambda>(n, e). (n, if n = ''fake'' then e\<lparr>p_Unattended := True\<rparr> else e)) (c_Providers Default)\<rparr>"
lemma yolo_resolve: "Resolve plain_cfg_libs empty_fs \<lparr>o_GlobalPath = q, o_WorkDir = ''/w'', o_Getenv = (\<lambda>_. []),
   o_Overrides = [(''providers.fake.unattended'', ''true'')]\<rparr> = Inr yolo_config"
proof -
  have pb: "ParseBool ''true'' = Some True" by code_simp
  show ?thesis
    by (simp add: Resolve_def file_layers_def mergeFile_def empty_fs_def project_layer_def findProjectFile_def
        find_up.simps env_layer_silent) (simp add: scalar_fields_def struct_fields_def entry_fields_def provider_field_def Default_def yolo_config_def set_field_def put_defs pb entry_of_def)
qed
lemma yolo_valid: "validate_errors fake_libs plain_cfg_libs yolo_config = []"
proof -
  have "0 \<le> fl (1 / 5)" "fl (1 / 5) \<le> 1" by code_simp+
  then show "validate_errors fake_libs plain_cfg_libs yolo_config = []"
    by (simp add: validate_errors_def one_of_def validateDuration_def validateDeadline_def yolo_config_def Default_def
        sample_durations not_less)
qed

definition yolo_view :: client_cfg where
  "yolo_view = \<lparr>cc_libs = o_cfg sample_outside, cc_fs = o_fs sample_outside, cc_getenv = o_getenv sample_outside\<rparr>"

definition yolo_params :: create_params where
  "yolo_params = \<lparr>cp_Name = ''x'', cp_Provider = ''fake'', cp_Mode = [], cp_Cwd = ''/w'', cp_Prompt = ''go'', cp_Args = [],
     cp_SessionMode = ''new'', cp_SessionRef = [], cp_Overrides = [(''providers.fake.unattended'', ''true'')]\<rparr>"

definition plain_options :: global_options where
  "plain_options = \<lparr>g_configPath = [], g_noAutostart = False, g_jsonOut = False, g_quiet = False\<rparr>"

lemma yolo_entry: "p_Unattended (entry_of ''fake'' yolo_config)"
  by (simp add: entry_of_def yolo_config_def Default_def)

lemma yolo_request:
  "start_request yolo_view sleeping_env plain_options (Inr ''go'') (Inr ''/'') yolo_flags (- 1) [] = Inr (yolo_params, True)"
proof -
  have b: "buildCreateParams (yolo_flags\<lparr>sf_Cwd := ''/w''\<rparr>) ''go'' [] dflt = Inr yolo_params" for dflt
    by (simp add: buildCreateParams_def start_overrides_def provider_overrides_def yolo_flags_def yolo_params_def FormatBool_def)
  have "unattendedEffective yolo_view sleeping_env plain_options yolo_params"
    using yolo_resolve yolo_entry
    by (simp add: unattendedEffective_def globalConfigPath_def plain_options_def sleeping_env_def client_Resolve_def
        yolo_view_def yolo_params_def sample_outside_def non_empty_or_def)
  moreover have "sf_Cwd yolo_flags = ''/w''" by (simp add: yolo_flags_def)
  ultimately show ?thesis using b by (simp add: start_request_def passthroughArgs_def)
qed

lemma yolo_prepare: "\<exists>t prov d'. create_prepare sample_outside (Inr yolo_params) empty_daemon = (Inr (t, yolo_config, prov), d')"
proof -
  have c: "create_config sample_outside yolo_params = Inr yolo_config"
    using yolo_resolve by (simp add: create_config_def sample_outside_def yolo_params_def validate_def yolo_valid)
  have "registry_Get (o_registry sample_outside) ''fake'' = Inr (fake (Inr ''/bin/defib''))"
    by (simp add: registry_Get_def sample_outside_def)
  moreover have "c_DefaultMode yolo_config = ''headless''" by (simp add: yolo_config_def Default_def)
  moreover have "cap_ClientSuppliedID (p_Capabilities (fake (Inr ''/bin/defib'')))"
    by (simp add: fake_def fake_Capabilities_def full_capabilities_def)
  moreover have "ListTasks (task_db empty_daemon) = Inr []" by (simp add: ListTasks_def empty_db_def empty_daemon_def)
  ultimately show ?thesis
    by (simp add: create_prepare_def unmarshalParams_def c) (simp add: yolo_params_def
        non_empty_or_def create_session_def new_uuid_def now_of_def checkNameUnique_def sample_outside_def)
qed

theorem unattended_is_announced_witness:
  "\<exists>t cfg prov d'. create_prepare sample_outside (Inr yolo_params) empty_daemon = (Inr (t, cfg, prov), d') \<and>
     start_request yolo_view sleeping_env plain_options (Inr ''go'') (Inr ''/'') yolo_flags (- 1) [] = Inr (yolo_params, True) \<and>
     unattended (task_spec_of cfg t)"
proof -
  obtain t prov d' where c: "create_prepare sample_outside (Inr yolo_params) empty_daemon = (Inr (t, yolo_config, prov), d')"
    using yolo_prepare by blast
  have "e_dirs sleeping_env = Inr (o_dirs sample_outside)" by (simp add: sleeping_env_def sample_outside_def)
  from unattended_is_announced [OF yolo_request c yolo_view_def _ this] have "unattended (task_spec_of yolo_config t)"
    by (simp add: plain_options_def)
  then show ?thesis using c yolo_request by blast
qed


section \<open>Provider flags and the project file\<close>

lemma override_frame:
  assumes "override_layer C fs ws c = Inr c'"
    and "\<And>f v c. f \<in> set fs \<Longrightarrow> fst f \<in> fst ` set ws \<Longrightarrow> P (snd (snd f) v c) = P c"
  shows "P c' = P c"
  using assms
proof (induction C fs ws c rule: override_layer.induct)
  case (2 C setters path raw os c)
  obtain acc where acc: "map_of setters path = Some acc" using "2.prems"(1) by (auto split: option.splits)
  obtain c1 where c1: "set_field C acc raw c = Inr c1" "override_layer C setters os c1 = Inr c'"
    using "2.prems"(1) acc by (auto split: sum.splits)
  obtain v where "c1 = snd acc v c" using c1(1) by (auto simp: set_field_def split: prod.splits sum.splits)
  moreover have "(path, acc) \<in> set setters" using acc by (rule map_of_SomeD)
  ultimately have "P c1 = P c" using "2.prems"(2) [of "(path, acc)"] by simp
  moreover have "P c' = P c1" using "2.IH" [OF acc c1] "2.prems"(2) by simp
  ultimately show ?case by simp
qed simp

lemma retry_put_frame:
  assumes "f \<in> set struct_fields" and "fst f \<in> {''retry.max_attempts'', ''retry.deadline''}"
  shows "c_DefaultProvider (snd (snd f) v c) = c_DefaultProvider c"
proof -
  have "list_all (\<lambda>f. fst f \<in> {''retry.max_attempts'', ''retry.deadline''} \<longrightarrow>
      c_DefaultProvider (snd (snd f) v c) = c_DefaultProvider c) struct_fields"
    by (simp add: struct_fields_def put_defs)
  then have "\<forall>f \<in> set struct_fields. fst f \<in> {''retry.max_attempts'', ''retry.deadline''} \<longrightarrow>
      c_DefaultProvider (snd (snd f) v c) = c_DefaultProvider c" by (simp only: list_all_iff)
  then show ?thesis using assms by blast
qed

lemma start_override_keys:
  assumes "start_overrides opts dflt = Inr os" and "sf_Provider opts = []" and "dflt = Inr q" and "k \<in> fst ` set os"
  shows "k \<in> {''retry.max_attempts'', ''retry.deadline'', ''providers.'' @ q @ ''.model'', ''providers.'' @ q @ ''.unattended''}"
  using assms
  by (auto simp: start_overrides_def provider_overrides_def Let_def split: if_splits option.splits)

lemma start_override_frame:
  assumes "f \<in> set (scalar_fields c0)" and "p \<noteq> q"
    and "fst f \<in> {''retry.max_attempts'', ''retry.deadline'', ''providers.'' @ q @ ''.model'', ''providers.'' @ q @ ''.unattended''}"
  shows "(c_DefaultProvider (snd (snd f) v c), entry_of p (snd (snd f) v c)) = (c_DefaultProvider c, entry_of p c)"
  using assms(1)
proof (cases rule: field_cases)
  case 1
  have "fst f \<in> {''retry.max_attempts'', ''retry.deadline''}" using assms(3) struct_keys_no_provider [OF 1] by blast
  then show ?thesis using retry_put_frame [OF 1] struct_put_providers [OF 1] by (simp add: entry_of_def)
next
  case (2 r e)
  have "fst f \<noteq> ''retry.max_attempts''" "fst f \<noteq> ''retry.deadline''" by (simp_all add: 2(3) provider_field_sel)
  then have "\<exists>tag. CHR ''.'' \<notin> set tag \<and> r @ ''.'' @ fst e = q @ ''.'' @ tag"
    using assms(3) by (auto simp: 2(3) provider_field_sel intro: exI [of _ "''model''"] exI [of _ "''unattended''"])
  then have "r = q" using last_point_unique entry_tags_no_point [OF 2(2)] by blast
  then show ?thesis using assms(2) by (simp add: 2(3) provider_field_sel)
qed

text \<open>Without \<open>--provider\<close>, the flags \<open>--model\<close> and \<open>--unattended\<close> go to the provider that the global
  configuration names. When the project file of the task's directory chooses another one, the task runs with that
  provider and both flags are silently without effect: its settings are those of a start without flags.\<close>

theorem flags_miss_project_provider:
  assumes "start_request X E g prompt getwd opts dash args = Inr (p, warned)" and "sf_Provider opts = []"
    and "resolveDefaultProvider X E g = Inr q"
    and "client_Resolve X path (cp_Cwd p) (cp_Overrides p) = Inr c" and "c_DefaultProvider c \<noteq> q"
  shows "\<exists>c0. client_Resolve X path (cp_Cwd p) [] = Inr c0 \<and> c_DefaultProvider c0 = c_DefaultProvider c \<and>
    entry_of (c_DefaultProvider c) c = entry_of (c_DefaultProvider c) c0"
proof -
  have os: "start_overrides opts (resolveDefaultProvider X E g) = Inr (cp_Overrides p)" using start_request_parts [OF assms(1)] by simp
  let ?opt = "\<lambda>os. \<lparr>o_GlobalPath = path, o_WorkDir = cp_Cwd p, o_Getenv = cc_getenv X, o_Overrides = os\<rparr>"
  have files: "file_layers (cc_libs X) (cc_fs X) (?opt os) = file_layers (cc_libs X) (cc_fs X) (?opt [])" for os
    by (simp only: file_layers_def options.select_convs)
  obtain b c0 where b: "file_layers (cc_libs X) (cc_fs X) (?opt []) = Inr b"
    "env_layer (cc_libs X) (cc_getenv X) (scalar_fields b) b = Inr c0"
    "override_layer (cc_libs X) (scalar_fields b) (cp_Overrides p) c0 = Inr c"
    using assms(4) files [of "cp_Overrides p"] by (auto simp: client_Resolve_def Resolve_def split: sum.splits)
  have "client_Resolve X path (cp_Cwd p) [] = Inr c0" using b by (simp add: client_Resolve_def Resolve_def)
  moreover have "(c_DefaultProvider c, entry_of (c_DefaultProvider c) c) = (c_DefaultProvider c0, entry_of (c_DefaultProvider c) c0)"
    by (rule override_frame [OF b(3)], rule start_override_frame [OF _ assms(5)], assumption)
      (rule start_override_keys [OF os assms(2,3)])
  ultimately show ?thesis unfolding prod.inject by metis
qed


definition project_view :: client_cfg where
  "project_view = \<lparr>cc_libs = plain_cfg_libs\<lparr>toml_Unmarshal := (\<lambda>_ c. Inr (c\<lparr>c_DefaultProvider := ''fake''\<rparr>))\<rparr>,
     cc_fs = \<lparr>fs_Read = (\<lambda>p. if p = ''/w/.defib.toml'' then Contents ''x'' else NoFile),
       fs_Stat = (\<lambda>p. if p = ''/w/.defib.toml'' then Exists else NotExist), fs_Abs = (\<lambda>_. Inr [''w''])\<rparr>,
     cc_getenv = (\<lambda>_. [])\<rparr>"

definition model_flags :: start_flags where
  "model_flags = \<lparr>sf_Name = ''x'', sf_Provider = [], sf_Mode = [], sf_Session = [], sf_Cwd = ''/w'', sf_Model = Some ''big'',
     sf_Unattended = None, sf_MaxAttempts = None, sf_Deadline = None\<rparr>"

definition model_params :: create_params where
  "model_params = \<lparr>cp_Name = ''x'', cp_Provider = [], cp_Mode = [], cp_Cwd = ''/w'', cp_Prompt = ''go'', cp_Args = [],
     cp_SessionMode = ''new'', cp_SessionRef = [], cp_Overrides = [(''providers.claude.model'', ''big'')]\<rparr>"

lemma project_default: "resolveDefaultProvider project_view sleeping_env plain_options = Inr ''claude''"
proof -
  have c: "filepath_Join [''/c'', ''config.toml''] = ''/c/config.toml''" by code_simp
  show ?thesis
    by (simp add: resolveDefaultProvider_def globalConfigPath_def plain_options_def sleeping_env_def client_Resolve_def c
        project_view_def Resolve_def file_layers_def mergeFile_def project_layer_def env_layer_silent)
      (simp add: Default_def)
qed

lemma project_resolve: "\<exists>c. client_Resolve project_view ''/c'' ''/w'' [(''providers.claude.model'', ''big'')] = Inr c \<and>
    c_DefaultProvider c = ''fake'' \<and> p_Model (entry_of ''fake'' c) = []"
proof -
  let ?c = "Default\<lparr>c_DefaultProvider := ''fake''\<rparr>"
  let ?o = "\<lparr>o_GlobalPath = ''/c'', o_WorkDir = ''/w'', o_Getenv = cc_getenv project_view,
     o_Overrides = [(''providers.claude.model'', ''big'')]\<rparr>"
  have s: "path_of [''.defib.toml'', ''w''] = ''/w/.defib.toml''" by (simp add: path_of_def)
  have f: "findProjectFile (cc_fs project_view) ''/w'' = Inr ''/w/.defib.toml''"
    by (simp add: findProjectFile_def project_view_def find_up.simps s)
  have m: "mergeFile (cc_libs project_view) (cc_fs project_view) Default ''/c'' = Inr Default"
    "mergeFile (cc_libs project_view) (cc_fs project_view) Default ''/w/.defib.toml'' = Inr ?c"
    by (simp_all add: mergeFile_def project_view_def parseInto_def)
  have l: "file_layers (cc_libs project_view) (cc_fs project_view) ?o = Inr ?c"
    by (simp add: file_layers_def m project_layer_def f)
  have e: "env_layer (cc_libs project_view) (cc_getenv project_view) (scalar_fields ?c) ?c = Inr ?c"
    by (simp add: project_view_def env_layer_silent)
  have "\<exists>c. override_layer (cc_libs project_view) (scalar_fields ?c) [(''providers.claude.model'', ''big'')] ?c = Inr c \<and>
      c_DefaultProvider c = ''fake'' \<and> p_Model (entry_of ''fake'' c) = []"
    by (simp add: scalar_fields_def struct_fields_def entry_fields_def provider_field_def Default_def set_field_def put_defs entry_of_def)
  then show ?thesis using l e by (simp add: client_Resolve_def Resolve_def)
qed

theorem flags_miss_project_provider_witness:
  "\<exists>p warned. start_request project_view sleeping_env plain_options (Inr ''go'') (Inr ''/'') model_flags (- 1) [] = Inr (p, warned) \<and>
     (''providers.claude.model'', ''big'') \<in> set (cp_Overrides p) \<and>
     (\<exists>c. client_Resolve project_view ''/c'' (cp_Cwd p) (cp_Overrides p) = Inr c \<and> c_DefaultProvider c = ''fake'' \<and>
        (\<exists>c0. client_Resolve project_view ''/c'' (cp_Cwd p) [] = Inr c0 \<and> entry_of ''fake'' c = entry_of ''fake'' c0))"
proof -
  have p: "model_params = \<lparr>cp_Name = ''x'', cp_Provider = [], cp_Mode = [], cp_Cwd = ''/w'', cp_Prompt = ''go'', cp_Args = [],
     cp_SessionMode = ''new'', cp_SessionRef = [], cp_Overrides = [(''providers.claude.model'', ''big'')]\<rparr>"
    by (rule model_params_def)
  have "buildCreateParams (model_flags\<lparr>sf_Cwd := ''/w''\<rparr>) ''go'' [] (Inr ''claude'') = Inr model_params"
    by (simp add: buildCreateParams_def start_overrides_def provider_overrides_def model_flags_def p)
  moreover have "sf_Cwd model_flags = ''/w''" by (simp add: model_flags_def)
  ultimately have r: "start_request project_view sleeping_env plain_options (Inr ''go'') (Inr ''/'') model_flags (- 1) [] =
      Inr (model_params, unattendedEffective project_view sleeping_env plain_options model_params)"
    by (simp add: start_request_def passthroughArgs_def project_default)
  have v: "cp_Cwd model_params = ''/w''" "cp_Overrides model_params = [(''providers.claude.model'', ''big'')]" by (simp_all add: p)
  obtain c where c: "client_Resolve project_view ''/c'' (cp_Cwd model_params) (cp_Overrides model_params) = Inr c"
    "c_DefaultProvider c = ''fake''" using project_resolve v by metis
  have "sf_Provider model_flags = []" by (simp add: model_flags_def)
  from flags_miss_project_provider [OF r this project_default c(1)] c(2) obtain c0 where
    "client_Resolve project_view ''/c'' (cp_Cwd model_params) [] = Inr c0" "entry_of ''fake'' c = entry_of ''fake'' c0" by auto
  then show ?thesis using r c v by (metis list.set_intros(1))
qed

end
