(* ===== verification/Service.thy ===== *)
theory Service
  imports Paths
begin

text \<open>
  Installing the daemon as a per-user service (\<open>internal/service\<close>): the unit and property list that are rendered,
  where they go, and the order of the steps of installing and removing with their failures. The control commands
  (\<open>systemctl\<close>, \<open>launchctl\<close>) and the file operations that can fail are parameters; the files are a map.
\<close>

type_synonym files = "string \<rightharpoonup> string"

record service_options =
  so_ExecPath :: string
  so_Start :: bool
  so_GOOS :: string
  so_Home :: "string result"
  so_Getenv :: "string \<Rightarrow> string"
  so_Run :: "string list \<Rightarrow> string \<times> go_error option"
  so_Write :: "go_error option \<times> (go_error \<times> string option) option \<times> go_error option"
  so_Remove :: "go_error option"

record service_result =
  sr_Manager :: string
  sr_Path :: string
  sr_Actions :: "string list"

section \<open>Rendering\<close>

abbreviation NL :: char where "NL \<equiv> CHR 0x0A"

definition text_of_lines :: "string list \<Rightarrow> string" where
  "text_of_lines ls = concat (map (\<lambda>l. l @ [NL]) ls)"

definition renderSystemdUnit :: "string \<Rightarrow> string" where
  "renderSystemdUnit exe = text_of_lines
     [''[Unit]'', ''Description=defib task supervisor daemon'', ''Documentation=https://github.com/ya222/defib-my-agent'',
      ''After=default.target'', [], ''[Service]'', ''Type=simple'', ''ExecStart='' @ exe @ '' daemon run'',
      ''Restart=on-failure'', ''RestartSec=5'', [], ''[Install]'', ''WantedBy=default.target'']"

definition LaunchdLabel :: string where
  "LaunchdLabel = ''com.github.ya222.defib''"

definition renderLaunchdPlist :: "string \<Rightarrow> string" where
  "renderLaunchdPlist exe = text_of_lines
     [''<?xml version=\"1.0\" encoding=\"UTF-8\"?>'',
      ''<!DOCTYPE plist PUBLIC \"-//Apple//DTD PLIST 1.0//EN\" \"http://www.apple.com/DTDs/PropertyList-1.0.dtd\">'',
      ''<plist version=\"1.0\">'', ''<dict>'', ''    <key>Label</key>'', ''    <string>com.github.ya222.defib</string>'',
      ''    <key>ProgramArguments</key>'', ''    <array>'', ''        <string>'' @ exe @ ''</string>'',
      ''        <string>daemon</string>'', ''        <string>run</string>'', ''    </array>'',
      ''    <key>RunAtLoad</key>'', ''    <true/>'', ''    <key>KeepAlive</key>'', ''    <dict>'',
      ''        <key>SuccessfulExit</key>'', ''        <false/>'', ''    </dict>'', ''</dict>'', ''</plist>'']"

section \<open>Files and commands\<close>

text \<open>\<open>filepath.Dir\<close>.\<close>

definition filepath_Dir :: "string \<Rightarrow> string" where
  "filepath_Dir p = Clean (rev (dropWhile (\<lambda>c. c \<noteq> CHR ''/'') (rev p)))"

text \<open>\<open>writeFileAtomic\<close>: a failed write may leave something of the temporary file, a failed rename all of it.\<close>

definition writeFileAtomic :: "service_options \<Rightarrow> string \<Rightarrow> string \<Rightarrow> files \<Rightarrow> go_error option \<times> files" where
  "writeFileAtomic P path data fs =
     (case so_Write P of
        (Some e, _, _) \<Rightarrow> (Some (Wrap (''create dir '' @ filepath_Dir path @ '': '') e []), fs)
      | (None, Some (e, left), _) \<Rightarrow> (Some (Wrap (''write '' @ path @ ''.tmp: '') e []), fs(path @ ''.tmp'' := left))
      | (None, None, Some e) \<Rightarrow> (Some (Wrap (''rename '' @ path @ ''.tmp to '' @ path @ '': '') e []), fs(path @ ''.tmp'' \<mapsto> data))
      | (None, None, None) \<Rightarrow> (None, fs(path @ ''.tmp'' := None, path \<mapsto> data)))"

definition runSystemctl :: "service_options \<Rightarrow> string list \<Rightarrow> string result" where
  "runSystemctl P args = (case so_Run P (''systemctl'' # args) of
     (out, Some e) \<Rightarrow> Inl (Wrap (''systemctl '' @ GoStrings.Join args '' '' @ '': '') e ('' ('' @ TrimSpace out @ '')''))
   | (out, None) \<Rightarrow> Inr (''systemctl '' @ GoStrings.Join args '' ''))"

definition bestEffort :: "service_options \<Rightarrow> string list \<Rightarrow> string" where
  "bestEffort P cmd = (let action = GoStrings.Join cmd '' '' in case so_Run P cmd of
     (out, Some e) \<Rightarrow> action @ '' (failed: '' @ err_text e @ '': '' @ TrimSpace out @ '')''
   | (out, None) \<Rightarrow> action)"

text \<open>Removing: a file that is not there is no error.\<close>

definition remove_file :: "service_options \<Rightarrow> string \<Rightarrow> files \<Rightarrow> go_error option \<times> files" where
  "remove_file P path fs = (if fs path = None then (None, fs)
     else (case so_Remove P of Some e \<Rightarrow> (Some e, fs) | None \<Rightarrow> (None, fs(path := None))))"

section \<open>The managers\<close>

definition systemdUnitPath :: "service_options \<Rightarrow> string result" where
  "systemdUnitPath P =
     (case (if so_Getenv P ''XDG_CONFIG_HOME'' \<noteq> [] then Inr (so_Getenv P ''XDG_CONFIG_HOME'')
        else (case so_Home P of Inl e \<Rightarrow> Inl (Wrap ''resolve home dir: '' e []) | Inr home \<Rightarrow> Inr (filepath_Join [home, ''.config'']))) of
        Inl e \<Rightarrow> Inl e
      | Inr dir \<Rightarrow> Inr (filepath_Join [dir, ''systemd'', ''user'', ''defib.service'']))"

definition launchdPath :: "service_options \<Rightarrow> string result" where
  "launchdPath P = (case so_Home P of Inl e \<Rightarrow> Inl (Wrap ''resolve home dir: '' e [])
     | Inr home \<Rightarrow> Inr (filepath_Join [home, ''Library'', ''LaunchAgents'', LaunchdLabel @ ''.plist'']))"

datatype manager = Systemd string | Launchd string

definition resolveManager :: "service_options \<Rightarrow> manager result" where
  "resolveManager P =
     (if so_GOOS P \<notin> {''linux'', ''darwin''} then Inl (Err (''service: unsupported GOOS '' @ Quote (so_GOOS P)))
      else if so_ExecPath P = [] \<or> \<not> HasPrefix (so_ExecPath P) ''/'' then Inl (Err ''service: ExecPath must be an absolute path'')
      else if so_GOOS P = ''linux'' then map_sum id Systemd (systemdUnitPath P) else map_sum id Launchd (launchdPath P))"

definition systemd_install :: "service_options \<Rightarrow> string \<Rightarrow> files \<Rightarrow> service_result result \<times> files" where
  "systemd_install P path fs0 =
     (case writeFileAtomic P path (renderSystemdUnit (so_ExecPath P)) fs0 of
        (Some e, fs) \<Rightarrow> (Inl (Wrap ''write systemd unit: '' e []), fs)
      | (None, fs) \<Rightarrow> (case runSystemctl P [''--user'', ''daemon-reload''] of
          Inl e \<Rightarrow> (Inl e, fs)
        | Inr a \<Rightarrow> (case runSystemctl P (if so_Start P then [''--user'', ''enable'', ''--now'', ''defib.service'']
              else [''--user'', ''enable'', ''defib.service'']) of
            Inl e \<Rightarrow> (Inl e, fs)
          | Inr b \<Rightarrow> (Inr \<lparr>sr_Manager = ''systemd'', sr_Path = path, sr_Actions = [a, b]\<rparr>, fs))))"

definition launchd_install :: "service_options \<Rightarrow> string \<Rightarrow> files \<Rightarrow> service_result result \<times> files" where
  "launchd_install P path fs0 =
     (case writeFileAtomic P path (renderLaunchdPlist (so_ExecPath P)) fs0 of
        (Some e, fs) \<Rightarrow> (Inl (Wrap ''write launchd plist: '' e []), fs)
      | (None, fs) \<Rightarrow> (case so_Run P [''launchctl'', ''load'', ''-w'', path] of
          (out, Some e) \<Rightarrow> (Inl (Wrap (''launchctl load -w '' @ path @ '': '') e ('' ('' @ TrimSpace out @ '')'')), fs)
        | (out, None) \<Rightarrow> (Inr \<lparr>sr_Manager = ''launchd'', sr_Path = path, sr_Actions = [''launchctl load -w '' @ path]\<rparr>, fs)))"

definition systemd_uninstall :: "service_options \<Rightarrow> string \<Rightarrow> files \<Rightarrow> service_result result \<times> files" where
  "systemd_uninstall P path fs0 =
     (let a = bestEffort P [''systemctl'', ''--user'', ''disable'', ''--now'', ''defib.service''] in
      case remove_file P path fs0 of
        (Some e, fs) \<Rightarrow> (Inl (Wrap (''remove systemd unit '' @ path @ '': '') e []), fs)
      | (None, fs) \<Rightarrow> (Inr \<lparr>sr_Manager = ''systemd'', sr_Path = path,
          sr_Actions = [a, bestEffort P [''systemctl'', ''--user'', ''daemon-reload'']]\<rparr>, fs))"

definition launchd_uninstall :: "service_options \<Rightarrow> string \<Rightarrow> files \<Rightarrow> service_result result \<times> files" where
  "launchd_uninstall P path fs0 =
     (let a = bestEffort P [''launchctl'', ''unload'', ''-w'', path] in
      case remove_file P path fs0 of
        (Some e, fs) \<Rightarrow> (Inl (Wrap (''remove launchd plist '' @ path @ '': '') e []), fs)
      | (None, fs) \<Rightarrow> (Inr \<lparr>sr_Manager = ''launchd'', sr_Path = path, sr_Actions = [a]\<rparr>, fs))"

definition Install :: "service_options \<Rightarrow> files \<Rightarrow> service_result result \<times> files" where
  "Install P fs = (case resolveManager P of Inl e \<Rightarrow> (Inl e, fs)
     | Inr (Systemd path) \<Rightarrow> systemd_install P path fs | Inr (Launchd path) \<Rightarrow> launchd_install P path fs)"

definition Uninstall :: "service_options \<Rightarrow> files \<Rightarrow> service_result result \<times> files" where
  "Uninstall P fs = (case resolveManager P of Inl e \<Rightarrow> (Inl e, fs)
     | Inr (Systemd path) \<Rightarrow> systemd_uninstall P path fs | Inr (Launchd path) \<Rightarrow> launchd_uninstall P path fs)"

text \<open>\<open>Status\<close>: the manager, the path and whether the file is there.\<close>

definition service_Status :: "service_options \<Rightarrow> files \<Rightarrow> (string \<times> string \<times> bool) result" where
  "service_Status P fs = (case resolveManager P of Inl e \<Rightarrow> Inl e
     | Inr (Systemd path) \<Rightarrow> Inr (''systemd'', path, fs path \<noteq> None)
     | Inr (Launchd path) \<Rightarrow> Inr (''launchd'', path, fs path \<noteq> None))"


section \<open>Installing and removing\<close>

lemma append_tmp_neq [simp]: "path @ ''.tmp'' \<noteq> path" "path \<noteq> path @ ''.tmp''"
  by simp_all

definition rendered :: "service_options \<Rightarrow> string" where
  "rendered P = (if so_GOOS P = ''linux'' then renderSystemdUnit (so_ExecPath P) else renderLaunchdPlist (so_ExecPath P))"

lemma resolveManager_cases:
  assumes "resolveManager P = Inr m"
  obtains path where "m = Systemd path" "so_GOOS P = ''linux''" | path where "m = Launchd path" "so_GOOS P = ''darwin''"
  using assms by (auto simp: resolveManager_def map_sum_def split: if_splits sum.splits)

lemma writeFileAtomic_done: "writeFileAtomic P path data fs = (None, fs') \<Longrightarrow> fs' = fs(path @ ''.tmp'' := None, path \<mapsto> data)"
  by (auto simp: writeFileAtomic_def split: prod.splits option.splits)

lemma remove_file_done: "remove_file P path fs = (None, fs') \<Longrightarrow> fs' = fs(path := None)"
  by (auto simp: remove_file_def split: if_splits option.splits)

text \<open>The contract of \<open>osManager\<close>: a successful installation leaves the complete file at the manager's path and no temporary
  one, a successful removal takes the file away, and the status says whether it is there. It gives the round
  trip, and that installing again or removing again changes nothing.\<close>

locale service_manager =
  fixes install :: "files \<Rightarrow> service_result result \<times> files"
    and uninstall :: "files \<Rightarrow> service_result result \<times> files"
    and installed :: "files \<Rightarrow> bool"
    and path :: string
    and content :: string
  assumes install_done: "install fs = (Inr r, fs') \<Longrightarrow> sr_Path r = path \<and> fs' = fs(path @ ''.tmp'' := None, path \<mapsto> content)"
    and uninstall_done: "uninstall fs = (Inr r, fs') \<Longrightarrow> sr_Path r = path \<and> fs' = fs(path := None)"
    and installed_iff: "installed fs \<longleftrightarrow> fs path \<noteq> None"
begin

lemma roundtrip:
  assumes "install fs = (Inr r, fs1)" and "uninstall fs1 = (Inr r', fs2)"
  shows "fs1 path = Some content \<and> installed fs1 \<and> fs2 = fs(path @ ''.tmp'' := None, path := None) \<and> \<not> installed fs2"
  using install_done [OF assms(1)] uninstall_done [OF assms(2)] by (auto simp: installed_iff)

lemma install_again:
  assumes "install fs = (Inr r, fs1)" and "install fs1 = (Inr r', fs2)"
  shows "fs2 = fs1"
  using install_done [OF assms(1)] install_done [OF assms(2)] by (simp add: fun_upd_twist)

lemma uninstall_again:
  assumes "uninstall fs = (Inr r, fs1)" and "uninstall fs1 = (Inr r', fs2)"
  shows "fs2 = fs1"
  using uninstall_done [OF assms(1)] uninstall_done [OF assms(2)] by simp

end

interpretation systemd: service_manager "systemd_install P path" "systemd_uninstall P path" "\<lambda>fs. fs path \<noteq> None" path
    "renderSystemdUnit (so_ExecPath P)" for P path
proof unfold_locales
  fix fs r fs'
  obtain e fs1 where w: "writeFileAtomic P path (renderSystemdUnit (so_ExecPath P)) fs = (e, fs1)" by fastforce
  show "systemd_install P path fs = (Inr r, fs') \<Longrightarrow>
      sr_Path r = path \<and> fs' = fs(path @ ''.tmp'' := None, path \<mapsto> renderSystemdUnit (so_ExecPath P))"
    using w writeFileAtomic_done by (auto simp: systemd_install_def split: option.splits sum.splits)
  obtain e fs1 where w: "remove_file P path fs = (e, fs1)" by fastforce
  show "systemd_uninstall P path fs = (Inr r, fs') \<Longrightarrow> sr_Path r = path \<and> fs' = fs(path := None)"
    using w remove_file_done by (auto simp: systemd_uninstall_def Let_def split: option.splits)
qed simp

interpretation launchd: service_manager "launchd_install P path" "launchd_uninstall P path" "\<lambda>fs. fs path \<noteq> None" path
    "renderLaunchdPlist (so_ExecPath P)" for P path
proof unfold_locales
  fix fs r fs'
  obtain e fs1 where w: "writeFileAtomic P path (renderLaunchdPlist (so_ExecPath P)) fs = (e, fs1)" by fastforce
  show "launchd_install P path fs = (Inr r, fs') \<Longrightarrow>
      sr_Path r = path \<and> fs' = fs(path @ ''.tmp'' := None, path \<mapsto> renderLaunchdPlist (so_ExecPath P))"
    using w writeFileAtomic_done by (auto simp: launchd_install_def split: option.splits prod.splits)
  obtain e fs1 where w: "remove_file P path fs = (e, fs1)" by fastforce
  show "launchd_uninstall P path fs = (Inr r, fs') \<Longrightarrow> sr_Path r = path \<and> fs' = fs(path := None)"
    using w remove_file_done by (auto simp: launchd_uninstall_def Let_def split: option.splits)
qed simp


definition linux_service :: service_options where
  "linux_service = \<lparr>so_ExecPath = ''/bin/defib'', so_Start = True, so_GOOS = ''linux'', so_Home = Inr ''/h'', so_Getenv = (\<lambda>_. []),
     so_Run = (\<lambda>_. ([], None)), so_Write = (None, None, None), so_Remove = None\<rparr>"


end
