(* ===== verification/Server.thy ===== *)
theory Server
  imports Ipc "HOL-Library.Sublist"
begin

text \<open>
  The running server (\<open>Serve\<close> and the goroutines of \<open>serveConn\<close> in \<open>internal/ipc/server.go\<close>) and the main
  function around it (\<open>runDaemon\<close> of \<open>cmd/defib/main.go\<close>) as step relations: connections come, are served
  side by side and go in any interleaving, the handlers send and end whenever they like, and cancelling the
  context closes the listener and the connections at some later time.
\<close>

section \<open>The client's end\<close>

text \<open>\<open>Dial\<close>, and \<open>send\<close> on the parameters' text (or the error of marshalling them), the fresh identifier and the
  outcome of the write.\<close>

definition Dial :: "string \<Rightarrow> go_error option \<Rightarrow> unit result" where
  "Dial path answer = (case answer of Some e \<Rightarrow> Inl (Wrap (''ipc: dial '' @ Quote path @ '': '') e []) | None \<Rightarrow> Inr ())"

definition client_send :: "string \<Rightarrow> string result option \<Rightarrow> string \<Rightarrow> go_error option \<Rightarrow> request result" where
  "client_send method params i answer = (case (case params of None \<Rightarrow> Inr [] | Some p \<Rightarrow> p) of
     Inl e \<Rightarrow> Inl (Wrap ''ipc: marshal params: '' e [])
   | Inr raw \<Rightarrow> (case answer of Some e \<Rightarrow> Inl (Wrap ''ipc: write request: '' e [])
       | None \<Rightarrow> Inr \<lparr>req_ID = i, req_Method = method, req_Params = raw\<rparr>))"

section \<open>A connection\<close>

datatype conn_phase = Reading | Running_handler request | Gone

text \<open>A connection holds the lines that arrived and are not read, whether writing to it fails, and what its goroutine
  does. What reached the peer is \<open>cn_out\<close>; the lines read and the envelopes encoded so far are its history.\<close>

record conn =
  cn_lines :: "string list"
  cn_broken :: bool
  cn_phase :: conn_phase
  cn_out :: "response list"
  cn_read :: "string list"
  cn_sent :: "response list"

definition new_conn :: conn where
  "new_conn = \<lparr>cn_lines = [], cn_broken = False, cn_phase = Reading, cn_out = [], cn_read = [], cn_sent = []\<rparr>"

text \<open>\<open>Stream.encode\<close>: an envelope for a connection that is closed is lost; the server ignores the error.\<close>

definition encode_to :: "response \<Rightarrow> conn \<Rightarrow> conn" where
  "encode_to r c = c\<lparr>cn_sent := cn_sent c @ [r], cn_out := (if cn_broken c then cn_out c else cn_out c @ [r])\<rparr>"

text \<open>The next line read.\<close>

definition read_line :: "string \<Rightarrow> string list \<Rightarrow> conn \<Rightarrow> conn" where
  "read_line l ls c = c\<lparr>cn_lines := ls, cn_read := cn_read c @ [l]\<rparr>"

text \<open>Steps of a connection. \<open>known\<close> are the registered methods. The reader may go on with lines it has
  buffered after the connection is closed; it leaves at the end of the input, on an error of the connection or
  on a line that is too long.\<close>

inductive conn_step :: "string set \<Rightarrow> (string \<Rightarrow> request result) \<Rightarrow> bool \<Rightarrow> conn \<Rightarrow> conn \<Rightarrow> bool"
  for known decode canceled where
  arrive: "conn_step known decode canceled c (c\<lparr>cn_lines := cn_lines c @ [l]\<rparr>)"
| hangup: "conn_step known decode canceled c (c\<lparr>cn_broken := True\<rparr>)"
| closed_by_watcher: "canceled \<Longrightarrow> cn_phase c \<noteq> Gone \<Longrightarrow> conn_step known decode canceled c (c\<lparr>cn_broken := True\<rparr>)"
| malformed: "cn_phase c = Reading \<Longrightarrow> cn_lines c = l # ls \<Longrightarrow> decode l = Inl err \<Longrightarrow>
    conn_step known decode canceled c
      (encode_to (error_response [] (CodeInvalidParams, ''malformed request: '' @ err_text err)) (read_line l ls c))"
| unknown_method: "cn_phase c = Reading \<Longrightarrow> cn_lines c = l # ls \<Longrightarrow> decode l = Inr req \<Longrightarrow> req_Method req \<notin> known \<Longrightarrow>
    conn_step known decode canceled c
      (encode_to (error_response (req_ID req) (CodeNotFound, ''unknown method '' @ Quote (req_Method req))) (read_line l ls c))"
| dispatch: "cn_phase c = Reading \<Longrightarrow> cn_lines c = l # ls \<Longrightarrow> decode l = Inr req \<Longrightarrow> req_Method req \<in> known \<Longrightarrow>
    conn_step known decode canceled c ((read_line l ls c)\<lparr>cn_phase := Running_handler req\<rparr>)"
| chunk: "cn_phase c = Running_handler req \<Longrightarrow> conn_step known decode canceled c (encode_to (stream_response (req_ID req) ev) c)"
| finish_handler: "cn_phase c = Running_handler req \<Longrightarrow>
    conn_step known decode canceled c ((encode_to (terminal_response (req_ID req) e) c)\<lparr>cn_phase := Reading\<rparr>)"
| leave: "cn_phase c = Reading \<Longrightarrow> conn_step known decode canceled c (c\<lparr>cn_phase := Gone, cn_broken := True\<rparr>)"

section \<open>The server\<close>

record server =
  sv_canceled :: bool
  sv_listening :: bool
  sv_result :: "go_error option option"
  sv_conns :: "conn list"

definition new_server :: server where
  "new_server = \<lparr>sv_canceled = False, sv_listening = True, sv_result = None, sv_conns = []\<rparr>"

text \<open>What \<open>Serve\<close> returns when accepting fails with \<open>e\<close>.\<close>

definition end_serve :: "go_error \<Rightarrow> server \<Rightarrow> server" where
  "end_serve e s = s\<lparr>sv_result := Some (if sv_canceled s then None else Some (Wrap ''ipc: accept: '' e []))\<rparr>"

text \<open>The loop of \<open>Serve\<close>, its goroutine that closes the listener, and the goroutines of the connections. Accepting
  fails for a reason of its own or because the listener is closed.\<close>

inductive server_step :: "string set \<Rightarrow> (string \<Rightarrow> request result) \<Rightarrow> server \<Rightarrow> server \<Rightarrow> bool" for known decode where
  accept: "sv_result s = None \<Longrightarrow> sv_listening s \<Longrightarrow> server_step known decode s (s\<lparr>sv_conns := sv_conns s @ [new_conn]\<rparr>)"
| accept_fails: "sv_result s = None \<Longrightarrow> server_step known decode s (end_serve e s)"
| close_listener: "sv_canceled s \<Longrightarrow> server_step known decode s (s\<lparr>sv_listening := False\<rparr>)"
| on_conn: "i < length (sv_conns s) \<Longrightarrow> conn_step known decode (sv_canceled s) (sv_conns s ! i) c \<Longrightarrow>
    server_step known decode s (s\<lparr>sv_conns := (sv_conns s)[i := c]\<rparr>)"

section \<open>The main function\<close>

text \<open>Where \<open>runDaemon\<close> is: in its \<open>select\<close>; with a shutdown request in hand, before it has stopped the children and
  cancelled; waiting for \<open>Serve\<close>; closing the daemon; or returned.\<close>

datatype main_phase = Selecting | Stopping bool | Awaiting_serve | Closing_daemon "go_error option" | Returned "go_error option"

record process_state =
  ps_server :: server
  ps_shutdown :: "bool option"
  ps_signal :: bool
  ps_phase :: main_phase

definition started :: process_state where
  "started = \<lparr>ps_server = new_server, ps_shutdown = None, ps_signal = False, ps_phase = Selecting\<rparr>"

abbreviation cancel_server :: "process_state \<Rightarrow> process_state" where
  "cancel_server p \<equiv> p\<lparr>ps_server := (ps_server p)\<lparr>sv_canceled := True\<rparr>\<rparr>"

text \<open>A signal cancels the context of the server as well. The handler of \<open>daemon.shutdown\<close> leaves its parameter in
  the channel unless one is there. Closing the daemon is one step, taken when \<open>Close\<close> has returned.\<close>

inductive main_moves :: "process_state \<Rightarrow> process_state \<Rightarrow> bool" where
  take_shutdown: "ps_phase p = Selecting \<Longrightarrow> ps_shutdown p = Some b \<Longrightarrow>
    main_moves p (p\<lparr>ps_phase := Stopping b, ps_shutdown := None\<rparr>)"
| stop_and_cancel: "ps_phase p = Stopping b \<Longrightarrow> main_moves p ((cancel_server p)\<lparr>ps_phase := Awaiting_serve\<rparr>)"
| take_signal: "ps_phase p = Selecting \<Longrightarrow> ps_signal p \<Longrightarrow> main_moves p ((cancel_server p)\<lparr>ps_phase := Awaiting_serve\<rparr>)"
| take_serve_end: "ps_phase p = Selecting \<Longrightarrow> sv_result (ps_server p) = Some e \<Longrightarrow>
    main_moves p ((cancel_server p)\<lparr>ps_phase := Closing_daemon e\<rparr>)"
| serve_is_done: "ps_phase p = Awaiting_serve \<Longrightarrow> sv_result (ps_server p) = Some e \<Longrightarrow>
    main_moves p (p\<lparr>ps_phase := Closing_daemon None\<rparr>)"
| daemon_closed: "ps_phase p = Closing_daemon e \<Longrightarrow> main_moves p (p\<lparr>ps_phase := Returned e\<rparr>)"

inductive process_step :: "string set \<Rightarrow> (string \<Rightarrow> request result) \<Rightarrow> process_state \<Rightarrow> process_state \<Rightarrow> bool" for known decode where
  serving: "server_step known decode (ps_server p) s \<Longrightarrow> (\<forall>e. ps_phase p \<noteq> Returned e) \<Longrightarrow>
    process_step known decode p (p\<lparr>ps_server := s\<rparr>)"
| request_shutdown: "c \<in> set (sv_conns (ps_server p)) \<Longrightarrow> cn_phase c = Running_handler req \<Longrightarrow>
    req_Method req = ''daemon.shutdown'' \<Longrightarrow> (\<forall>e. ps_phase p \<noteq> Returned e) \<Longrightarrow>
    process_step known decode p (p\<lparr>ps_shutdown := (if ps_shutdown p = None then Some b else ps_shutdown p)\<rparr>)"
| signal: "(\<forall>e. ps_phase p \<noteq> Returned e) \<Longrightarrow> process_step known decode p ((cancel_server p)\<lparr>ps_signal := True\<rparr>)"
| main: "main_moves p q \<Longrightarrow> process_step known decode p q"

abbreviation process_reaches :: "string set \<Rightarrow> (string \<Rightarrow> request result) \<Rightarrow> process_state \<Rightarrow> process_state \<Rightarrow> bool" where
  "process_reaches known decode \<equiv> (process_step known decode)\<^sup>*\<^sup>*"


section \<open>Every connection is answered in order\<close>

text \<open>What a connection has been sent: the complete answers of the lines read before, and the chunks so far of the
  request whose handler runs.\<close>

definition answered :: "(string \<Rightarrow> request result) \<Rightarrow> string list \<Rightarrow> response list \<Rightarrow> bool" where
  "answered decode ls rs \<longleftrightarrow> (\<exists>groups. rs = concat groups \<and> list_all2 (\<lambda>l. answers (line_id decode l)) ls groups)"

definition conn_log :: "(string \<Rightarrow> request result) \<Rightarrow> conn \<Rightarrow> bool" where
  "conn_log decode c \<longleftrightarrow> (case cn_phase c of
     Running_handler req \<Rightarrow> (\<exists>ls l rs chunks. cn_read c = ls @ [l] \<and> decode l = Inr req \<and> answered decode ls rs \<and>
       cn_sent c = rs @ map (stream_response (req_ID req)) chunks)
   | _ \<Rightarrow> answered decode (cn_read c) (cn_sent c))"

definition conn_delivery :: "conn \<Rightarrow> bool" where
  "conn_delivery c \<longleftrightarrow> prefix (cn_out c) (cn_sent c) \<and> (cn_broken c \<or> cn_out c = cn_sent c)"

lemmas conn_defs = encode_to_def read_line_def new_conn_def

lemma answered_Nil [simp]: "answered decode [] []"
  by (simp add: answered_def)

lemma answered_snoc: "answered decode ls rs \<Longrightarrow> answers (line_id decode l) g \<Longrightarrow> answered decode (ls @ [l]) (rs @ g)"
  unfolding answered_def by (elim exE conjE, rule_tac x = "groups @ [g]" in exI) (simp add: list_all2_appendI)

lemma answers_terminal:
  "terminal t \<Longrightarrow> resp_ID t = i \<Longrightarrow> (resp_OK t \<longleftrightarrow> resp_Error t = None) \<Longrightarrow> answers i (map (stream_response i) evs @ [t])"
  by (auto simp: answers_def)

lemma answers_error: "answers i [error_response i e]"
  using answers_terminal [of "error_response i e" i "[]"] by (simp add: terminal_def response_defs)

lemma conn_step_delivery: "conn_step known decode b c c' \<Longrightarrow> conn_delivery c \<Longrightarrow> conn_delivery c'"
  by (induction rule: conn_step.induct) (auto simp: conn_delivery_def conn_defs)

lemma conn_log_cong:
  "cn_phase c = cn_phase d \<Longrightarrow> cn_read c = cn_read d \<Longrightarrow> cn_sent c = cn_sent d \<Longrightarrow> conn_log decode c \<Longrightarrow> conn_log decode d"
  by (cases "cn_phase d") (simp_all add: conn_log_def)

lemma conn_step_log:
  assumes "conn_step known decode b c c'" and "conn_log decode c"
  shows "conn_log decode c'"
  using assms(1)
proof (cases rule: conn_step.cases)
  case (malformed l ls err)
  then have "answered decode (cn_read c) (cn_sent c)" "line_id decode l = []" using assms(2)
    by (simp_all add: conn_log_def line_id_def)
  then show ?thesis unfolding malformed(1) using malformed(2) answered_snoc answers_error by (simp add: conn_log_def conn_defs)
next
  case (unknown_method l ls req)
  then have "answered decode (cn_read c) (cn_sent c)" "line_id decode l = req_ID req" using assms(2)
    by (simp_all add: conn_log_def line_id_def)
  then show ?thesis unfolding unknown_method(1) using unknown_method(2) answered_snoc answers_error
    by (simp add: conn_log_def conn_defs)
next
  case (dispatch l ls req)
  then show ?thesis using assms(2) by (auto simp: conn_log_def conn_defs intro: exI [of _ "[]"])
next
  case (chunk req ev)
  then obtain ls l rs chunks where "cn_read c = ls @ [l]" "decode l = Inr req" "answered decode ls rs"
    "cn_sent c = rs @ map (stream_response (req_ID req)) chunks" using assms(2) by (auto simp: conn_log_def)
  then have "cn_read c' = ls @ [l]" "cn_sent c' = rs @ map (stream_response (req_ID req)) (chunks @ [ev])"
    "cn_phase c' = Running_handler req" using chunk by (simp_all add: conn_defs)
  then show ?thesis using \<open>decode l = Inr req\<close> \<open>answered decode ls rs\<close>
    by (simp add: conn_log_def del: map_append) blast
next
  case (finish_handler req e)
  then obtain ls l rs chunks where c: "cn_read c = ls @ [l]" "decode l = Inr req" "answered decode ls rs"
    "cn_sent c = rs @ map (stream_response (req_ID req)) chunks" using assms(2) by (auto simp: conn_log_def)
  have "answers (line_id decode l) (map (stream_response (req_ID req)) chunks @ [terminal_response (req_ID req) e])"
    using answers_terminal terminal_response_shape c(2) by (simp add: line_id_def)
  from answered_snoc [OF c(3) this] show ?thesis unfolding finish_handler(1) using c by (simp add: conn_log_def conn_defs)
next
  case (arrive l)
  then show ?thesis using assms(2) by (elim conn_log_cong [rotated 3]) simp_all
next
  case hangup
  then show ?thesis using assms(2) by (elim conn_log_cong [rotated 3]) simp_all
next
  case closed_by_watcher
  then show ?thesis using assms(2) by (elim conn_log_cong [rotated 3]) simp_all
next
  case leave
  then show ?thesis using assms(2) by (simp add: conn_log_def)
qed

definition server_ok :: "(string \<Rightarrow> request result) \<Rightarrow> server \<Rightarrow> bool" where
  "server_ok decode s \<longleftrightarrow> (\<forall>c \<in> set (sv_conns s). conn_log decode c \<and> conn_delivery c) \<and> (sv_result s = Some None \<longrightarrow> sv_canceled s)"

lemma server_step_ok: "server_step known decode s s' \<Longrightarrow> server_ok decode s \<Longrightarrow> server_ok decode s'"
proof (induction rule: server_step.induct)
  case (accept s)
  then show ?case by (auto simp: server_ok_def conn_log_def conn_delivery_def new_conn_def)
next
  case (on_conn i s c)
  then have "sv_conns s ! i \<in> set (sv_conns s)" by simp
  then have "conn_log decode c" "conn_delivery c"
    using on_conn conn_step_log conn_step_delivery unfolding server_ok_def by blast+
  moreover have "set ((sv_conns s)[i := c]) \<subseteq> insert c (set (sv_conns s))" by (rule set_update_subset_insert)
  ultimately show ?case using on_conn(3) unfolding server_ok_def by auto
qed (auto simp: server_ok_def end_serve_def)

lemma main_moves_ok: "main_moves p q \<Longrightarrow> server_ok decode (ps_server p) \<Longrightarrow> server_ok decode (ps_server q)"
  by (induction rule: main_moves.induct) (auto simp: server_ok_def)

lemma process_step_ok: "process_step known decode p q \<Longrightarrow> server_ok decode (ps_server p) \<Longrightarrow> server_ok decode (ps_server q)"
proof (induction rule: process_step.induct)
  case (serving p s)
  then show ?case by (simp add: server_step_ok)
next
  case (main p q)
  then show ?case by (rule main_moves_ok)
qed (simp_all add: server_ok_def)

lemma process_reaches_ok: "process_reaches known decode p q \<Longrightarrow> server_ok decode (ps_server p) \<Longrightarrow> server_ok decode (ps_server q)"
  by (induction rule: rtranclp_induct) (auto intro: process_step_ok)

lemma started_ok: "server_ok decode (ps_server started)"
  by (simp add: server_ok_def started_def new_server_def)


text \<open>C29: whatever connections are open at the same time, whatever their handlers do and however the daemon is
  shut down meanwhile, every connection is answered in the order of its lines: a connection without a running
  handler was sent one complete answer per line read; while a handler runs, the complete answers of the lines
  before and the handler's chunks so far, under its request's identifier. What reaches the peer is the beginning
  of that, and all of it as long as the connection works.\<close>

theorem connections_answered_in_order:
  assumes "process_reaches known decode started p" and "c \<in> set (sv_conns (ps_server p))"
  shows "(case cn_phase c of
      Running_handler req \<Rightarrow> (\<exists>ls l rs chunks. cn_read c = ls @ [l] \<and> decode l = Inr req \<and> answered decode ls rs \<and>
        cn_sent c = rs @ map (stream_response (req_ID req)) chunks)
    | _ \<Rightarrow> answered decode (cn_read c) (cn_sent c)) \<and>
    prefix (cn_out c) (cn_sent c) \<and> (cn_broken c \<or> cn_out c = cn_sent c)"
  using process_reaches_ok [OF assms(1) started_ok] assms(2)
  by (auto simp only: server_ok_def conn_log_def conn_delivery_def)


section \<open>Shutting down\<close>

lemma step_to: "process_step known decode q r \<Longrightarrow> process_reaches known decode p q \<Longrightarrow> process_reaches known decode p r"
  by (rule rtranclp.rtrancl_into_rtrancl)

lemma serve_step_to:
  "server_step known decode (ps_server q) s \<Longrightarrow> (\<forall>e. ps_phase q \<noteq> Returned e) \<Longrightarrow> process_reaches known decode p q \<Longrightarrow>
     process_reaches known decode p (q\<lparr>ps_server := s\<rparr>)"
  by (rule step_to [OF process_step.serving])

text \<open>The moves the process makes by itself, without a client, a handler or a failing system call: its main function up
  to the closing of the daemon, the goroutine that closes the listener, and \<open>Serve\<close> when the listener is closed.\<close>

inductive own_move :: "process_state \<Rightarrow> process_state \<Rightarrow> bool" where
  own_main: "main_moves p q \<Longrightarrow> (\<forall>e. ps_phase p \<noteq> Closing_daemon e) \<Longrightarrow> own_move p q"
| own_listener: "sv_canceled (ps_server p) \<Longrightarrow> sv_listening (ps_server p) \<Longrightarrow>
    own_move p (p\<lparr>ps_server := (ps_server p)\<lparr>sv_listening := False\<rparr>\<rparr>)"
| own_serve: "\<not> sv_listening (ps_server p) \<Longrightarrow> sv_result (ps_server p) = None \<Longrightarrow>
    own_move p (p\<lparr>ps_server := end_serve e (ps_server p)\<rparr>)"

text \<open>A shutdown is under way: requested or signalled and not yet taken up, or taken up.\<close>

definition shutdown_pending :: "process_state \<Rightarrow> bool" where
  "shutdown_pending p \<longleftrightarrow> ps_phase p = Selecting \<and> (ps_shutdown p \<noteq> None \<or> ps_signal p) \<or>
     (\<exists>b. ps_phase p = Stopping b) \<or> ps_phase p = Awaiting_serve"

definition phase_rank :: "main_phase \<Rightarrow> nat" where
  "phase_rank f = (case f of Selecting \<Rightarrow> 4 | Stopping _ \<Rightarrow> 3 | Awaiting_serve \<Rightarrow> 2 | Closing_daemon _ \<Rightarrow> 1 | Returned _ \<Rightarrow> 0)"

definition moves_left :: "process_state \<Rightarrow> nat" where
  "moves_left p = phase_rank (ps_phase p) + (if sv_listening (ps_server p) then 1 else 0) +
     (if sv_result (ps_server p) = None then 1 else 0)"

lemma main_moves_rank: "main_moves p q \<Longrightarrow> phase_rank (ps_phase q) < phase_rank (ps_phase p) \<and>
    sv_listening (ps_server q) = sv_listening (ps_server p) \<and> sv_result (ps_server q) = sv_result (ps_server p) \<and>
    sv_conns (ps_server q) = sv_conns (ps_server p)"
  by (induction rule: main_moves.induct) (simp_all add: phase_rank_def)

lemma own_move_decreases: "own_move p q \<Longrightarrow> moves_left q < moves_left p"
  by (induction rule: own_move.induct) (auto simp: moves_left_def end_serve_def dest: main_moves_rank)

lemma own_move_conns: "own_move p q \<Longrightarrow> sv_conns (ps_server q) = sv_conns (ps_server p)"
  by (induction rule: own_move.induct) (auto simp: end_serve_def dest: main_moves_rank)

lemma own_moves_conns: "own_move\<^sup>*\<^sup>* p q \<Longrightarrow> sv_conns (ps_server q) = sv_conns (ps_server p)"
  by (induction rule: rtranclp_induct) (simp_all add: own_move_conns)

text \<open>Waiting for \<open>Serve\<close> means that its context is cancelled.\<close>

definition awaits_canceled :: "process_state \<Rightarrow> bool" where
  "awaits_canceled p \<longleftrightarrow> (ps_phase p = Awaiting_serve \<longrightarrow> sv_canceled (ps_server p))"

lemma server_step_canceled: "server_step known decode s s' \<Longrightarrow> sv_canceled s' = sv_canceled s"
  by (induction rule: server_step.induct) (simp_all add: end_serve_def)

lemma main_moves_canceled: "main_moves p q \<Longrightarrow> awaits_canceled p \<Longrightarrow> awaits_canceled q"
  by (induction rule: main_moves.induct) (simp_all add: awaits_canceled_def)

lemma process_step_canceled: "process_step known decode p q \<Longrightarrow> awaits_canceled p \<Longrightarrow> awaits_canceled q"
proof (induction rule: process_step.induct)
  case (main p q)
  then show ?case by (rule main_moves_canceled)
qed (auto simp: awaits_canceled_def dest: server_step_canceled)

lemma process_reaches_canceled: "process_reaches known decode started p \<Longrightarrow> awaits_canceled p"
  by (induction rule: rtranclp_induct) (simp add: awaits_canceled_def started_def, rule process_step_canceled)

text \<open>What stays true of a shutdown while the process goes on by itself: it is under way, or the daemon is being
  closed.\<close>

definition shutting :: "process_state \<Rightarrow> bool" where
  "shutting p \<longleftrightarrow> awaits_canceled p \<and> (shutdown_pending p \<or> (\<exists>e. ps_phase p = Closing_daemon e))"

lemma own_move_shutting: "own_move p q \<Longrightarrow> shutting p \<Longrightarrow> shutting q"
proof (induction rule: own_move.induct)
  case (own_main p q)
  from this(1) show ?case using own_main(2,3)
    by (induction rule: main_moves.induct) (auto simp: shutting_def shutdown_pending_def awaits_canceled_def)
qed (simp_all add: shutting_def shutdown_pending_def awaits_canceled_def end_serve_def)

lemma own_moves_shutting: "own_move\<^sup>*\<^sup>* p q \<Longrightarrow> shutting p \<Longrightarrow> shutting q"
  by (induction rule: rtranclp_induct) (auto intro: own_move_shutting)

lemma shutting_moves:
  assumes "shutting p"
  shows "(\<exists>e. ps_phase p = Closing_daemon e) \<or> (\<exists>q. own_move p q)"
proof (cases "ps_phase p")
  case Selecting
  then consider b where "ps_shutdown p = Some b" | "ps_signal p" using assms by (auto simp: shutting_def shutdown_pending_def)
  then show ?thesis using Selecting by cases (blast dest: main_moves.take_shutdown main_moves.take_signal
      intro: own_main)+
next
  case (Stopping b)
  then show ?thesis using own_main [OF main_moves.stop_and_cancel] by auto
next
  case Awaiting_serve
  have "sv_canceled (ps_server p)" using Awaiting_serve assms by (simp add: shutting_def awaits_canceled_def)
  show ?thesis
  proof (cases "sv_result (ps_server p)")
    case None
    then show ?thesis using own_listener [of p] own_serve [of p] \<open>sv_canceled (ps_server p)\<close> by blast
  next
    case (Some e)
    then show ?thesis using own_main [OF main_moves.serve_is_done [OF Awaiting_serve Some]] Awaiting_serve by auto
  qed
qed (use assms in \<open>auto simp: shutting_def shutdown_pending_def\<close>)


text \<open>C30: no connection can hold up a shutdown. Once one was requested, signalled or taken up, the process gets to closing
  the daemon by its own moves alone: they cannot go on for ever (their number is bounded), they do not touch a
  connection, and where none is left the daemon is being closed. A handler that runs still runs then, beside the
  closing of the database.\<close>

theorem shutdown_does_not_wait_for_handlers:
  assumes "process_reaches known decode started p" and "shutdown_pending p" and "own_move\<^sup>*\<^sup>* p q"
  shows "sv_conns (ps_server q) = sv_conns (ps_server p) \<and> (\<forall>r. own_move q r \<longrightarrow> moves_left r < moves_left q) \<and> moves_left q \<le> 6 \<and>
    ((\<nexists>r. own_move q r) \<longrightarrow> (\<exists>e. ps_phase q = Closing_daemon e))"
proof -
  have "shutting p" using assms(1,2) process_reaches_canceled by (simp add: shutting_def)
  then have "shutting q" using assms(3) own_moves_shutting by blast
  moreover have "moves_left q \<le> 6" by (simp add: moves_left_def phase_rank_def split: main_phase.splits)
  ultimately show ?thesis using own_moves_conns [OF assms(3)] own_move_decreases shutting_moves by blast
qed

text \<open>The methods the daemon registers (\<open>RegisterMethods\<close>).\<close>

definition RegisterMethods :: "string set" where
  "RegisterMethods = {''daemon.ping'', ''daemon.shutdown'', ''task.create'', ''task.list'', ''task.get'', ''task.resume'', ''task.pause'',
     ''task.stop'', ''task.remove'', ''task.logs'', ''events.subscribe'', ''task.attach'', ''task.input'', ''task.resize''}"

text \<open>A run of the daemon with one client: it asks for a shutdown; the main function takes the request and cancels before
  the handler's goroutine has written its answer.\<close>

definition asked :: "string \<Rightarrow> request \<Rightarrow> conn" where
  "asked l req = (read_line l [] new_conn)\<lparr>cn_phase := Running_handler req\<rparr>"

definition shutdown_reply :: "request \<Rightarrow> response" where
  "shutdown_reply req = terminal_response (req_ID req) (Returns (Inr ''{\"shutting_down\":true}''))"

lemma client_asks:
  assumes "decode l = Inr req" and "req_Method req \<in> known"
  shows "process_reaches known decode started (started\<lparr>ps_server := new_server\<lparr>sv_conns := [asked l req]\<rparr>\<rparr>)"
proof -
  let ?at = "\<lambda>cs. started\<lparr>ps_server := new_server\<lparr>sv_conns := cs\<rparr>\<rparr>"
  have sel: "ps_server (?at cs) = new_server\<lparr>sv_conns := cs\<rparr>" "\<forall>e. ps_phase (?at cs) \<noteq> Returned e" for cs
    by (simp_all add: started_def)
  have conn: "process_reaches known decode started (?at [c'])"
    if "conn_step known decode False c c'" "process_reaches known decode started (?at [c])" for c c'
    using serve_step_to [OF _ sel(2) that(2)] server_step.on_conn [of 0 "ps_server (?at [c])" known decode c'] that(1)
    by (simp add: sel new_server_def)
  have "process_reaches known decode started started" by simp
  then have "process_reaches known decode started (?at [new_conn])"
    using serve_step_to [OF server_step.accept [of "ps_server started"]] by (simp add: started_def new_server_def)
  then have "process_reaches known decode started (?at [new_conn\<lparr>cn_lines := [l]\<rparr>])"
    by (rule conn [rotated]) (use conn_step.arrive [of known decode False new_conn l] in \<open>simp add: new_conn_def\<close>)
  then show ?thesis
    by (rule conn [rotated]) (use conn_step.dispatch [of "new_conn\<lparr>cn_lines := [l]\<rparr>" l "[]" decode req known False] assms
        in \<open>simp add: new_conn_def asked_def read_line_def\<close>)
qed


lemma request_taken:
  assumes "decode l = Inr req" and "req_Method req = ''daemon.shutdown''" and "''daemon.shutdown'' \<in> known"
  shows "process_reaches known decode started
    \<lparr>ps_server = new_server\<lparr>sv_canceled := True, sv_conns := [asked l req]\<rparr>, ps_shutdown = None, ps_signal = False, ps_phase = Awaiting_serve\<rparr>"
proof -
  let ?p = "started\<lparr>ps_server := new_server\<lparr>sv_conns := [asked l req]\<rparr>\<rparr>"
  let ?q = "?p\<lparr>ps_shutdown := Some False\<rparr>"
  have p: "process_reaches known decode started ?p" using client_asks assms by metis
  have "process_step known decode ?p ?q"
    using process_step.request_shutdown [of "asked l req" ?p req known decode False] assms(2)
    by (simp add: asked_def started_def)
  then have q: "process_reaches known decode started ?q" using p by (rule step_to)
  have r: "main_moves ?q (?q\<lparr>ps_phase := Stopping False, ps_shutdown := None\<rparr>)"
    by (rule main_moves.take_shutdown [where b = False]) (simp_all add: started_def)
  have "main_moves (?q\<lparr>ps_phase := Stopping False, ps_shutdown := None\<rparr>)
      ((cancel_server (?q\<lparr>ps_phase := Stopping False, ps_shutdown := None\<rparr>))\<lparr>ps_phase := Awaiting_serve\<rparr>)"
    by (rule main_moves.stop_and_cancel [where b = False]) simp
  from step_to [OF process_step.main [OF this] step_to [OF process_step.main [OF r] q]]
  show ?thesis by (simp add: started_def new_server_def)
qed

lemma reply_lost:
  assumes "decode l = Inr req" and "req_Method req = ''daemon.shutdown''" and "''daemon.shutdown'' \<in> known"
  shows "\<exists>p c. process_reaches known decode started p \<and> ps_phase p = Returned None \<and> sv_conns (ps_server p) = [c] \<and>
    cn_read c = [l] \<and> cn_sent c = [shutdown_reply req] \<and> cn_out c = []"
proof -
  let ?at = "\<lambda>cs. \<lparr>ps_server = new_server\<lparr>sv_canceled := True, sv_conns := cs\<rparr>, ps_shutdown = None, ps_signal = False,
    ps_phase = Awaiting_serve\<rparr>"
  let ?b = "(asked l req)\<lparr>cn_broken := True\<rparr>" and ?c = "(encode_to (shutdown_reply req) ((asked l req)\<lparr>cn_broken := True\<rparr>))\<lparr>cn_phase := Reading\<rparr>"
  have conn: "process_reaches known decode started (?at [c'])"
    if "conn_step known decode True c c'" "process_reaches known decode started (?at [c])" for c c'
    using serve_step_to [OF _ _ that(2)] server_step.on_conn [of 0 "ps_server (?at [c])" known decode c'] that(1) by simp
  have "process_reaches known decode started (?at [?b])"
    by (rule conn [OF _ request_taken]) (use assms in \<open>auto intro: conn_step.closed_by_watcher simp: asked_def\<close>)
  then have c: "process_reaches known decode started (?at [?c])"
    by (rule conn [rotated]) (use conn_step.finish_handler [of ?b req known decode True] in \<open>simp add: asked_def shutdown_reply_def\<close>)
  let ?p = "(?at [?c])\<lparr>ps_server := (ps_server (?at [?c]))\<lparr>sv_listening := False\<rparr>\<rparr>"
  have p: "process_reaches known decode started ?p"
    using serve_step_to [OF server_step.close_listener [of "ps_server (?at [?c])"] _ c] by simp
  have s: "server_step known decode (ps_server ?p) (end_serve ErrCanceled (ps_server ?p))"
    by (rule server_step.accept_fails) (simp add: new_server_def)
  have q: "process_reaches known decode started (?p\<lparr>ps_server := end_serve ErrCanceled (ps_server ?p)\<rparr>)" (is "process_reaches _ _ _ ?q")
    by (rule serve_step_to [OF s _ p]) simp
  have r: "main_moves ?q (?q\<lparr>ps_phase := Closing_daemon None\<rparr>)" (is "main_moves _ ?r")
    by (rule main_moves.serve_is_done [where e = None]) (simp_all add: end_serve_def)
  have "main_moves ?r (?r\<lparr>ps_phase := Returned None\<rparr>)" by (rule main_moves.daemon_closed) simp
  from step_to [OF process_step.main [OF this] step_to [OF process_step.main [OF r] q]] show ?thesis
    by (rule_tac exI, rule_tac exI [of _ ?c], intro conjI) (assumption, simp_all add: end_serve_def conn_defs asked_def)
qed


section \<open>Witnesses\<close>

text \<open>A client that asked for a shutdown, before anything else happens.\<close>

definition stop_request :: request where
  "stop_request = \<lparr>req_ID = ''7'', req_Method = ''daemon.shutdown'', req_Params = []\<rparr>"

theorem connections_answered_in_order_witness:
  "\<exists>ls l' rs chunks. [''stop''] = ls @ [l'] \<and> answered (\<lambda>_. Inr stop_request) ls rs \<and>
     cn_sent (asked ''stop'' stop_request) = rs @ map (stream_response ''7'') chunks"
proof -
  let ?p = "started\<lparr>ps_server := new_server\<lparr>sv_conns := [asked ''stop'' stop_request]\<rparr>\<rparr>"
  have "process_reaches RegisterMethods (\<lambda>_. Inr stop_request) started ?p"
    by (rule client_asks) (simp_all add: RegisterMethods_def stop_request_def)
  from connections_answered_in_order [OF this, of "asked ''stop'' stop_request"]
  have "\<exists>ls l' rs chunks. cn_read (asked ''stop'' stop_request) = ls @ [l'] \<and> answered (\<lambda>_. Inr stop_request) ls rs \<and>
     cn_sent (asked ''stop'' stop_request) = rs @ map (stream_response (req_ID stop_request)) chunks"
    by (simp add: asked_def)
  then show ?thesis by (simp add: asked_def conn_defs stop_request_def)
qed

theorem shutdown_does_not_wait_for_handlers_witness:
  "\<exists>p. process_reaches RegisterMethods (\<lambda>_. Inr stop_request) started p \<and> ps_phase p = Awaiting_serve \<and>
     (\<exists>r. own_move p r \<and> moves_left r < moves_left p)"
proof -
  let ?p = "\<lparr>ps_server = new_server\<lparr>sv_canceled := True, sv_conns := [asked ''stop'' stop_request]\<rparr>, ps_shutdown = None,
    ps_signal = False, ps_phase = Awaiting_serve\<rparr>"
  have p: "process_reaches RegisterMethods (\<lambda>_. Inr stop_request) started ?p"
    by (rule request_taken) (simp_all add: RegisterMethods_def stop_request_def)
  have pending: "shutdown_pending ?p" by (simp add: shutdown_pending_def)
  have "own_move\<^sup>*\<^sup>* ?p ?p" by simp
  from shutdown_does_not_wait_for_handlers [OF p pending this] p show ?thesis by fastforce
qed

end
