(* ===== verification/CliTools.thy ===== *)
theory CliTools
  imports CliProps Service Server
begin

text \<open>
  The rest of the command line: the interactive attach (\<open>attach_interactive.go\<close>) with its wait for the session and
  the pump of the local input, the diagnostics of \<open>defib doctor\<close> (\<open>doctor.go\<close>), the service commands
  (\<open>service_cmd.go\<close>), and the daemon's main (\<open>runDaemon\<close> of \<open>cmd/defib/main.go\<close>). The terminal's modes,
  window sizes and signals are left out.
\<close>

section \<open>Interactive attach\<close>

text \<open>\<open>waitInteractiveReady\<close> from the \<open>k\<close>-th poll: the answers of \<open>task.get\<close> are a function of the poll.\<close>

datatype ready = Ready | Finished "string printed list" | NotReady go_error

definition poll_ready :: "task_info \<Rightarrow> ready option" where
  "poll_ready t = (let st = status_String (ti_Status t) in
     if st = ''RUNNING'' then Some Ready
     else if isTerminalStatus st then Some (Finished (printTaskState st (ti_ExitReason t)))
     else None)"

partial_function (option) ready_loop ::
  "client_env \<Rightarrow> (nat \<Rightarrow> task_info result) \<Rightarrow> string \<Rightarrow> time \<Rightarrow> nat \<Rightarrow> ready option" where
  "ready_loop E get sel deadline k =
     (case get k of
        Inl e \<Rightarrow> Some (NotReady e)
      | Inr t \<Rightarrow> (case poll_ready t of
          Some r \<Rightarrow> Some r
        | None \<Rightarrow>
          if deadline < e_clock E k
          then Some (NotReady (Err (''attach: task '' @ sel @ '' has no live interactive session (state '' @
            status_String (ti_Status t) @ '')'')))
          else if e_canceled E k then Some (NotReady ErrCanceled) else ready_loop E get sel deadline (Suc k)))"

definition waitInteractiveReady :: "client_env \<Rightarrow> (nat \<Rightarrow> task_info result) \<Rightarrow> string \<Rightarrow> time \<Rightarrow> ready option" where
  "waitInteractiveReady E get sel now = ready_loop E get sel (time_Add now (10 * Second)) 0"

text \<open>\<open>pumpInput\<close> on the reads of the standard input (data and whether the read also failed): the chunks that reach
  \<open>task.input\<close>. \<open>send k\<close> is the outcome of the \<open>k\<close>-th call.\<close>

definition detachKey :: char where
  "detachKey = CHR 0x1D"

fun pumpInput :: "bool \<Rightarrow> (nat \<Rightarrow> go_error option) \<Rightarrow> nat \<Rightarrow> (string \<times> bool) list \<Rightarrow> string list" where
  "pumpInput tty send k [] = []"
| "pumpInput tty send k ((buf, failed) # reads) =
     (case (if tty then Cut buf detachKey else None) of
        Some (data, _) \<Rightarrow> if data = [] then [] else [data]
      | None \<Rightarrow>
        if buf \<noteq> [] \<and> send k \<noteq> None then [buf]
        else (if buf = [] then [] else [buf]) @
          (if failed then [] else pumpInput tty send (if buf = [] then k else Suc k) reads))"

text \<open>\<open>runInteractiveAttach\<close>: what it prints, and its error; \<open>chunks\<close> is the stream of terminal output.\<close>

definition runInteractiveAttach ::
  "client_env \<Rightarrow> (nat \<Rightarrow> nat result) \<Rightarrow> (nat \<Rightarrow> task_info result) \<Rightarrow> string \<Rightarrow> time \<Rightarrow> string list \<times> go_error option
     \<Rightarrow> (string printed list \<times> go_error option) option" where
  "runInteractiveAttach E conn get sel now chunks =
     (case conn 0 of Inl e \<Rightarrow> Some ([], Some e)
      | Inr _ \<Rightarrow> (case waitInteractiveReady E get sel now of
          None \<Rightarrow> None
        | Some (NotReady e) \<Rightarrow> Some ([], Some e)
        | Some (Finished out) \<Rightarrow> Some (out, None)
        | Some Ready \<Rightarrow> (case conn 1 of Inl e \<Rightarrow> Some ([], Some e)
            | Inr _ \<Rightarrow> Some (map Out (fst chunks),
                (case snd chunks of None \<Rightarrow> None | Some e \<Rightarrow> if errors_Is e ErrCanceled then None else Some e)))))"

section \<open>Diagnostics (\<open>doctor.go\<close>)\<close>

record doctor_check =
  dc_Check :: string
  dc_Status :: string
  dc_Detail :: string

definition check :: "string \<Rightarrow> string \<Rightarrow> string \<Rightarrow> doctor_check" where
  "check c s d = \<lparr>dc_Check = c, dc_Status = s, dc_Detail = d\<rparr>"

text \<open>What the checks look at: the permissions of a directory (as \<open>%04o\<close> prints them) or why it cannot be read, the
  search path, the output of a program asked for its version, the service and the daemon.\<close>

datatype stat_result = Missing | StatFailed go_error | Mode string

record doctor_env =
  de_stat :: "string \<Rightarrow> stat_result"
  de_lookPath :: "string \<Rightarrow> go_error option"
  de_version :: "string \<Rightarrow> string result"
  de_validate :: "config \<Rightarrow> string list \<times> go_error option"
  de_service :: "string result \<times> (string \<times> string \<times> bool) result"
  de_ping :: "ping_result result"

definition checkDir :: "doctor_env \<Rightarrow> string \<times> string \<Rightarrow> doctor_check" where
  "checkDir D = (\<lambda>(name, dir). case de_stat D dir of
     Missing \<Rightarrow> check (''dirs:'' @ name) ''warn'' (dir @ '' missing; run any defib command to create it'')
   | StatFailed e \<Rightarrow> check (''dirs:'' @ name) ''fail'' (err_text e)
   | Mode perm \<Rightarrow> if perm \<noteq> ''0700'' then check (''dirs:'' @ name) ''warn'' (dir @ '' has permissions '' @ perm @ '', want 0700'')
       else check (''dirs:'' @ name) ''ok'' dir)"

definition providerVersion :: "doctor_env \<Rightarrow> string \<Rightarrow> string result" where
  "providerVersion D binary = (case de_version D binary of
     Inl e \<Rightarrow> Inl (Wrap (binary @ '' --version: '') e [])
   | Inr out \<Rightarrow> (case List.find (\<lambda>l. l \<noteq> []) (map TrimSpace (Split out (CHR 0x0A))) of
       Some line \<Rightarrow> Inr line | None \<Rightarrow> Inl (Err (binary @ '' --version: empty output''))))"

definition checkProvider :: "doctor_env \<Rightarrow> config \<Rightarrow> string \<Rightarrow> doctor_check" where
  "checkProvider D cfg name =
     (if name = ''fake'' then check (''providers:'' @ name) ''ok'' ''fake (built-in)''
      else let binary = non_empty_or (p_Binary (entry_of name cfg)) name in
        if de_lookPath D binary \<noteq> None
        then check (''providers:'' @ name) ''warn'' (name @ '': binary '' @ Quote binary @ '' not found on PATH'')
        else (case providerVersion D binary of
            Inl e \<Rightarrow> check (''providers:'' @ name) ''ok'' (name @ '' present at '' @ binary @ '' (version check failed)'')
          | Inr version \<Rightarrow> check (''providers:'' @ name) ''ok'' (name @ '' '' @ version @ '' ('' @ binary @ '')'')))"

abbreviation squote :: string where "squote \<equiv> [CHR 0x27]"

definition checkService :: "doctor_env \<Rightarrow> doctor_check" where
  "checkService D = (case de_service D of
     (Inl e, _) \<Rightarrow> check ''service'' ''warn'' (''resolve executable: '' @ err_text e)
   | (Inr _, Inl e) \<Rightarrow> check ''service'' ''warn'' (err_text e)
   | (Inr _, Inr (manager, path, installed)) \<Rightarrow>
       if installed then check ''service'' ''ok'' (''service installed ('' @ manager @ '', '' @ path @ '')'')
       else check ''service'' ''warn'' (''service not installed; run '' @ squote @ ''defib install-service'' @ squote @ '' to run the daemon on login/boot ('' @ path @ '')''))"

definition checkDaemon :: "client_env \<Rightarrow> doctor_env \<Rightarrow> doctor_check" where
  "checkDaemon E D = (case socketPath E of Inl e \<Rightarrow> check ''daemon'' ''fail'' (err_text e)
     | Inr sock \<Rightarrow>
       (case (if e_dial E 0 = None then de_ping D else Inl ErrDaemonUnreachable) of
          Inl _ \<Rightarrow> check ''daemon'' ''warn'' ''daemon not running (will auto-start on demand)''
        | Inr p \<Rightarrow> check ''daemon'' ''ok'' (''daemon running (pid '' @ Itoa (ping_PID p) @ '', version '' @ ping_Version p @ '')'')))"

text \<open>The configuration's checks, and the configuration the providers are checked with: the zero value when there is
  none.\<close>

definition zero_config :: config where
  "zero_config = Default\<lparr>c_Providers := []\<rparr>"

definition config_checks :: "client_cfg \<Rightarrow> client_env \<Rightarrow> global_options \<Rightarrow> doctor_env \<Rightarrow> doctor_check list \<times> config" where
  "config_checks X E g D = (case globalConfigPath E g of
     Inl e \<Rightarrow> ([check ''config'' ''fail'' (err_text e)], zero_config)
   | Inr path \<Rightarrow> (case client_Resolve X path [] [] of
       Inl e \<Rightarrow> ([check ''config'' ''fail'' (err_text e)], zero_config)
     | Inr cfg \<Rightarrow> (let (ws, e) = de_validate D cfg in
         ((case e of Some e \<Rightarrow> check ''config'' ''fail'' (err_text e) | None \<Rightarrow> check ''config'' ''ok'' ''valid'') #
            map (check ''config'' ''warn'') ws, cfg))))"

definition runDoctorChecks :: "client_cfg \<Rightarrow> client_env \<Rightarrow> global_options \<Rightarrow> doctor_env \<Rightarrow> provider list \<Rightarrow> doctor_check list" where
  "runDoctorChecks X E g D ps =
     (case e_dirs E of Inl e \<Rightarrow> [check ''dirs'' ''fail'' (err_text e)]
      | Inr d \<Rightarrow> map (checkDir D) [(''config'', dir_Config d), (''state'', dir_State d), (''runtime'', dir_Runtime d)]) @
     (let (cs, cfg) = config_checks X E g D in cs @ map (checkProvider D cfg \<circ> p_Name) ps) @
     [checkDaemon E D, checkService D]"

definition renderDoctor :: "doctor_check list \<Rightarrow> 'a printed list" where
  "renderDoctor cs = map (\<lambda>c. Out (dc_Status c @ '': '' @ dc_Detail c)) cs"

definition doctor_cmd :: "global_options \<Rightarrow> doctor_check list \<Rightarrow> doctor_check list printed list \<times> go_error option" where
  "doctor_cmd g cs = (if g_jsonOut g then ([JSON cs], None)
     else (renderDoctor cs, if \<exists>c \<in> set cs. dc_Status c = ''fail'' then Some (Err ''doctor found failing checks'') else None))"


section \<open>Service commands (\<open>service_cmd.go\<close>)\<close>

text \<open>\<open>verb\<close> is ``installed'' or ``removed'', with the operation's outcome for the binary's own path.\<close>

definition service_cmd :: "string \<Rightarrow> global_options \<Rightarrow> string result \<Rightarrow> (string \<Rightarrow> service_result result \<times> files) \<Rightarrow> files
     \<Rightarrow> string printed list result \<times> files" where
  "service_cmd verb g exe operation fs = (case exe of Inl e \<Rightarrow> (Inl (Wrap ''resolve executable: '' e []), fs)
     | Inr path \<Rightarrow> (case operation path of
         (Inl e, fs') \<Rightarrow> (Inl e, fs')
       | (Inr r, fs') \<Rightarrow> (Inr (if g_quiet g then []
           else Out (verb @ '' '' @ sr_Manager r @ '' service: '' @ sr_Path r) # map (\<lambda>a. Out (''  '' @ a)) (sr_Actions r)), fs')))"

definition install_service_cmd where
  "install_service_cmd P start g exe fs =
     service_cmd ''installed'' g exe (\<lambda>path. Install (P\<lparr>so_ExecPath := path, so_Start := start\<rparr>) fs) fs"

definition uninstall_service_cmd where
  "uninstall_service_cmd P g exe fs =
     service_cmd ''removed'' g exe (\<lambda>path. Uninstall (P\<lparr>so_ExecPath := path, so_Start := False\<rparr>) fs) fs"

section \<open>The daemon's main (\<open>cmd/defib/main.go\<close>)\<close>

section \<open>Input is forwarded up to the detach key\<close>

text \<open>The reads up to the end of the input.\<close>

fun available :: "(string \<times> bool) list \<Rightarrow> string" where
  "available [] = []"
| "available ((buf, failed) # reads) = buf @ (if failed then [] else available reads)"

lemma takeWhile_Cut: "takeWhile (\<lambda>c. c \<noteq> k) s = (case Cut s k of Some (a, b) \<Rightarrow> a | None \<Rightarrow> s)"
  by (induction s) (auto split: option.splits)

lemma takeWhile_append_Cut: "takeWhile (\<lambda>c. c \<noteq> k) (s @ t) = (case Cut s k of Some (a, b) \<Rightarrow> a | None \<Rightarrow> s @ takeWhile (\<lambda>c. c \<noteq> k) t)"
  by (induction s) (auto split: option.splits)

text \<open>An interactive attach forwards exactly what the user typed before the detach key, in order, whatever the reads
  it comes in, and nothing after it; piped input is forwarded whole. No empty chunk is sent.\<close>

theorem pump_forwards_until_detach:
  assumes "\<And>k. send k = None"
  shows "concat (pumpInput tty send k reads) =
      (if tty then takeWhile (\<lambda>c. c \<noteq> detachKey) (available reads) else available reads) \<and> [] \<notin> set (pumpInput tty send k reads)"
proof (induction reads arbitrary: k)
  case (Cons rd reads)
  obtain buf failed where rd: "rd = (buf, failed)" by (cases rd)
  show ?case
  proof (cases "if tty then Cut buf detachKey else None")
    case None
    then show ?thesis using Cons.IH assms by (cases tty) (auto simp: rd takeWhile_append_Cut takeWhile_Cut [of detachKey buf])
  next
    case (Some p)
    then have "tty" "Cut buf detachKey = Some p" by (auto split: if_splits)
    then show ?thesis by (cases p) (auto simp: rd takeWhile_append_Cut takeWhile_Cut [of detachKey buf])
  qed
qed simp

theorem pump_forwards_until_detach_witness:
  "concat (pumpInput True (\<lambda>_. None) 0 [(''ls'', False), (''x'' @ [detachKey] @ ''rm'', False)]) = ''lsx''"
  using pump_forwards_until_detach [of "\<lambda>_. None" True 0 "[(''ls'', False), (''x'' @ [detachKey] @ ''rm'', False)]"]
  by (simp add: detachKey_def)

text \<open>The wait for the session ends once the clock passes its deadline.\<close>

lemma ready_loop_returns:
  assumes "deadline < e_clock E (k + n)"
  shows "\<exists>r. ready_loop E get sel deadline k = Some r"
  using assms
proof (induction n arbitrary: k)
  case 0
  then show ?case by (subst ready_loop.simps) (simp split: option.split sum.split)
next
  case (Suc n)
  then have "\<exists>r. ready_loop E get sel deadline (Suc k) = Some r" by simp
  then show ?case by (subst ready_loop.simps) (simp split: option.split sum.split)
qed


section \<open>The remaining commands\<close>

text \<open>\<open>newRemoveCmd\<close>; the commands built by \<open>newActionCmd\<close> and \<open>newStopCmd\<close> are \<open>runActionRunE\<close> with their verb.\<close>

definition remove_cmd :: "global_options \<Rightarrow> nat result \<Rightarrow> string result \<Rightarrow> string printed list result" where
  "remove_cmd g conn answer = (case conn of Inl e \<Rightarrow> Inl e
     | Inr _ \<Rightarrow> (case answer of Inl e \<Rightarrow> Inl e
         | Inr i \<Rightarrow> Inr (if g_jsonOut g then [JSON i] else if g_quiet g then [] else [Out (''removed task '' @ i)])))"

text \<open>\<open>printError\<close>: the code and the message with \<open>--json\<close>, a line of text without.\<close>

definition printError :: "global_options \<Rightarrow> go_error \<Rightarrow> (string \<times> string) printed list" where
  "printError g e = (if g_jsonOut g then [JSON (errorCode e, err_text e)] else [ErrOut (''defib: '' @ err_text e)])"

definition printUnattendedWarning :: "string \<Rightarrow> 'a printed list" where
  "printUnattendedWarning name =
     [ErrOut (''WARNING: unattended mode is ON '' @ map char_of [226, 128, 148 :: nat] @ '' '' @
        (if name = [] then ''the provider'' else name) @ '' will run with approval prompts skipped.''),
      ErrOut ([CHR 0x09] @ ''The agent can execute arbitrary commands with no human in the loop.''),
      ErrOut ([CHR 0x09] @ ''Run it in a sandbox or container you are prepared to lose.'')]"

text \<open>\<open>writePidFile\<close> on the outcomes of writing the temporary file and of the rename.\<close>

definition writePidFile :: "go_error option \<Rightarrow> go_error option \<Rightarrow> go_error option" where
  "writePidFile writing renaming = (case writing of Some e \<Rightarrow> Some (Wrap ''write pid file: '' e [])
     | None \<Rightarrow> (case renaming of Some e \<Rightarrow> Some (Wrap ''write pid file: '' e []) | None \<Rightarrow> None))"

text \<open>\<open>spawnDaemon\<close> on the path of the binary and the outcomes of starting and releasing the child, with the command line
  of the child: it has neither flags nor a configuration file.\<close>

definition spawnDaemon :: "string result \<Rightarrow> go_error option \<Rightarrow> go_error option \<Rightarrow> go_error option \<times> string list option" where
  "spawnDaemon self starting release = (case self of Inl e \<Rightarrow> (Some (Wrap ''resolve executable: '' e []), None)
     | Inr exe \<Rightarrow> (case starting of Some e \<Rightarrow> (Some (Wrap ''start daemon: '' e []), None)
         | None \<Rightarrow> (release, Some [exe, ''daemon'', ''run''])))"

section \<open>The start command as a whole\<close>

text \<open>What \<open>newStartCmd\<close> does, in order: \<open>conn\<close> and \<open>created\<close> are the outcomes of connecting and of \<open>task.create\<close> (the
  identifier and the name of the task), \<open>emitted\<close> that of writing JSON. An attach goes on as \<open>runAttach\<close>.\<close>

datatype cli_action = Prints "(string \<times> string) printed" | Connecting | Creating create_params | Attaching string

definition start_cmd ::
  "client_cfg \<Rightarrow> client_env \<Rightarrow> global_options \<Rightarrow> string result \<Rightarrow> string result \<Rightarrow> start_flags \<Rightarrow> int \<Rightarrow> string list
     \<Rightarrow> bool \<Rightarrow> bool \<Rightarrow> go_error option \<Rightarrow> (string \<times> string) result \<Rightarrow> go_error option \<Rightarrow> cli_action list \<times> go_error option" where
  "start_cmd X E g prompt getwd opts dash args attach detach conn created emitted =
     (case start_request X E g prompt getwd opts dash args of Inl e \<Rightarrow> ([], Some e)
      | Inr (p, warn) \<Rightarrow>
        (let before = (if warn then map Prints (printUnattendedWarning (cp_Provider p)) else []) @ [Connecting] in
         case conn of Some e \<Rightarrow> (before, Some e)
         | None \<Rightarrow> (case created of Inl e \<Rightarrow> (before @ [Creating p], Some e)
           | Inr (i, name) \<Rightarrow>
             (let out = (if g_jsonOut g then [JSON (i, name)] else if g_quiet g then []
                  else [Out (''started task '' @ i @ '' ('' @ name @ '')'')])
              in if g_jsonOut g \<and> emitted \<noteq> None then (before @ [Creating p], emitted)
                 else (before @ [Creating p] @ map Prints out @ (if start_attaches attach detach then [Attaching i] else []), None)))))"

text \<open>When a task is asked for whose effective settings skip the approvals, the whole warning has been printed before the
  daemon is even contacted; and a task without them is started without a warning.\<close>

lemma start_warns_first:
  assumes "Creating p \<in> set (fst (start_cmd X E g prompt getwd opts dash args attach detach conn created emitted))"
  shows "\<exists>rest. fst (start_cmd X E g prompt getwd opts dash args attach detach conn created emitted) =
    (if unattendedEffective X E g p then map Prints (printUnattendedWarning (cp_Provider p)) else []) @ Connecting # Creating p # rest"
proof -
  obtain q warn where r: "start_request X E g prompt getwd opts dash args = Inr (q, warn)"
    using assms by (auto simp: start_cmd_def split: sum.splits)
  then have "warn = unattendedEffective X E g q" by (auto simp: start_request_def split: sum.splits)
  then show ?thesis using assms r
    by (auto simp: start_cmd_def Let_def split: option.splits sum.splits prod.splits if_splits)
qed

text \<open>The command without a subcommand (\<open>Execute\<close>): the version, or the help.\<close>

definition root_cmd :: "bool \<Rightarrow> string \<Rightarrow> 'a printed list option" where
  "root_cmd showVersion version =
     (if showVersion then Some [Out (''defib version '' @ version @ '' (schema '' @ Itoa SchemaVersion @ '')'')] else None)"

section \<open>Stopping the daemon\<close>

text \<open>C33: the answer to \<open>daemon.shutdown\<close> races with the shutdown it asks for. There is a run in which the daemon takes the
  request, stops cleanly and answers the request, but the connection has been closed in between: the command
  \<open>daemon stop\<close> of that client then reports a read error, although the daemon stopped as it should.\<close>

theorem shutdown_reply_can_be_lost:
  assumes "decode l = Inr req" and "req_Method req = ''daemon.shutdown''" and "e_dirs E = Inr d" and "e_dial E 0 = None"
  shows "\<exists>p c. process_reaches RegisterMethods decode started p \<and> ps_phase p = Returned None \<and> sv_conns (ps_server p) = [c] \<and>
    cn_read c = [l] \<and> cn_sent c = [shutdown_reply req] \<and>
    daemon_stop_cmd E g now (map_sum id (\<lambda>_. ()) (client_Call None eof (req_ID req) (cn_out c))) =
      Some (Inl (Wrap ''ipc: read response: '' eof []))"
proof -
  have "''daemon.shutdown'' \<in> RegisterMethods" by (simp add: RegisterMethods_def)
  from reply_lost [where decode = decode and l = l, OF assms(1,2) this] obtain p c where
    p: "process_reaches RegisterMethods decode started p" "ps_phase p = Returned None" "sv_conns (ps_server p) = [c]"
      "cn_read c = [l]" "cn_sent c = [shutdown_reply req]" and out: "cn_out c = []" by blast
  have "daemon_stop_cmd E g now (map_sum id (\<lambda>_. ()) (client_Call None eof (req_ID req) (cn_out c))) =
      Some (Inl (Wrap ''ipc: read response: '' eof []))"
    by (simp add: daemon_stop_cmd_def socketPath_def assms(3,4) out readErr_def)
  with p show ?thesis by blast
qed

theorem shutdown_reply_can_be_lost_witness:
  "\<exists>p c. process_reaches RegisterMethods (\<lambda>_. Inr stop_request) started p \<and> ps_phase p = Returned None \<and>
    sv_conns (ps_server p) = [c] \<and> cn_sent c = [ok_response ''7'' ''{\"shutting_down\":true}''] \<and>
    daemon_stop_cmd (sleeping_env\<lparr>e_dial := \<lambda>_. None\<rparr>) \<lparr>g_configPath = [], g_noAutostart = False, g_jsonOut = False, g_quiet = False\<rparr> 0
      (map_sum id (\<lambda>_. ()) (client_Call None (Err ''EOF'') ''7'' (cn_out c))) = Some (Inl (Wrap ''ipc: read response: '' (Err ''EOF'') []))"
proof -
  have "shutdown_reply stop_request = ok_response ''7'' ''{\"shutting_down\":true}''"
    by (simp add: shutdown_reply_def terminal_response_def stop_request_def)
  then show ?thesis
    using shutdown_reply_can_be_lost [of "\<lambda>_. Inr stop_request" "''stop''" stop_request "sleeping_env\<lparr>e_dial := \<lambda>_. None\<rparr>"
        "\<lparr>dir_Config = ''/c'', dir_State = ''/s'', dir_Runtime = ''/r''\<rparr>"
        "\<lparr>g_configPath = [], g_noAutostart = False, g_jsonOut = False, g_quiet = False\<rparr>" "0" "Err ''EOF''"]
    by (simp add: sleeping_env_def stop_request_def) blast
qed

end
