(* ===== verification/Output.thy ===== *)
theory Output
  imports Detect "HOL-Library.Sublist"
begin

text \<open>
  The way of a child's output to its attempt log: the redactor (\<open>internal/logging/redact.go\<close>) with its
  line-buffered writer, the log file behind it (\<open>logSink\<close> of \<open>daemon.go\<close>), the capture of a stream with its
  bound (\<open>internal/process/process.go\<close>, \<open>pty.go\<close>), and the follower that reads a growing log
  (\<open>follow.go\<close>). The matches of a regular expression are a parameter (RE2 is not part of the program).
\<close>

section \<open>The redactor\<close>

record redactor =
  envValues :: "string list"

definition secret_name :: "string \<Rightarrow> bool" where
  "secret_name name = (let u = ToUpper name in HasSuffix u ''_TOKEN'' \<or> HasSuffix u ''_KEY'' \<or> HasSuffix u ''_SECRET'')"

fun secret_values :: "string list \<Rightarrow> string list \<Rightarrow> string list" where
  "secret_values [] values = values"
| "secret_values (kv # env) values =
     (case Cut kv (CHR ''='') of
        None \<Rightarrow> secret_values env values
      | Some (name, value) \<Rightarrow>
        if value = [] \<or> \<not> secret_name name \<or> value \<in> set values then secret_values env values
        else secret_values env (values @ [value]))"

text \<open>\<open>sort.Slice\<close> leaves the order of values of the same length open; the model keeps theirs.\<close>

definition NewRedactor :: "string list \<Rightarrow> redactor" where
  "NewRedactor environ = \<lparr>envValues = sort_key (\<lambda>v. - int (length v)) (secret_values environ [])\<rparr>"

text \<open>\<open>Regexp.ReplaceAllString\<close> with a replacement without references, on the spans of the matches that
  \<open>rx pattern s\<close> gives in order.\<close>

fun replace_spans :: "nat \<Rightarrow> (nat \<times> nat) list \<Rightarrow> string \<Rightarrow> string \<Rightarrow> string" where
  "replace_spans pos [] s new = drop pos s"
| "replace_spans pos ((a, b) # ms) s new = take (a - pos) (drop pos s) @ new @ replace_spans b ms s new"

type_synonym finder = "string \<Rightarrow> string \<Rightarrow> (nat \<times> nat) list"

definition ReplaceAllString :: "finder \<Rightarrow> string \<Rightarrow> string \<Rightarrow> string \<Rightarrow> string" where
  "ReplaceAllString rx re s new = replace_spans 0 (rx re s) s new"

definition redacted :: string where
  "redacted = ''[REDACTED]''"

text \<open>The patterns with their replacements (\<open>bs\<close> is a backslash).\<close>

abbreviation (input) bslash :: string where "bslash \<equiv> [CHR 0x5C]"

definition secret_shapes :: "(string \<times> string) list" where
  "secret_shapes =
     [(bslash @ ''bsk-[A-Za-z0-9_-]{8,}'' @ bslash @ ''b'', redacted),
      (bslash @ ''bgh[pousr]_[A-Za-z0-9]{16,}'' @ bslash @ ''b'', redacted),
      (''(?i)'' @ bslash @ ''bBearer'' @ bslash @ ''s+[A-Za-z0-9._~+/=-]{8,}'', ''Bearer '' @ redacted),
      (''(?im)'' @ bslash @ ''bAuthorization'' @ bslash @ ''s*:'' @ bslash @ ''s*'' @ bslash @ ''S.*?$'',
         ''Authorization: '' @ redacted)]"

definition Redact :: "finder \<Rightarrow> redactor \<Rightarrow> string \<Rightarrow> string" where
  "Redact rx r s = foldl (\<lambda>s (re, new). ReplaceAllString rx re s new)
     (foldl (\<lambda>s v. ReplaceAll s v redacted) s (envValues r)) secret_shapes"

section \<open>The redacting writer and the log file\<close>

text \<open>A file that is appended to; the \<open>k\<close>-th write may fail after some of its bytes.\<close>

record log_file =
  lf_data :: string
  lf_writes :: nat
  lf_fault :: "nat \<Rightarrow> (nat \<times> go_error) option"

definition file_Write :: "string \<Rightarrow> log_file \<Rightarrow> go_error option \<times> log_file" where
  "file_Write p f =
     (let f' = f\<lparr>lf_writes := Suc (lf_writes f)\<rparr> in
      case lf_fault f (lf_writes f) of
        None \<Rightarrow> (None, f'\<lparr>lf_data := lf_data f @ p\<rparr>)
      | Some (n, e) \<Rightarrow> (Some e, f'\<lparr>lf_data := lf_data f @ take n p\<rparr>))"

record log_sink =
  ls_buf :: string
  ls_file :: log_file

abbreviation LF :: char where "LF \<equiv> CHR 0x0A"

function write_lines :: "finder \<Rightarrow> redactor \<Rightarrow> log_sink \<Rightarrow> go_error option \<times> log_sink" where
  "write_lines rx r w =
     (case Cut (ls_buf w) LF of
        None \<Rightarrow> (None, w)
      | Some (line, rest) \<Rightarrow>
        (case file_Write (Redact rx r (line @ [LF])) (ls_file w) of
           (Some e, f) \<Rightarrow> (Some e, \<lparr>ls_buf = rest, ls_file = f\<rparr>)
         | (None, f) \<Rightarrow> write_lines rx r \<lparr>ls_buf = rest, ls_file = f\<rparr>))"
  by pat_completeness auto
termination
  by (relation "measure (\<lambda>(rx, r, w). length (ls_buf w))") (auto dest: Cut_Some_append)

declare write_lines.simps [simp del]

definition sink_Write :: "finder \<Rightarrow> redactor \<Rightarrow> string \<Rightarrow> log_sink \<Rightarrow> go_error option \<times> log_sink" where
  "sink_Write rx r p w = write_lines rx r (w\<lparr>ls_buf := ls_buf w @ p\<rparr>)"

definition sink_Close :: "finder \<Rightarrow> redactor \<Rightarrow> log_sink \<Rightarrow> go_error option \<times> log_sink" where
  "sink_Close rx r w =
     (if ls_buf w = [] then (None, w)
      else (let (e, f) = file_Write (Redact rx r (ls_buf w)) (ls_file w) in (e, \<lparr>ls_buf = [], ls_file = f\<rparr>)))"

section \<open>The capture of a stream\<close>

text \<open>\<open>io.Copy\<close> from a reader that gives these chunks: the number of bytes copied, the error, the chunks that were
  not read, and the sink. \<open>io.LimitReader\<close> reads no more than its limit.\<close>

fun io_Copy :: "finder \<Rightarrow> redactor \<Rightarrow> string list \<Rightarrow> nat \<Rightarrow> log_sink \<Rightarrow> nat \<times> go_error option \<times> string list \<times> log_sink" where
  "io_Copy rx r [] n w = (n, None, [], w)"
| "io_Copy rx r (p # ps) n w = (case sink_Write rx r p w of
     (Some e, w') \<Rightarrow> (n + length p, Some e, ps, w')
   | (None, w') \<Rightarrow> io_Copy rx r ps (n + length p) w')"

fun LimitReader :: "nat \<Rightarrow> string list \<Rightarrow> string list \<times> string list" where
  "LimitReader n [] = ([], [])"
| "LimitReader n (p # ps) =
     (if n = 0 then ([], p # ps)
      else if length p \<le> n then (let (qs, rest) = LimitReader (n - length p) ps in (p # qs, rest))
      else ([take n p], drop n p # ps))"

record captured =
  cap_sink :: log_sink
  cap_truncated :: nat
  cap_unread :: "string list"

definition capture :: "finder \<Rightarrow> redactor \<Rightarrow> int \<Rightarrow> string list \<Rightarrow> log_sink \<Rightarrow> captured" where
  "capture rx r limit chunks w =
     (if limit \<le> 0
      then (let (n, e, unread, w') = io_Copy rx r chunks 0 w
            in \<lparr>cap_sink = snd (sink_Close rx r w'), cap_truncated = 0, cap_unread = unread\<rparr>)
      else (let (head, beyond) = LimitReader (nat limit) chunks;
                (n, e, unread, w') = io_Copy rx r head 0 w;
                rest = length (concat (unread @ beyond))
            in \<lparr>cap_sink = snd (sink_Close rx r w'),
                cap_truncated = (if n = nat limit then rest else 0), cap_unread = []\<rparr>))"

definition newLogSink :: "(nat \<Rightarrow> (nat \<times> go_error) option) \<Rightarrow> string \<Rightarrow> log_sink" where
  "newLogSink fault before = \<lparr>ls_buf = [], ls_file = \<lparr>lf_data = before, lf_writes = 0, lf_fault = fault\<rparr>\<rparr>"

text \<open>\<open>tailFile\<close>, on the outcome of reading the file.\<close>

definition tailFile :: "go_error + string \<Rightarrow> int \<Rightarrow> string" where
  "tailFile contents n = (case contents of Inl e \<Rightarrow> [] | Inr data \<Rightarrow> Tail data n)"

section \<open>Following a growing log\<close>

text \<open>A follower makes reads at which it sees the file's contents and gets at most \<open>m > 0\<close> bytes; when there is
  nothing new it waits for the next tick unless the context is canceled. The result is what it returned before the
  end of the stream, and whether that came.\<close>

record poll =
  po_contents :: string
  po_room :: nat
  po_canceled :: bool

fun follow :: "poll list \<Rightarrow> nat \<Rightarrow> string \<times> bool" where
  "follow [] pos = ([], False)"
| "follow (p # ps) pos =
     (let new = take (po_room p) (drop pos (po_contents p)) in
      if new \<noteq> [] then (let (out, done) = follow ps (pos + length new) in (new @ out, done))
      else if po_canceled p then ([], True) else follow ps pos)"


section \<open>Secrets do not survive the redaction\<close>

text \<open>\<open>v\<close> blends with a replacement when an occurrence of \<open>v\<close> could lie across it.\<close>

definition blends :: "string \<Rightarrow> string \<Rightarrow> bool" where
  "blends v new \<longleftrightarrow> sublist v new \<or> sublist new v \<or>
     list_ex (\<lambda>k. prefix (drop k v) new) [0..<length v] \<or> list_ex (\<lambda>k. suffix (take (Suc k) v) new) [0..<length v]"

lemma blends_suffix: "v = x @ y \<Longrightarrow> y \<noteq> [] \<Longrightarrow> prefix y new \<Longrightarrow> blends v new"
  by (auto simp: blends_def list_ex_iff intro: bexI [of _ "length x"])

lemma blends_prefix: "v = x @ y \<Longrightarrow> x \<noteq> [] \<Longrightarrow> suffix x new \<Longrightarrow> blends v new"
proof -
  assume a: "v = x @ y" "x \<noteq> []" "suffix x new"
  then have "length x - 1 \<in> set [0..<length v]" "suffix (take (Suc (length x - 1)) v) new" by (cases x; simp)+
  then show ?thesis unfolding blends_def list_ex_iff by blast
qed

lemma not_sublist_around:
  assumes "\<not> blends v new" and "\<not> sublist v a" and "\<not> sublist v b"
  shows "\<not> sublist v (a @ new @ b)"
proof
  assume "sublist v (a @ new @ b)"
  then consider "sublist v (new @ b)" | x y where "v = x @ y" "suffix x a" "prefix y (new @ b)"
    using assms(2) unfolding sublist_append by blast
  then show False
  proof cases
    case 1
    then consider "sublist v new" | x y where "v = x @ y" "suffix x new" "prefix y b"
      using assms(3) unfolding sublist_append by blast
    then show False
    proof cases
      case (2 x y)
      then show False using assms(1,3) blends_prefix [of v x y new] prefix_imp_sublist by (cases "x = []") auto
    qed (use assms(1) in \<open>simp add: blends_def\<close>)
  next
    case (2 x y)
    have "y \<noteq> []" using 2(1,2) assms(2) suffix_imp_sublist by auto
    moreover have "prefix y new \<or> sublist new v"
      using 2(1,3) unfolding prefix_append by (auto simp: sublist_def)
    ultimately show False using assms(1) blends_suffix [OF 2(1)] by (auto simp: blends_def)
  qed
qed

lemma replace_spans_free:
  assumes "\<not> sublist v s" and "\<not> blends v new"
  shows "\<not> sublist v (replace_spans pos ms s new)"
proof (induction ms arbitrary: pos)
  case Nil
  have "sublist (drop pos s) s" by (simp add: suffix_drop suffix_imp_sublist)
  then show ?case using assms(1) sublist_order.order_trans by (simp, blast)
next
  case (Cons m ms)
  obtain a b where m: "m = (a, b)" by (cases m)
  have "sublist (take (a - pos) (drop pos s)) s"
    by (meson prefix_imp_sublist sublist_order.order_trans suffix_drop suffix_imp_sublist take_is_prefix)
  then have "\<not> sublist v (take (a - pos) (drop pos s))" using assms(1) sublist_order.order_trans by blast
  then show ?case using not_sublist_around [OF assms(2) _ Cons.IH] by (simp add: m)
qed

lemma HasPrefix_prefix: "HasPrefix s p \<longleftrightarrow> prefix p s"
  by (auto simp: HasPrefix_iff prefix_def)

lemma ReplaceAll_free:
  "\<not> blends v new \<Longrightarrow> \<not> sublist v (pre @ s) \<Longrightarrow> \<not> sublist v (pre @ ReplaceAll s old new)"
proof (induction s old new arbitrary: pre rule: ReplaceAll.induct)
  case (1 s old new)
  show ?case
  proof (cases "s = [] \<or> old = []")
    case True
    then show ?thesis using 1(4) by (subst ReplaceAll.simps) simp
  next
    case False
    show ?thesis
    proof (cases "HasPrefix s old")
      case True
      have "sublist (drop (length old) s) (pre @ s)" "sublist pre (pre @ s)"
        by (metis append_assoc append_take_drop_id sublist_appendI append_Nil2, simp)
      then have "\<not> sublist v (drop (length old) s)" "\<not> sublist v pre" using 1(4) sublist_order.order_trans by blast+
      then have "\<not> sublist v (ReplaceAll (drop (length old) s) old new)"
        using "1.IH"(1) [OF False True 1(3), of "[]"] by simp
      then show ?thesis using not_sublist_around [OF 1(3) \<open>\<not> sublist v pre\<close>] False True by (subst ReplaceAll.simps) simp
    next
      case no: False
      have "\<not> sublist v ((pre @ [hd s]) @ tl s)" using 1(4) False by simp
      from "1.IH"(2) [OF False no 1(3) this] show ?thesis using False no by (subst ReplaceAll.simps) simp
    qed
  qed
qed

text \<open>A replaced value is gone: no occurrence can start in what the scan has passed.\<close>

lemma ReplaceAll_removes:
  "\<not> blends v new \<Longrightarrow> v \<noteq> [] \<Longrightarrow> \<forall>i < length pre. \<not> prefix v (drop i (pre @ s)) \<Longrightarrow> \<not> sublist v (pre @ ReplaceAll s v new)"
proof (induction s v new arbitrary: pre rule: ReplaceAll.induct)
  case (1 s v new)
  have pre: "\<not> sublist v pre"
  proof
    assume "sublist v pre"
    then obtain a b where ab: "pre = a @ v @ b" by (auto simp: sublist_def)
    then have "length a < length pre" "prefix v (drop (length a) (pre @ s))" using 1(4) by simp_all
    then show False using 1(5) by blast
  qed
  show ?case
  proof (cases "s = []")
    case True
    then show ?thesis using pre by (subst ReplaceAll.simps) simp
  next
    case False
    then have ne: "\<not> (s = [] \<or> v = [])" using 1(4) by simp
    show ?thesis
    proof (cases "HasPrefix s v")
      case True
      have "\<not> sublist v (ReplaceAll (drop (length v) s) v new)" using "1.IH"(1) [OF ne True 1(3,4), of "[]"] by simp
      then show ?thesis using not_sublist_around [OF 1(3) pre] ne True by (subst ReplaceAll.simps) simp
    next
      case no: False
      have "\<forall>i < length (pre @ [hd s]). \<not> prefix v (drop i ((pre @ [hd s]) @ tl s))"
      proof (intro allI impI)
        fix i assume "i < length (pre @ [hd s])"
        then consider "i < length pre" | "i = length pre" by fastforce
        then show "\<not> prefix v (drop i ((pre @ [hd s]) @ tl s))" using 1(5) no False by cases (simp_all add: HasPrefix_prefix)
      qed
      from "1.IH"(2) [OF ne no 1(3,4) this] show ?thesis using ne no by (subst ReplaceAll.simps) simp
    qed
  qed
qed


definition replacements :: "string list" where
  "replacements = [redacted, ''Bearer '' @ redacted, ''Authorization: '' @ redacted]"

lemma shapes_free:
  assumes "\<forall>new \<in> set replacements. \<not> blends v new" and "\<not> sublist v s"
    and "\<forall>(re, new) \<in> set shapes. new \<in> set replacements"
  shows "\<not> sublist v (foldl (\<lambda>s (re, new). ReplaceAllString rx re s new) s shapes)"
  using assms(2,3)
proof (induction shapes arbitrary: s)
  case (Cons sh shapes)
  obtain re new where sh: "sh = (re, new)" by (cases sh)
  have "\<not> sublist v (ReplaceAllString rx re s new)"
    using replace_spans_free [OF Cons.prems(1), of new] assms(1) Cons.prems(2) by (auto simp: ReplaceAllString_def sh)
  then show ?case using Cons by (simp add: sh)
qed simp

lemma values_free:
  assumes "\<not> blends v redacted" and "\<not> sublist v s"
  shows "\<not> sublist v (foldl (\<lambda>s w. ReplaceAll s w redacted) s vs)"
  using assms(2)
proof (induction vs arbitrary: s)
  case (Cons w vs)
  then show ?case using ReplaceAll_free [OF assms(1), of "[]" s w] by simp
qed simp

lemma values_remove:
  assumes "\<not> blends v redacted" and "v \<noteq> []" and "v \<in> set vs"
  shows "\<not> sublist v (foldl (\<lambda>s w. ReplaceAll s w redacted) s vs)"
  using assms(3)
proof (induction vs arbitrary: s)
  case (Cons w vs)
  show ?case
  proof (cases "v = w")
    case True
    have "\<not> sublist v (ReplaceAll s v redacted)" using ReplaceAll_removes [OF assms(1,2), of "[]"] by simp
    then show ?thesis using values_free [OF assms(1)] True by simp
  qed (use Cons in simp)
qed simp

lemma Redact_removes:
  assumes "v \<in> set (envValues r)" and "v \<noteq> []" and "\<forall>new \<in> set replacements. \<not> blends v new"
  shows "\<not> sublist v (Redact rx r s)"
proof -
  have "\<not> sublist v (foldl (\<lambda>s w. ReplaceAll s w redacted) s (envValues r))"
    using values_remove assms by (simp add: replacements_def)
  moreover have "\<forall>(re, new) \<in> set secret_shapes. new \<in> set replacements" by (simp add: secret_shapes_def replacements_def)
  ultimately show ?thesis unfolding Redact_def by (rule shapes_free [OF assms(3)])
qed

lemma secret_values_mono: "set vals \<subseteq> set (secret_values env vals)"
proof (induction env arbitrary: vals)
  case (Cons kv env)
  have "set vals \<subseteq> set (secret_values env (vals @ [x]))" for x using Cons.IH [of "vals @ [x]"] by auto
  then show ?case using Cons.IH by (auto split: option.split)
qed simp

lemma secret_values_mem:
  "kv \<in> set env \<Longrightarrow> Cut kv (CHR ''='') = Some (name, v) \<Longrightarrow> v \<noteq> [] \<Longrightarrow> secret_name name \<Longrightarrow> v \<in> set (secret_values env vals)"
proof (induction env arbitrary: vals)
  case (Cons k env)
  show ?case
  proof (cases "k = kv")
    case True
    then show ?thesis using Cons.prems(2-4) secret_values_mono [of vals env] secret_values_mono [of "vals @ [v]" env] by auto
  next
    case False
    then have "kv \<in> set env" using Cons.prems(1) by simp
    then have "v \<in> set (secret_values env ws)" for ws using Cons.IH Cons.prems(2-4) by blast
    then show ?thesis by (auto split: option.split)
  qed
qed simp

lemma NewRedactor_mem:
  assumes "kv \<in> set environ" and "Cut kv (CHR ''='') = Some (name, v)" and "v \<noteq> []" and "secret_name name"
  shows "v \<in> set (envValues (NewRedactor environ))"
  using secret_values_mem [OF assms(1,2,3,4)] by (simp add: NewRedactor_def)

section \<open>The writer, whatever the chunks\<close>

text \<open>The reference: the complete lines of a text with their line feeds, and what is left.\<close>

fun split_lines :: "string \<Rightarrow> string list \<times> string" where
  "split_lines [] = ([], [])"
| "split_lines (c # s) = (let (ls, r) = split_lines s in
     if c = LF then ([c] # ls, r) else (case ls of [] \<Rightarrow> ([], c # r) | l # ls' \<Rightarrow> ((c # l) # ls', r)))"

definition text_lines :: "string \<Rightarrow> string list" where
  "text_lines s = (case split_lines s of (ls, r) \<Rightarrow> ls @ (if r = [] then [] else [r]))"

lemma split_lines_line: "LF \<notin> set a \<Longrightarrow> split_lines (a @ LF # b) = (case split_lines b of (ls, r) \<Rightarrow> ((a @ [LF]) # ls, r))"
  by (induction a) (auto simp: Let_def split: prod.split)

lemma split_lines_none: "LF \<notin> set a \<Longrightarrow> split_lines a = ([], a)"
  by (induction a) (auto simp: Let_def)

lemma Cut_None_iff: "Cut s c = None \<longleftrightarrow> c \<notin> set s"
  by (induction s) auto

lemma split_lines_append:
  "split_lines (s @ t) = (case split_lines s of (ls, r) \<Rightarrow> case split_lines (r @ t) of (ls', r') \<Rightarrow> (ls @ ls', r'))"
proof (induction s rule: measure_induct_rule [of length])
  case (less s)
  show ?case
  proof (cases "Cut s LF")
    case None
    then show ?thesis using split_lines_none by (simp add: Cut_None_iff split: prod.split)
  next
    case (Some p)
    obtain a b where p: "p = (a, b)" by (cases p)
    then have s: "s = a @ LF # b" "LF \<notin> set a" using Cut_Some_append Some by blast+
    then show ?thesis using less.IH [of b] by (auto simp: split_lines_line split: prod.splits)
  qed
qed

text \<open>A sink over a file that does not fail.\<close>

definition sink_ok :: "log_sink \<Rightarrow> bool" where
  "sink_ok w \<longleftrightarrow> lf_fault (ls_file w) = (\<lambda>_. None)"

lemma file_Write_ok: "lf_fault f = (\<lambda>_. None) \<Longrightarrow>
    file_Write p f = (None, f\<lparr>lf_writes := Suc (lf_writes f), lf_data := lf_data f @ p\<rparr>)"
  by (simp add: file_Write_def)

lemma write_lines_ok:
  assumes "sink_ok w"
  shows "\<exists>n. write_lines rx r w = (None, w\<lparr>ls_buf := snd (split_lines (ls_buf w)),
    ls_file := (ls_file w)\<lparr>lf_writes := n, lf_data := lf_data (ls_file w) @ concat (map (Redact rx r) (fst (split_lines (ls_buf w))))\<rparr>\<rparr>)"
  using assms
proof (induction rx r w rule: write_lines.induct)
  case (1 rx r w)
  show ?case
  proof (cases "Cut (ls_buf w) LF")
    case None
    then have "split_lines (ls_buf w) = ([], ls_buf w)" by (simp add: Cut_None_iff split_lines_none)
    moreover have "write_lines rx r w = (None, w)" by (subst write_lines.simps) (simp add: None)
    ultimately show ?thesis by (intro exI [of _ "lf_writes (ls_file w)"]) simp
  next
    case (Some p)
    obtain a b where p: "p = (a, b)" by (cases p)
    have s: "ls_buf w = a @ LF # b" "LF \<notin> set a" using Cut_Some_append Some p by blast+
    let ?f = "(ls_file w)\<lparr>lf_writes := Suc (lf_writes (ls_file w)), lf_data := lf_data (ls_file w) @ Redact rx r (a @ [LF])\<rparr>"
    have f: "file_Write (Redact rx r (a @ [LF])) (ls_file w) = (None, ?f)" using 1(2) by (simp add: file_Write_ok sink_ok_def)
    have ok: "sink_ok \<lparr>ls_buf = b, ls_file = ?f\<rparr>" using 1(2) by (simp add: sink_ok_def)
    have step: "write_lines rx r w = write_lines rx r \<lparr>ls_buf = b, ls_file = ?f\<rparr>"
      by (subst write_lines.simps) (simp only: Some p f option.case prod.case)
    obtain n where "write_lines rx r \<lparr>ls_buf = b, ls_file = ?f\<rparr> = (None, \<lparr>ls_buf = snd (split_lines b),
        ls_file = ?f\<lparr>lf_writes := n, lf_data := lf_data ?f @ concat (map (Redact rx r) (fst (split_lines b)))\<rparr>\<rparr>)"
      using "1.IH" [OF Some p [symmetric] f [symmetric] refl ok] by auto
    then show ?thesis unfolding step using s by (intro exI [of _ n]) (simp add: split_lines_line split: prod.split)
  qed
qed


text \<open>The sink as a function of the text it was given: the complete lines are in the file, redacted one by one, the
  rest is in the buffer.\<close>

definition sink_holds :: "finder \<Rightarrow> redactor \<Rightarrow> string \<Rightarrow> string \<Rightarrow> log_sink \<Rightarrow> bool" where
  "sink_holds rx r before s w \<longleftrightarrow> sink_ok w \<and> ls_buf w = snd (split_lines s) \<and>
     lf_data (ls_file w) = before @ concat (map (Redact rx r) (fst (split_lines s)))"

lemma sink_Write_holds:
  assumes "sink_holds rx r before s w"
  shows "fst (sink_Write rx r p w) = None \<and> sink_holds rx r before (s @ p) (snd (sink_Write rx r p w))"
proof -
  obtain ls b where s: "split_lines s = (ls, b)" by fastforce
  obtain ls' b' where sp: "split_lines (b @ p) = (ls', b')" by fastforce
  have w: "ls_buf w = b" "lf_data (ls_file w) = before @ concat (map (Redact rx r) ls)" "sink_ok w"
    using assms s by (simp_all add: sink_holds_def)
  then have "sink_ok (w\<lparr>ls_buf := b @ p\<rparr>)" by (simp add: sink_ok_def)
  from write_lines_ok [OF this, of rx r] obtain n where "sink_Write rx r p w = (None, w\<lparr>ls_buf := b',
      ls_file := (ls_file w)\<lparr>lf_writes := n, lf_data := lf_data (ls_file w) @ concat (map (Redact rx r) ls')\<rparr>\<rparr>)"
    using w(1) sp by (auto simp: sink_Write_def)
  moreover have "split_lines (s @ p) = (ls @ ls', b')" unfolding split_lines_append [of s p] s prod.case sp ..
  ultimately show ?thesis using w by (simp add: sink_holds_def sink_ok_def)
qed

lemma io_Copy_holds:
  assumes "sink_holds rx r before s w"
  shows "\<exists>w'. io_Copy rx r ps n w = (n + length (concat ps), None, [], w') \<and> sink_holds rx r before (s @ concat ps) w'"
  using assms
proof (induction ps arbitrary: n s w)
  case (Cons p ps)
  obtain w1 where w1: "sink_Write rx r p w = (None, w1)" "sink_holds rx r before (s @ p) w1"
    using sink_Write_holds [OF Cons.prems, of p] by (cases "sink_Write rx r p w") simp
  obtain w' where "io_Copy rx r ps (n + length p) w1 = (n + length p + length (concat ps), None, [], w')"
    "sink_holds rx r before ((s @ p) @ concat ps) w'" using Cons.IH [OF w1(2), of "n + length p"] by blast
  then show ?case by (simp add: w1(1) add.assoc)
qed simp

lemma sink_Close_holds:
  assumes "sink_holds rx r before s w"
  shows "lf_data (ls_file (snd (sink_Close rx r w))) = before @ concat (map (Redact rx r) (text_lines s))"
  using assms by (auto simp: sink_Close_def sink_holds_def sink_ok_def text_lines_def file_Write_ok split: prod.split)

lemma newLogSink_holds: "sink_holds rx r before [] (newLogSink (\<lambda>_. None) before)"
  by (simp add: sink_holds_def sink_ok_def newLogSink_def)

lemma LimitReader_concat: "LimitReader n ps = (qs, rest) \<Longrightarrow> concat qs = take n (concat ps) \<and> concat rest = drop n (concat ps)"
  by (induction n ps arbitrary: qs rest rule: LimitReader.induct) (auto simp: Let_def split: if_splits prod.splits)

lemma capture_contents:
  "cap_unread (capture rx r limit chunks (newLogSink (\<lambda>_. None) before)) = [] \<and>
   (let kept = (if limit \<le> 0 then concat chunks else take (nat limit) (concat chunks));
        c = capture rx r limit chunks (newLogSink (\<lambda>_. None) before)
    in lf_data (ls_file (cap_sink c)) = before @ concat (map (Redact rx r) (text_lines kept)) \<and>
       cap_truncated c = length (concat chunks) - length kept)"
proof -
  note new = newLogSink_holds [of rx r before]
  show ?thesis
  proof (cases "limit \<le> 0")
    case True
    obtain w' where "io_Copy rx r chunks 0 (newLogSink (\<lambda>_. None) before) = (length (concat chunks), None, [], w')"
      "sink_holds rx r before (concat chunks) w'" using io_Copy_holds [OF new, of chunks 0] by auto
    then show ?thesis using True sink_Close_holds by (simp add: capture_def)
  next
    case False
    obtain qs rest where q: "LimitReader (nat limit) chunks = (qs, rest)" by fastforce
    obtain w' where "io_Copy rx r qs 0 (newLogSink (\<lambda>_. None) before) = (length (concat qs), None, [], w')"
      "sink_holds rx r before (concat qs) w'" using io_Copy_holds [OF new, of qs 0] by auto
    then show ?thesis using False q LimitReader_concat [OF q] sink_Close_holds
      by (auto simp: capture_def Let_def)
  qed
qed

text \<open>C36: the log of a stream does not depend on how the bytes arrive: however the child's output is cut into reads, a
  log that can be written gets the output's lines, each redacted by itself, up to the bound; the child is never
  blocked by unread output, and exactly the bytes beyond the bound are counted as truncated.\<close>

theorem capture_by_lines:
  "cap_unread (capture rx r limit chunks (newLogSink (\<lambda>_. None) before)) = [] \<and>
   (let kept = (if limit \<le> 0 then concat chunks else take (nat limit) (concat chunks));
        c = capture rx r limit chunks (newLogSink (\<lambda>_. None) before)
    in lf_data (ls_file (cap_sink c)) = before @ concat (map (Redact rx r) (text_lines kept)) \<and>
       cap_truncated c = length (concat chunks) - length kept)"
  by (rule capture_contents)

text \<open>A log that cannot be written is different. With a bound the rest of the output is still drained; without
  one, which is how the daemon starts every child, the copy just stops: what the child writes from then on is
  never read.\<close>

lemma capture_after_write_error:
  assumes "sink_Write rx r p (newLogSink fault before) = (Some e, w)"
  shows "cap_unread (capture rx r 0 (p # ps) (newLogSink fault before)) = ps"
    and "0 < limit \<Longrightarrow> cap_unread (capture rx r limit (p # ps) (newLogSink fault before)) = []"
  using assms by (simp_all add: capture_def split: prod.split)


section \<open>No secret in an attempt log\<close>

lemma ReplaceAll_LF:
  "w \<noteq> [] \<Longrightarrow> last w \<noteq> LF \<Longrightarrow> ReplaceAll (s @ [LF]) w new = ReplaceAll s w new @ [LF]"
proof (induction s w new rule: ReplaceAll.induct)
  case (1 s w new)
  have p: "HasPrefix (s @ [LF]) w \<longleftrightarrow> HasPrefix s w" using 1(3,4) by (auto simp: HasPrefix_prefix prefix_snoc)
  show ?case
  proof (cases "s = []")
    case True
    have "\<not> HasPrefix [LF] w" using p True 1(3) by (simp add: HasPrefix_prefix)
    then show ?thesis using True 1(3) by (simp add: ReplaceAll.simps)
  next
    case False
    then have ne: "\<not> (s = [] \<or> w = [])" using 1(3) by simp
    show ?thesis
    proof (cases "HasPrefix s w")
      case True
      then have "length w \<le> length s" by (simp add: HasPrefix_prefix prefix_length_le)
      then show ?thesis using "1.IH"(1) [OF ne True 1(3,4)] True ne p
        by (simp add: ReplaceAll.simps [of "s @ [LF]"] ReplaceAll.simps [of s])
    next
      case no: False
      show ?thesis using "1.IH"(2) [OF ne no 1(3,4)] no ne p
        by (simp add: ReplaceAll.simps [of "s @ [LF]"] ReplaceAll.simps [of s])
    qed
  qed
qed

lemma replace_spans_LF:
  "pos \<le> length s \<Longrightarrow> \<forall>(a, b) \<in> set ms. a \<le> length s \<and> b \<le> length s \<Longrightarrow>
     replace_spans pos ms (s @ [LF]) new = replace_spans pos ms s new @ [LF]"
  by (induction ms arbitrary: pos) auto

lemma ReplaceAll_set: "set (ReplaceAll s w new) \<subseteq> set s \<union> set new"
proof (induction s w new rule: ReplaceAll.induct)
  case (1 s w new)
  show ?case
  proof (cases "s = [] \<or> w = []")
    case True
    then show ?thesis by (subst ReplaceAll.simps) simp
  next
    case ne: False
    show ?thesis
    proof (cases "HasPrefix s w")
      case True
      then show ?thesis using "1.IH"(1) [OF ne True] ne set_drop_subset [of "length w" s] by (subst ReplaceAll.simps) auto
    next
      case no: False
      then show ?thesis using "1.IH"(2) [OF ne no] ne by (subst ReplaceAll.simps) (cases s; auto)
    qed
  qed
qed

lemma replace_spans_set: "set (replace_spans pos ms s new) \<subseteq> set s \<union> set new"
proof (induction ms arbitrary: pos)
  case (Cons m ms)
  obtain a b where m: "m = (a, b)" by (cases m)
  have "set (take (a - pos) (drop pos s)) \<subseteq> set s" by (meson dual_order.trans set_drop_subset set_take_subset)
  then show ?case using Cons.IH [of b] by (simp add: m) blast
qed (simp add: set_drop_subset le_supI1)

text \<open>What is documented of the patterns on a line: \<open>$\<close> and \<open>.\<close> stop before the line feed, and after \<open>\s+\<close> a match goes on
  with at least eight other characters, so no match takes the line's end.\<close>

definition keeps_line_end :: "finder \<Rightarrow> bool" where
  "keeps_line_end rx \<longleftrightarrow> (\<forall>re s. LF \<notin> set s \<longrightarrow> (\<forall>(a, b) \<in> set (rx re (s @ [LF])). a \<le> length s \<and> b \<le> length s))"

lemma Redact_line:
  assumes "LF \<notin> set s" and "\<forall>w \<in> set (envValues r). w \<noteq> [] \<and> last w \<noteq> LF" and "keeps_line_end rx"
  shows "\<exists>t. Redact rx r (s @ [LF]) = t @ [LF] \<and> LF \<notin> set t"
proof -
  have vals: "\<exists>t. foldl (\<lambda>s v. ReplaceAll s v redacted) (s @ [LF]) vs = t @ [LF] \<and> LF \<notin> set t"
    if "LF \<notin> set s" "\<forall>w \<in> set vs. w \<noteq> [] \<and> last w \<noteq> LF" for s vs
    using that
  proof (induction vs arbitrary: s)
    case (Cons w vs)
    have "LF \<notin> set (ReplaceAll s w redacted)" using ReplaceAll_set [of s w redacted] Cons.prems(1) by (auto simp: redacted_def)
    then show ?case using Cons.IH Cons.prems ReplaceAll_LF [of w s redacted] by simp
  qed simp
  have shapes: "\<exists>t. foldl (\<lambda>s (re, new). ReplaceAllString rx re s new) (s @ [LF]) shs = t @ [LF] \<and> LF \<notin> set t"
    if "LF \<notin> set s" "\<forall>(re, new) \<in> set shs. LF \<notin> set new" for s shs
    using that
  proof (induction shs arbitrary: s)
    case (Cons sh shs)
    obtain re new where sh: "sh = (re, new)" by (cases sh)
    have "\<forall>(a, b) \<in> set (rx re (s @ [LF])). a \<le> length s \<and> b \<le> length s" using assms(3) Cons.prems(1) by (simp add: keeps_line_end_def)
    from replace_spans_LF [OF _ this, of 0 new]
    have e: "ReplaceAllString rx re (s @ [LF]) new = replace_spans 0 (rx re (s @ [LF])) s new @ [LF]" by (simp add: ReplaceAllString_def)
    have "LF \<notin> set (replace_spans 0 (rx re (s @ [LF])) s new)"
      using replace_spans_set [of 0 "rx re (s @ [LF])" s new] Cons.prems by (auto simp: sh)
    then show ?case using Cons.IH Cons.prems(2) e by (simp add: sh)
  qed simp
  obtain t where t: "foldl (\<lambda>s v. ReplaceAll s v redacted) (s @ [LF]) (envValues r) = t @ [LF]" "LF \<notin> set t"
    using vals [OF assms(1,2)] by blast
  have "\<forall>(re, new) \<in> set secret_shapes. LF \<notin> set new" by (simp add: secret_shapes_def redacted_def)
  from shapes [OF t(2) this] show ?thesis by (simp only: Redact_def t(1))
qed

lemma split_lines_ends: "l \<in> set (fst (split_lines s)) \<Longrightarrow> \<exists>a. l = a @ [LF] \<and> LF \<notin> set a"
proof (induction s arbitrary: l)
  case (Cons c s)
  obtain ls r where s: "split_lines s = (ls, r)" by fastforce
  consider "c = LF" "l = [LF]" | "l \<in> set ls" | m where "c \<noteq> LF" "m \<in> set ls" "l = c # m"
    using Cons.prems s by (auto simp: Let_def split: if_splits list.splits)
  then show ?case
  proof cases
    case (3 m)
    then obtain a where "m = a @ [LF]" "LF \<notin> set a" using Cons.IH s by auto
    then show ?thesis using 3 by (intro exI [of _ "c # a"]) simp
  qed (use Cons.IH s in auto)
qed simp

lemma blends_common:
  assumes "blends v new" and "v \<noteq> []" and "new \<noteq> []"
  shows "set v \<inter> set new \<noteq> {}"
proof -
  have piece: "set v \<inter> set new \<noteq> {}" if "x \<noteq> []" "set x \<subseteq> set v" "set x \<subseteq> set new" for x
    using that by (cases x) auto
  consider "sublist v new" | "sublist new v" | k where "k < length v" "prefix (drop k v) new" | k where "k < length v" "suffix (take (Suc k) v) new"
    using assms(1) by (auto simp: blends_def list_ex_iff)
  then show ?thesis
  proof cases
    case 1
    then show ?thesis using piece [of v] assms(2) set_mono_sublist by blast
  next
    case 2
    then show ?thesis using piece [of new] assms(3) set_mono_sublist by blast
  next
    case (3 k)
    then show ?thesis using piece [of "drop k v"] set_mono_prefix set_drop_subset by (metis drop_eq_Nil leD)
  next
    case (4 k)
    then have "take (Suc k) v \<noteq> []" using assms(2) by simp
    then show ?thesis using 4 piece set_mono_suffix set_take_subset by metis
  qed
qed

lemma lines_free:
  assumes "LF \<notin> set v" and "v \<noteq> []" and "\<not> sublist v y"
    and "\<forall>l \<in> set ls. \<not> sublist v l \<and> (\<exists>t. l = t @ [LF])"
  shows "\<not> sublist v (concat ls @ y)"
  using assms(4)
proof (induction ls)
  case (Cons l ls)
  obtain t where t: "l = t @ [LF]" using Cons.prems by auto
  have "\<not> blends v [LF]" using blends_common [OF _ assms(2), of "[LF]"] assms(1) by auto
  moreover have "\<not> sublist v t" using Cons.prems t by (auto simp: sublist_append)
  ultimately show ?case using not_sublist_around [of v "[LF]" t "concat ls @ y"] Cons t by simp
qed (use assms(3) in simp)




text \<open>A secret of several lines is another matter: the writer redacts line by line, so no line contains it, and a
  private key in a variable reaches the log as it is.\<close>

lemma multiline_secret_is_logged:
  "lf_data (ls_file (cap_sink (capture (\<lambda>_ _. []) (NewRedactor [''DEPLOY_KEY=ab'' @ [LF] @ ''cd'']) 0
     [''ab'' @ [LF] @ ''cd''] (newLogSink (\<lambda>_. None) [])))) = ''ab'' @ [LF] @ ''cd''"
  by code_simp

section \<open>The end of a follow\<close>

text \<open>The reads of a follower see a file that only grows.\<close>

definition growing :: "poll list \<Rightarrow> bool" where
  "growing ps \<longleftrightarrow> sorted_wrt (\<lambda>p q. prefix (po_contents p) (po_contents q)) ps"


lemma follow_gen:
  assumes "\<forall>q \<in> set qs. 0 < po_room q \<and> prefix seen (po_contents q)" and "growing qs"
    and "follow qs (length seen) = (out, ended)" and "qs \<noteq> []"
  shows "prefix (seen @ out) (po_contents (last qs)) \<and> (ended \<longrightarrow> (\<exists>q \<in> set qs. po_canceled q \<and> seen @ out = po_contents q))"
  using assms
proof (induction qs arbitrary: seen out)
  case (Cons p ps)
  obtain z where z: "po_contents p = seen @ z" using Cons.prems(1) by (auto simp: prefix_def)
  define new where "new = take (po_room p) z"
  have grow: "growing ps" "\<forall>q \<in> set ps. prefix (po_contents p) (po_contents q)" using Cons.prems(2) by (simp_all add: growing_def)
  have run: "(if new \<noteq> [] then (case follow ps (length (seen @ new)) of (out, d) \<Rightarrow> (new @ out, d))
      else if po_canceled p then ([], True) else follow ps (length seen)) = (out, ended)"
  proof -
    have "drop (length seen) (po_contents p) = z" by (simp add: z)
    then show ?thesis using Cons.prems(3) by (simp only: follow.simps new_def [symmetric] Let_def length_append)
  qed
  show ?case
  proof (cases "new = []")
    case True
    then have "po_contents p = seen" using z new_def Cons.prems(1) by auto
    then show ?thesis using run True Cons.IH [of seen out] Cons.prems(1) grow by (cases ps) (auto split: if_splits)
  next
    case False
    obtain out' where out': "follow ps (length (seen @ new)) = (out', ended)" "out = new @ out'"
      using run False by (auto split: prod.splits)
    have pre: "prefix (seen @ new) (po_contents p)" by (simp add: z new_def take_is_prefix)
    then have "\<forall>q \<in> set ps. 0 < po_room q \<and> prefix (seen @ new) (po_contents q)"
      using grow(2) Cons.prems(1) by (auto intro: prefix_order.order_trans)
    then show ?thesis using Cons.IH [OF _ grow(1) out'(1)] out' pre by (cases "ps = []") auto
  qed
qed simp

text \<open>A follower returns the file's bytes in order and without a gap, and when it ends because it was canceled it has
  returned exactly what the file held at one of its reads: what was written after that read and before the
  cancellation (up to one polling interval) is lost, though the file holds it.\<close>

theorem follow_ends_at_a_read:
  assumes "growing ps" and "\<forall>q \<in> set ps. 0 < po_room q \<and> prefix (po_contents q) final" and "follow ps 0 = (out, ended)"
  shows "prefix out final \<and> (ended \<longrightarrow> (\<exists>q \<in> set ps. po_canceled q \<and> out = po_contents q))"
proof (cases "ps = []")
  case False
  have "\<forall>q \<in> set ps. 0 < po_room q \<and> prefix [] (po_contents q)" using assms(2) by simp
  from follow_gen [OF this assms(1) _ False, of out ended] assms(3)
  have r: "prefix out (po_contents (last ps))" "ended \<longrightarrow> (\<exists>q \<in> set ps. po_canceled q \<and> out = po_contents q)" by simp_all
  moreover have "prefix (po_contents (last ps)) final" using assms(2) False by simp
  ultimately show ?thesis using prefix_order.order_trans by blast
qed (use assms(3) in simp)

theorem follow_ends_at_a_read_witness:
  "follow [\<lparr>po_contents = ''one'', po_room = 9, po_canceled = False\<rparr>, \<lparr>po_contents = ''one'', po_room = 9, po_canceled = True\<rparr>] 0 =
     (''one'', True) \<and> prefix ''one'' ''one two''"
proof -
  let ?ps = "[\<lparr>po_contents = ''one'', po_room = 9, po_canceled = False\<rparr>, \<lparr>po_contents = ''one'', po_room = 9, po_canceled = True\<rparr>]"
  have f: "follow ?ps 0 = (''one'', True)" by code_simp
  have "growing ?ps" by (simp add: growing_def)
  moreover have "\<forall>q \<in> set ?ps. 0 < po_room q \<and> prefix (po_contents q) ''one two''" by simp
  ultimately have "prefix ''one'' ''one two''" using follow_ends_at_a_read [OF _ _ f] by blast
  with f show ?thesis by blast
qed

end
