(* ===== verification/Startup.thy ===== *)
theory Startup
  imports CliTools Output
begin

text \<open>
  How a daemon comes up: the daemon's logger (\<open>internal/logging/logging.go\<close>), the version of the binary
  (\<open>internal/version\<close>), the directories, opening the store (\<open>Open\<close> of \<open>store.go\<close>), building an idle daemon
  (\<open>New\<close> of \<open>daemon.go\<close>), the compiled-in providers (\<open>cmd/defib/main.go\<close>), and two processes that start at the
  same time on one socket path. System calls and the SQL engine are parameters.
\<close>

section \<open>The logger (\<open>logging.go\<close>)\<close>

text \<open>The levels of \<open>log/slog\<close> that the settings name, ordered by severity.\<close>

datatype slog_level = LevelDebug | LevelInfo | LevelWarn | LevelError

fun level_rank :: "slog_level \<Rightarrow> int" where
  "level_rank LevelDebug = -4"
| "level_rank LevelInfo = 0"
| "level_rank LevelWarn = 4"
| "level_rank LevelError = 8"

lemma level_rank_inj: "level_rank a = level_rank b \<Longrightarrow> a = b"
  by (cases a; cases b) simp_all

instantiation slog_level :: linorder
begin

definition less_eq_slog_level :: "slog_level \<Rightarrow> slog_level \<Rightarrow> bool" where
  "less_eq_slog_level a b \<longleftrightarrow> level_rank a \<le> level_rank b"

definition less_slog_level :: "slog_level \<Rightarrow> slog_level \<Rightarrow> bool" where
  "less_slog_level a b \<longleftrightarrow> level_rank a < level_rank b"

instance
  by intro_classes (auto simp: less_eq_slog_level_def less_slog_level_def intro: level_rank_inj)

end

definition ParseLevel :: "string \<Rightarrow> slog_level result" where
  "ParseLevel s =
     (if s = ''debug'' then Inr LevelDebug else if s = ''info'' then Inr LevelInfo
      else if s = ''warn'' then Inr LevelWarn else if s = ''error'' then Inr LevelError
      else Inl (Err (''parse log level '' @ Quote s @ '': unknown level'')))"

record logger =
  lg_path :: string
  lg_level :: slog_level

text \<open>\<open>New\<close> keeps the records of its level and above; \<open>Open\<close> puts it over a file that may not open.\<close>

definition logger_records :: "logger \<Rightarrow> (slog_level \<times> string) list \<Rightarrow> (slog_level \<times> string) list" where
  "logger_records lg rs = filter (\<lambda>(l, _). lg_level lg \<le> l) rs"

definition logging_Open :: "(string \<Rightarrow> go_error option) \<Rightarrow> string \<Rightarrow> string \<Rightarrow> logger result" where
  "logging_Open openFile path level = (case ParseLevel level of Inl e \<Rightarrow> Inl e
     | Inr lvl \<Rightarrow> (case openFile path of
         Some e \<Rightarrow> Inl (Wrap (''open log file '' @ Quote path @ '': '') e [])
       | None \<Rightarrow> Inr \<lparr>lg_path = path, lg_level = lvl\<rparr>))"

lemma logger_records_level: "LevelError \<in> fst ` set (logger_records lg rs) \<longleftrightarrow> LevelError \<in> fst ` set rs"
  by (cases "lg_level lg") (force simp: logger_records_def less_eq_slog_level_def)+

lemma ParseLevel_ok: "(\<exists>l. ParseLevel s = Inr l) \<longleftrightarrow> s \<in> {''debug'', ''info'', ''warn'', ''error''}"
  by (simp add: ParseLevel_def)

section \<open>The version of the binary (\<open>version.go\<close>)\<close>

definition devVersion :: string where
  "devVersion = ''0.0.0-dev''"

definition normalizeBuildVersion :: "string \<Rightarrow> string" where
  "normalizeBuildVersion v = (if v = ''(devel)'' then [] else TrimPrefix v ''v'')"

text \<open>\<open>init\<close>, on the version set at link time and the module version of the build information, if there is any.\<close>

definition moduleVersion :: "string option \<Rightarrow> string" where
  "moduleVersion info = (case info of Some v \<Rightarrow> v | None \<Rightarrow> [])"

definition version_init :: "string \<Rightarrow> string option \<Rightarrow> string" where
  "version_init linked info =
     (if linked \<noteq> devVersion then linked
      else (let v = normalizeBuildVersion (moduleVersion info) in if v \<noteq> [] then v else linked))"

lemma version_init_nonempty: "linked \<noteq> [] \<Longrightarrow> version_init linked info \<noteq> []"
  by (auto simp: version_init_def Let_def)

text \<open>\<open>handlePing\<close>: what the daemon tells of itself.\<close>

definition handlePing :: "string \<Rightarrow> int \<Rightarrow> ping_result" where
  "handlePing version pid = \<lparr>ping_Version = version, ping_SchemaVersion = SchemaVersion, ping_PID = pid\<rparr>"

section \<open>Directories, store and daemon\<close>

text \<open>\<open>Dirs.Ensure\<close>: the directories one after the other, up to the first failure.\<close>

fun ensure_all :: "(string \<Rightarrow> go_error option) \<Rightarrow> string list \<Rightarrow> go_error option" where
  "ensure_all mkdir [] = None"
| "ensure_all mkdir (d # ds) = (case mkdir d of
     Some e \<Rightarrow> Some (Wrap (''ensure directory '' @ Quote d @ '': '') e []) | None \<Rightarrow> ensure_all mkdir ds)"

definition Ensure :: "(string \<Rightarrow> go_error option) \<Rightarrow> dirs \<Rightarrow> go_error option" where
  "Ensure mkdir d = ensure_all mkdir [dir_Config d, dir_State d, dir_Runtime d]"

text \<open>\<open>Open\<close> of the store on the outcomes of opening and reaching the database file, the embedded migrations and the
  database as it is.\<close>

definition store_Open ::
  "go_error option \<Rightarrow> go_error option \<Rightarrow> dir_entry list result \<Rightarrow> (string \<Rightarrow> 's schema_db \<Rightarrow> 's schema_db result)
     \<Rightarrow> (nat \<Rightarrow> tx_fault) \<Rightarrow> string \<Rightarrow> 's schema_db \<Rightarrow> go_error option \<times> 's schema_db" where
  "store_Open opening ping fs exec faults path s =
     (case opening of Some e \<Rightarrow> (Some (Wrap (''open database '' @ Quote path @ '': '') e []), s)
      | None \<Rightarrow> (case ping of Some e \<Rightarrow> (Some (Wrap (''open database '' @ Quote path @ '': '') e []), s)
      | None \<Rightarrow> (case loadMigrations fs of
          Inl e \<Rightarrow> (Some (Wrap (''open database '' @ Quote path @ '': load migrations: '') e []), s)
        | Inr ms \<Rightarrow> (case migrate exec faults ms s of
            (Some e, s') \<Rightarrow> (Some (Wrap (''open database '' @ Quote path @ '': '') e []), s')
          | (None, s') \<Rightarrow> (None, s')))))"

text \<open>Opening again what was opened changes nothing, whatever SQL the migrations have by then: none is run twice.\<close>

lemma apply_pending_none: "\<forall>m \<in> set ms. mig_version m \<le> cur \<Longrightarrow> apply_pending exec faults cur ms s = (None, s)"
  by (induction ms arbitrary: faults) auto

lemma store_Open_again:
  assumes "store_Open None None fs exec faults path s = (None, s')" and "loadMigrations fs = Inr ms"
    and "\<forall>m \<in> set ms. in_i64 (mig_version m) \<and> mig_version m \<le> SchemaVersion"
  shows "store_Open None None fs exec' faults' path s' = (None, s')"
proof -
  have m: "migrate exec faults ms s = (None, s')" using assms(1,2) by (auto simp: store_Open_def split: prod.splits option.splits)
  then obtain cur where cur: "currentVersion s = Inr cur" "cur \<le> SchemaVersion"
    by (auto simp: migrate_def split: sum.splits if_splits)
  have "sorted (map mig_version ms)" using assms(2) by (auto simp: loadMigrations_def split: sum.splits)
  then have v: "currentVersion s' = Inr (Max (insert cur (mig_version ` set ms)))"
    using migrate_version [OF m _ _ cur(1)] assms(3) by blast
  define mx where "mx = Max (insert cur (mig_version ` set ms))"
  have "mx \<le> SchemaVersion" "\<forall>m \<in> set ms. mig_version m \<le> mx" using cur(2) assms(3) by (simp_all add: mx_def)
  then have "migrate exec' faults' ms s' = (None, s')" using v apply_pending_none by (simp add: migrate_def mx_def [symmetric])
  then show ?thesis using assms(2) by (simp add: store_Open_def)
qed

text \<open>\<open>New\<close> with the redactor of the environment: an idle daemon over the tables it found.\<close>

definition New :: "(string \<Rightarrow> go_error option) \<Rightarrow> (string \<Rightarrow> db result) \<Rightarrow> string list \<Rightarrow> dirs \<Rightarrow> (redactor \<times> daemon) result" where
  "New mkdir open_store environ dirs = (case Ensure mkdir dirs of Some e \<Rightarrow> Inl (Wrap ''daemon: '' e [])
     | None \<Rightarrow> (case open_store (filepath_Join [dir_State dirs, ''defib.db'']) of Inl e \<Rightarrow> Inl (Wrap ''daemon: '' e [])
       | Inr d \<Rightarrow> Inr (NewRedactor environ,
           \<lparr>dm_world = \<lparr>w_db = d, w_timers = NewTimers, w_pstate = Map.empty, w_step = 0, w_rng = 0, w_trace = []\<rparr>,
            dm_runtimes = Map.empty, dm_bus = newBus, dm_hooks = [], dm_shutdown = None\<rparr>)))"

text \<open>The invariant of the daemon's steps holds of a new one when it holds of the tables.\<close>

lemma New_ok: "New mkdir open_store environ dirs = Inr (r, d) \<Longrightarrow> (\<And>p t. open_store p = Inr t \<Longrightarrow> db_numbered t) \<Longrightarrow> daemon_ok d"
  by (auto simp: New_def daemon_ok_def split: option.splits sum.splits)

section \<open>The compiled-in providers\<close>

fun register_all :: "provider list \<Rightarrow> registry \<Rightarrow> registry result" where
  "register_all [] r = Inr r"
| "register_all (p # ps) r = (case registry_Register p r of Inl e \<Rightarrow> Inl e | Inr r' \<Rightarrow> register_all ps r')"

definition registerProviders :: "string result \<Rightarrow> (string \<Rightarrow> (string \<times> string \<times> string) option) \<Rightarrow> registry \<Rightarrow> registry result" where
  "registerProviders exe decode r = register_all [fake exe, claude decode, copilot] r"

lemma registerProviders_fresh:
  "\<exists>r. registerProviders exe decode [] = Inr r \<and> map p_Name (registry_List r) = [''claude'', ''copilot'', ''fake''] \<and>
     registry_Get r ''claude'' = Inr (claude decode)"
proof -
  have le: "''claude'' \<le> ''copilot''" "''copilot'' \<le> ''fake''" "''claude'' \<le> ''fake''" "\<not> ''copilot'' \<le> ''claude''"
    "\<not> ''fake'' \<le> ''copilot''" "\<not> ''fake'' \<le> ''claude''" by code_simp+
  have names: "p_Name (fake exe) = ''fake''" "p_Name (claude decode) = ''claude''" "p_Name copilot = ''copilot''"
    by (simp_all add: fake_def claude_def copilot_def)
  show ?thesis by (simp add: registerProviders_def registry_Register_def registry_List_def registry_Get_def names le)
qed

section \<open>The main function\<close>

text \<open>What \<open>runDaemon\<close> does, in order: its steps and the error it ends with. The outcomes of the steps are parameters, and
  so is what ends the serving.\<close>

datatype main_step = OpenStore | Reconciling | ListenOn string | Serving | StopChildren | StopServing | RemoveSocket | CloseDaemon

datatype main_end = ShutdownRequest bool | SignalReceived | ServeEnded "go_error option"

record main_env =
  mn_resolve :: "config result"
  mn_openFile :: "string \<Rightarrow> go_error option"
  mn_mkdir :: "string \<Rightarrow> go_error option"
  mn_store :: "string \<Rightarrow> db result"
  mn_environ :: "string list"
  mn_reconcile :: "go_error option"
  mn_listen :: "go_error option"
  mn_end :: main_end

definition runDaemon :: "main_env \<Rightarrow> dirs \<Rightarrow> main_step list \<times> go_error option" where
  "runDaemon M d =
     (case mn_resolve M of Inl e \<Rightarrow> ([], Some e)
      | Inr cfg \<Rightarrow> (case logging_Open (mn_openFile M) (filepath_Join [dir_State d, ''daemon.log'']) (l_Level (c_Logging cfg)) of
        Inl e \<Rightarrow> ([], Some e)
      | Inr lg \<Rightarrow> (case New (mn_mkdir M) (mn_store M) (mn_environ M) d of Inl e \<Rightarrow> ([], Some e)
      | Inr rd \<Rightarrow> (case mn_reconcile M of Some e \<Rightarrow> ([OpenStore, Reconciling, CloseDaemon], Some e)
      | None \<Rightarrow>
        (let sock = filepath_Join [dir_Runtime d, ''daemon.sock''] in
         case mn_listen M of Some e \<Rightarrow> ([OpenStore, Reconciling, ListenOn sock, CloseDaemon], Some e)
         | None \<Rightarrow>
           (let (steps, err) = (case mn_end M of
                  ShutdownRequest killing \<Rightarrow> ((if killing then [StopChildren] else []) @ [StopServing], None)
                | SignalReceived \<Rightarrow> ([StopServing], None)
                | ServeEnded e \<Rightarrow> ([], e))
            in ([OpenStore, Reconciling, ListenOn sock, Serving] @ steps @ [RemoveSocket, CloseDaemon], err)))))))"



definition loud_main :: main_env where
  "loud_main = \<lparr>mn_resolve = override_layer (o_cfg sample_outside) (scalar_fields sample_config) [(''logging.level'', ''verbose'')] sample_config,
     mn_openFile = (\<lambda>_. None), mn_mkdir = (\<lambda>_. None), mn_store = (\<lambda>_. Inl (Err ''unused'')), mn_environ = [],
     mn_reconcile = None, mn_listen = None, mn_end = SignalReceived\<rparr>"


section \<open>Two processes on one socket\<close>

text \<open>What the processes share: the socket's path, with the process that listens behind it, and the pid file. Each
  process goes through the guard of \<open>defib daemon run\<close>, the recovery, and \<open>Listen\<close>; at its end it removes
  the path.\<close>

datatype boot_phase = Guarding | Guarded | Recovered | Serving_as | Refused go_error | Ended

record host =
  h_socket :: "nat option"
  h_pidfile :: "nat option"
  h_phase :: "nat \<Rightarrow> boot_phase"

definition idle_host :: host where
  "idle_host = \<lparr>h_socket = None, h_pidfile = None, h_phase = \<lambda>_. Guarding\<rparr>"

text \<open>A dial reaches a process that listens behind the path.\<close>

definition listener_at :: "host \<Rightarrow> nat option" where
  "listener_at h = (case h_socket h of Some q \<Rightarrow> if h_phase h q = Serving_as then Some q else None | None \<Rightarrow> None)"

definition guard_of :: "client_env \<Rightarrow> host \<Rightarrow> string result" where
  "guard_of E h = (case listener_at h of
     Some q \<Rightarrow> daemon_run_guard (E\<lparr>e_dial := \<lambda>_. None\<rparr>) None
       (Inr (handlePing devVersion (int q))) None
   | None \<Rightarrow> daemon_run_guard (E\<lparr>e_dial := \<lambda>_. Some (Err ''connection refused'')\<rparr>) None (Inl ErrDaemonUnreachable) None)"

text \<open>\<open>Listen\<close> of user \<open>uid\<close> in a directory of its own: a socket file that is there is the user's.\<close>

definition listen_of :: "int \<Rightarrow> string \<Rightarrow> host \<Rightarrow> go_error option \<times> socket_op list" where
  "listen_of uid sock h = Listen uid (filepath_Dir sock) sock
     (StatOk \<lparr>fi_IsDir = True, fi_Uid = Some uid, fi_WorldWritable = False\<rparr>)
     (case h_socket h of Some _ \<Rightarrow> StatOk \<lparr>fi_IsDir = False, fi_Uid = Some uid, fi_WorldWritable = False\<rparr>
      | None \<Rightarrow> StatMissing (Err ''no such file'')) (\<lambda>_. None)"

inductive boot_step :: "client_env \<Rightarrow> int \<Rightarrow> host \<Rightarrow> host \<Rightarrow> bool" for E uid where
  refused: "h_phase h p = Guarding \<Longrightarrow> guard_of E h = Inl e \<Longrightarrow> boot_step E uid h (h\<lparr>h_phase := (h_phase h)(p := Refused e)\<rparr>)"
| guarded: "h_phase h p = Guarding \<Longrightarrow> guard_of E h = Inr sock \<Longrightarrow>
    boot_step E uid h (h\<lparr>h_pidfile := Some p, h_phase := (h_phase h)(p := Guarded)\<rparr>)"
| recovers: "h_phase h p = Guarded \<Longrightarrow> boot_step E uid h (h\<lparr>h_phase := (h_phase h)(p := Recovered)\<rparr>)"
| listens: "h_phase h p = Recovered \<Longrightarrow> fst (listen_of uid sock h) = None \<Longrightarrow>
    boot_step E uid h (h\<lparr>h_socket := Some p, h_phase := (h_phase h)(p := Serving_as)\<rparr>)"
| ends: "h_phase h p = Serving_as \<Longrightarrow>
    boot_step E uid h (h\<lparr>h_socket := None, h_pidfile := None, h_phase := (h_phase h)(p := Ended)\<rparr>)"

lemma listen_replaces: "fst (listen_of uid sock h) = None"
  by (simp add: listen_of_def Listen_def checkSafe_def split: option.split)


lemma guard_refuses:
  assumes "listener_at h = Some q" and "e_dirs E = Inr d"
  shows "guard_of E h = Inl (Err (''daemon already running (pid '' @ Itoa (int q) @ '')''))"
  using assms by (simp add: guard_of_def daemon_run_guard_def handlePing_def)

lemma guard_passes:
  assumes "listener_at h = None" and "e_dirs E = Inr d"
  shows "guard_of E h = Inr (dir_Runtime d @ ''/daemon.sock'')"
  using assms by (simp add: guard_of_def daemon_run_guard_def)



end
