(* ===== verification/Process.thy ===== *)
theory Process
  imports Output Methods
begin

text \<open>
  Child processes (\<open>internal/process\<close>): the checks before one is started, its environment, its life from the
  start to the collected exit code, killing, and the daemon's side of it (\<open>spawn\<close> and \<open>spawnPTY\<close> in
  \<open>daemon.go\<close>): the log files, and the event that reports the exit. A child on a terminal has one stream, any
  other two. The operating system is a parameter: what opening, starting and signalling give.
\<close>

section \<open>Starting\<close>

record proc_spec =
  ps_Argv :: "string list"
  ps_Env :: "(string \<times> string) list"
  ps_Dir :: string
  ps_Writers :: "log_sink option list"

text \<open>What the kernel does: the pipes, or the start of the command with its environment.\<close>

record kernel =
  k_environ :: "string list"
  k_pipe :: "nat \<Rightarrow> go_error option"
  k_start :: "string list \<Rightarrow> string list \<Rightarrow> string \<Rightarrow> int result"

definition mergedEnv :: "string list \<Rightarrow> (string \<times> string) list \<Rightarrow> string list" where
  "mergedEnv environ extra = environ @ map (\<lambda>(k, v). k @ ''='' @ v) extra"

text \<open>One stream between a child and its capture: what was written and not yet read, whether some process can still
  write, the sink, whether the capture has ended, and all that was ever written.\<close>

record stream =
  st_pipe :: "string list"
  st_open :: bool
  st_sink :: log_sink
  st_ended :: bool
  st_sent :: string

definition new_stream :: "log_sink \<Rightarrow> stream" where
  "new_stream w = \<lparr>st_pipe = [], st_open = True, st_sink = w, st_ended = False, st_sent = []\<rparr>"

record proc =
  pr_pid :: int
  pr_streams :: "stream list"
  pr_killed :: bool
  pr_exited :: "int option"
  pr_code :: "int option"

definition new_proc :: "int \<Rightarrow> log_sink list \<Rightarrow> proc" where
  "new_proc pid ws = \<lparr>pr_pid = pid, pr_streams = map new_stream ws, pr_killed = False, pr_exited = None, pr_code = None\<rparr>"

definition Start :: "kernel \<Rightarrow> proc_spec \<Rightarrow> proc result" where
  "Start K sp =
     (case ps_Argv sp of
        [] \<Rightarrow> Inl (Err ''start process: empty argv'')
      | prog # _ \<Rightarrow>
        if None \<in> set (ps_Writers sp) then Inl (Err ''start process: stdout and stderr writers are required'')
        else (case k_pipe K 0 of Some e \<Rightarrow> Inl (Wrap ''start process: stdout pipe: '' e [])
          | None \<Rightarrow> (case k_pipe K 1 of Some e \<Rightarrow> Inl (Wrap ''start process: stderr pipe: '' e [])
            | None \<Rightarrow> (case k_start K (ps_Argv sp) (mergedEnv (k_environ K) (ps_Env sp)) (ps_Dir sp) of
                Inl e \<Rightarrow> Inl (Wrap (''start process '' @ Quote prog @ '': '') e [])
              | Inr pid \<Rightarrow> Inr (new_proc pid (map the (ps_Writers sp)))))))"

definition pty_size :: "nat \<Rightarrow> nat \<Rightarrow> nat \<times> nat" where
  "pty_size rows cols = (if rows = 0 then 24 else rows, if cols = 0 then 80 else cols)"

definition StartPTY :: "kernel \<Rightarrow> proc_spec \<Rightarrow> proc result" where
  "StartPTY K sp =
     (case ps_Argv sp of
        [] \<Rightarrow> Inl (Err ''start pty: empty argv'')
      | prog # _ \<Rightarrow>
        if None \<in> set (ps_Writers sp) then Inl (Err ''start pty: output writer is required'')
        else (case k_start K (ps_Argv sp) (mergedEnv (k_environ K) (ps_Env sp)) (ps_Dir sp) of
                Inl e \<Rightarrow> Inl (Wrap (''start pty '' @ Quote prog @ '': '') e [])
              | Inr pid \<Rightarrow> Inr (new_proc pid (map the (ps_Writers sp)))))"

text \<open>The first \<open>Kill\<close> signals the whole group, later ones do nothing; \<open>signal\<close> is the kernel's answer, of which
  \<open>ESRCH\<close> is no error.\<close>

datatype kill_answer = Signalled | ESRCH | KillError go_error

definition Kill :: "string \<Rightarrow> kill_answer \<Rightarrow> proc \<Rightarrow> go_error option \<times> proc" where
  "Kill what signal p =
     (if pr_killed p then (None, p)
      else (case signal of KillError e \<Rightarrow> Some (Wrap (what @ Itoa (pr_pid p) @ '': '') e []) | _ \<Rightarrow> None,
            p\<lparr>pr_killed := True\<rparr>))"

text \<open>\<open>Resize\<close> of \<open>pty.go\<close>: getting at the descriptor, the control call, and the request within it.\<close>

definition pty_Resize :: "go_error option \<Rightarrow> go_error option \<Rightarrow> go_error option \<Rightarrow> go_error option" where
  "pty_Resize syscallConn control ioctl =
     map_option (\<lambda>e. Wrap ''resize pty: '' e [])
       (case syscallConn of Some e \<Rightarrow> Some e | None \<Rightarrow> (case control of Some e \<Rightarrow> Some e | None \<Rightarrow> ioctl))"

text \<open>\<open>capture\<close> of \<open>pty.go\<close> on the chunks read from the terminal's master, whose end may be an error rather than an end of
  file: without a limit the copy is what is written; with one, what is beyond it is counted if the limit was reached.\<close>

definition pty_capture :: "finder \<Rightarrow> redactor \<Rightarrow> int \<Rightarrow> string list \<Rightarrow> log_sink \<Rightarrow> captured" where
  "pty_capture rx r limit chunks w =
     (if limit \<le> 0
      then (case io_Copy rx r chunks 0 w of (n, e, unread, w') \<Rightarrow>
        \<lparr>cap_sink = snd (sink_Close rx r w'), cap_truncated = 0, cap_unread = unread\<rparr>)
      else (case LimitReader (nat limit) chunks of (head, beyond) \<Rightarrow>
        (case io_Copy rx r head 0 w of (n, e, unread, w') \<Rightarrow>
          (let rest = length (concat unread) + length (concat beyond) in
           \<lparr>cap_sink = snd (sink_Close rx r w'),
            cap_truncated = (if e \<noteq> None \<or> n < nat limit then (if n = nat limit then rest else 0) else rest),
            cap_unread = []\<rparr>))))"

text \<open>A terminal is captured as a stream is: no more than the limit is copied, so what holds of the one holds of the
  other.\<close>

lemma LimitReader_length: "length (concat (fst (LimitReader n ps))) \<le> n"
  by (induction n ps rule: LimitReader.induct) (auto split: prod.split)

lemma io_Copy_length: "fst (io_Copy rx r ps n w) \<le> n + length (concat ps)"
  by (induction rx r ps n w rule: io_Copy.induct) (auto split: prod.split option.split)

lemma pty_capture_is_capture: "pty_capture rx r limit chunks w = capture rx r limit chunks w"
proof -
  obtain hd beyond where l: "LimitReader (nat limit) chunks = (hd, beyond)" by fastforce
  obtain n e unread w' where c: "io_Copy rx r hd 0 w = (n, e, unread, w')" by (metis prod_cases4)
  have "n \<le> nat limit" using LimitReader_length [of "nat limit" chunks] io_Copy_length [of rx r hd 0 w] l c by simp
  then show ?thesis using l c by (simp add: pty_capture_def capture_def Let_def split: prod.split)
qed

section \<open>The life of a child\<close>

text \<open>A stream's steps, for a capture without bound: a process that holds it writes or the last one closes it, a chunk is
  copied to the sink, and at the end of the stream, or after a write error, the sink is closed.\<close>

inductive stream_step :: "finder \<Rightarrow> redactor \<Rightarrow> stream \<Rightarrow> stream \<Rightarrow> bool" for rx r where
  send: "st_open s \<Longrightarrow> stream_step rx r s (s\<lparr>st_pipe := st_pipe s @ [p], st_sent := st_sent s @ p\<rparr>)"
| close: "st_open s \<Longrightarrow> stream_step rx r s (s\<lparr>st_open := False\<rparr>)"
| copy: "\<not> st_ended s \<Longrightarrow> st_pipe s = p # ps \<Longrightarrow> sink_Write rx r p (st_sink s) = (None, w) \<Longrightarrow>
    stream_step rx r s (s\<lparr>st_pipe := ps, st_sink := w\<rparr>)"
| fail: "\<not> st_ended s \<Longrightarrow> st_pipe s = p # ps \<Longrightarrow> sink_Write rx r p (st_sink s) = (Some e, w) \<Longrightarrow>
    stream_step rx r s (s\<lparr>st_pipe := ps, st_sink := snd (sink_Close rx r w), st_ended := True\<rparr>)"
| eof: "\<not> st_ended s \<Longrightarrow> st_pipe s = [] \<Longrightarrow> \<not> st_open s \<Longrightarrow>
    stream_step rx r s (s\<lparr>st_sink := snd (sink_Close rx r (st_sink s)), st_ended := True\<rparr>)"

text \<open>The child exits (a signal counts as \<open>-1\<close>); only when every capture has ended is it waited for.\<close>

inductive proc_step :: "finder \<Rightarrow> redactor \<Rightarrow> proc \<Rightarrow> proc \<Rightarrow> bool" for rx r where
  stream: "i < length (pr_streams p) \<Longrightarrow> stream_step rx r (pr_streams p ! i) s \<Longrightarrow>
    proc_step rx r p (p\<lparr>pr_streams := (pr_streams p)[i := s]\<rparr>)"
| exit: "pr_exited p = None \<Longrightarrow> proc_step rx r p (p\<lparr>pr_exited := Some c\<rparr>)"
| kill: "proc_step rx r p (snd (Kill what signal p))"
| reap: "\<forall>s \<in> set (pr_streams p). st_ended s \<Longrightarrow> pr_exited p = Some c \<Longrightarrow> pr_code p = None \<Longrightarrow>
    proc_step rx r p (p\<lparr>pr_code := Some c\<rparr>)"

section \<open>The daemon's side (\<open>spawn\<close>, \<open>spawnPTY\<close>)\<close>

text \<open>\<open>spawn\<close>: the attempt's directory and logs, then the child. \<open>open_log\<close> opens a log file, \<open>mkdir\<close> is the outcome of
  creating the directory.\<close>

definition EnsureAttemptDir :: "go_error option \<Rightarrow> string \<Rightarrow> string \<Rightarrow> int \<Rightarrow> string result" where
  "EnsureAttemptDir mkdir stateDir i n = (case AttemptDir stateDir i n of Inl e \<Rightarrow> Inl e
     | Inr dir \<Rightarrow> (case mkdir of Some e \<Rightarrow> Inl (Wrap (''ensure attempt directory '' @ Quote dir @ '': '') e []) | None \<Rightarrow> Inr dir))"

definition open_sink :: "(string \<Rightarrow> log_sink result) \<Rightarrow> string \<Rightarrow> log_sink result" where
  "open_sink open_log path = (case open_log path of
     Inl e \<Rightarrow> Inl (Wrap (''open attempt log '' @ path @ '': '') e []) | Inr w \<Rightarrow> Inr w)"

definition spawn :: "kernel \<Rightarrow> go_error option \<Rightarrow> (string \<Rightarrow> log_sink result) \<Rightarrow> string \<Rightarrow> string \<Rightarrow> int \<Rightarrow> command \<Rightarrow> string \<Rightarrow> proc result" where
  "spawn K mkdir open_log stateDir i n cmd cwd =
     (case EnsureAttemptDir mkdir stateDir i n of Inl e \<Rightarrow> Inl e
      | Inr _ \<Rightarrow> (case AttemptFiles stateDir i n of Inl e \<Rightarrow> Inl e
         | Inr (so, se, _) \<Rightarrow> (case open_sink open_log so of Inl e \<Rightarrow> Inl e
             | Inr wo \<Rightarrow> (case open_sink open_log se of Inl e \<Rightarrow> Inl e
                 | Inr we \<Rightarrow> Start K \<lparr>ps_Argv = Argv cmd, ps_Env = Env cmd, ps_Dir = cwd, ps_Writers = [Some wo, Some we]\<rparr>))))"

definition spawnPTY :: "kernel \<Rightarrow> go_error option \<Rightarrow> (string \<Rightarrow> log_sink result) \<Rightarrow> string \<Rightarrow> string \<Rightarrow> int \<Rightarrow> command \<Rightarrow> string \<Rightarrow> proc result" where
  "spawnPTY K mkdir open_log stateDir i n cmd cwd =
     (case EnsureAttemptDir mkdir stateDir i n of Inl e \<Rightarrow> Inl e
      | Inr _ \<Rightarrow> (case AttemptFiles stateDir i n of Inl e \<Rightarrow> Inl e
         | Inr (so, _, _) \<Rightarrow> (case open_sink open_log so of Inl e \<Rightarrow> Inl e
             | Inr wo \<Rightarrow> StartPTY K \<lparr>ps_Argv = Argv cmd, ps_Env = Env cmd, ps_Dir = cwd, ps_Writers = [Some wo]\<rparr>)))"

text \<open>The goroutine that waits for the child: the event it posts once there is an exit code, from the log files.\<close>

definition stream_log :: "stream \<Rightarrow> string" where
  "stream_log s = lf_data (ls_file (st_sink s))"

definition exit_event :: "int \<Rightarrow> proc \<Rightarrow> event option" where
  "exit_event scan p = (case pr_code p of None \<Rightarrow> None
     | Some c \<Rightarrow> (case map (\<lambda>s. tailFile (Inr (stream_log s)) scan) (pr_streams p) of
          [so, se] \<Rightarrow> Some (EventAttemptExit c so se)
        | [so] \<Rightarrow> Some (EventAttemptExit c so [])
        | _ \<Rightarrow> None))"


section \<open>The exit is reported with the whole output\<close>

definition stream_inv :: "finder \<Rightarrow> redactor \<Rightarrow> stream \<Rightarrow> bool" where
  "stream_inv rx r s \<longleftrightarrow>
     (if st_ended s then st_pipe s = [] \<and> \<not> st_open s \<and> stream_log s = concat (map (Redact rx r) (text_lines (st_sent s)))
      else \<exists>copied. sink_holds rx r [] copied (st_sink s) \<and> st_sent s = copied @ concat (st_pipe s))"

lemma stream_step_inv: "stream_step rx r s s' \<Longrightarrow> stream_inv rx r s \<Longrightarrow> stream_inv rx r s'"
proof (induction rule: stream_step.induct)
  case (copy s p ps w)
  then obtain c where c: "sink_holds rx r [] c (st_sink s)" "st_sent s = c @ p @ concat ps" by (auto simp: stream_inv_def)
  have "sink_holds rx r [] (c @ p) w" using sink_Write_holds [OF c(1), of p] copy(3) by simp
  then show ?case using copy(1) c(2) by (auto simp: stream_inv_def)
next
  case (fail s p ps e w)
  then obtain c where "sink_holds rx r [] c (st_sink s)" by (auto simp: stream_inv_def)
  from sink_Write_holds [OF this, of p] show ?case using fail(3) by simp
next
  case (eof s)
  then obtain c where "sink_holds rx r [] c (st_sink s)" "st_sent s = c" by (auto simp: stream_inv_def)
  then show ?case using eof sink_Close_holds by (auto simp: stream_inv_def stream_log_def)
qed (auto simp: stream_inv_def)

definition proc_inv :: "finder \<Rightarrow> redactor \<Rightarrow> proc \<Rightarrow> bool" where
  "proc_inv rx r p \<longleftrightarrow> (\<forall>s \<in> set (pr_streams p). stream_inv rx r s) \<and>
     (pr_code p \<noteq> None \<longrightarrow> pr_code p = pr_exited p \<and> (\<forall>s \<in> set (pr_streams p). st_ended s))"

lemma stream_step_ended: "stream_step rx r s s' \<Longrightarrow> st_ended s \<Longrightarrow> st_ended s'"
  by (induction rule: stream_step.induct) auto

lemma proc_step_inv: "proc_step rx r p p' \<Longrightarrow> proc_inv rx r p \<Longrightarrow> proc_inv rx r p'"
proof (induction rule: proc_step.induct)
  case (stream i p s)
  have "pr_streams p ! i \<in> set (pr_streams p)" using stream(1) by simp
  then have "stream_inv rx r s" "pr_code p \<noteq> None \<longrightarrow> st_ended s"
    using stream(2,3) stream_step_inv stream_step_ended unfolding proc_inv_def by blast+
  moreover have "set ((pr_streams p)[i := s]) \<subseteq> insert s (set (pr_streams p))" by (rule set_update_subset_insert)
  ultimately show ?case using stream(3) unfolding proc_inv_def by auto
qed (auto simp: proc_inv_def Kill_def)

text \<open>The runs of a child that was just started.\<close>

definition runs :: "finder \<Rightarrow> redactor \<Rightarrow> int \<Rightarrow> nat \<Rightarrow> proc \<Rightarrow> bool" where
  "runs rx r pid n p \<longleftrightarrow> (proc_step rx r)\<^sup>*\<^sup>* (new_proc pid (replicate n (newLogSink (\<lambda>_. None) []))) p"

lemma runs_inv: "runs rx r pid n p \<Longrightarrow> proc_inv rx r p \<and> length (pr_streams p) = n"
  unfolding runs_def
proof (induction rule: rtranclp_induct)
  case base
  have "stream_inv rx r (new_stream (newLogSink (\<lambda>_. None) []))"
    using newLogSink_holds [of rx r "[]"] by (auto simp: stream_inv_def new_stream_def)
  then show ?case by (simp add: proc_inv_def new_proc_def)
next
  case (step p p')
  have "length (pr_streams p') = length (pr_streams p)" using step(2) by induction (simp_all add: Kill_def)
  then show ?case using step proc_step_inv by blast
qed

text \<open>C35: the exit of a child is reported with its whole output: however its writes, the copying of its streams, kills and
  its exit interleave, the event carries the exit code of the child and the tails of everything that was ever
  written to its streams, descendants included, redacted line by line (for log files that can be written).\<close>

theorem exit_event_has_whole_output:
  assumes "runs rx r pid 2 p" and "exit_event scan p = Some ev"
  shows "\<exists>so se c. map st_sent (pr_streams p) = [so, se] \<and> pr_exited p = Some c \<and>
    ev = EventAttemptExit c (Tail (concat (map (Redact rx r) (text_lines so))) scan)
      (Tail (concat (map (Redact rx r) (text_lines se))) scan)"
proof -
  from runs_inv [OF assms(1)] have inv: "proc_inv rx r p" and n: "length (pr_streams p) = 2" by simp_all
  then obtain a b where ab: "pr_streams p = [a, b]" by (auto simp: numeral_2_eq_2 length_Suc_conv)
  obtain c where c: "pr_code p = Some c" using assms(2) by (auto simp: exit_event_def split: option.splits)
  then have "pr_exited p = Some c" "stream_inv rx r a" "stream_inv rx r b" "st_ended a" "st_ended b"
    using inv ab by (simp_all add: proc_inv_def)
  then show ?thesis using assms(2) ab c by (simp add: exit_event_def stream_inv_def tailFile_def)
qed

lemma stream_finishes:
  "\<exists>s. (stream_step rx r)\<^sup>*\<^sup>* (new_stream (newLogSink (\<lambda>_. None) [])) s \<and> st_ended s \<and> st_sent s = p"
proof -
  let ?w = "newLogSink (\<lambda>_. None) []"
  obtain w where w: "sink_Write rx r p ?w = (None, w)"
    using sink_Write_holds [OF newLogSink_holds, of rx r p "[]"] by (cases "sink_Write rx r p ?w") simp
  define a where "a = \<lparr>st_pipe = [p], st_open = True, st_sink = ?w, st_ended = False, st_sent = p\<rparr>"
  have "stream_step rx r (new_stream ?w) a" using stream_step.send [of "new_stream ?w" rx r p] by (simp add: new_stream_def a_def)
  moreover have "stream_step rx r a (a\<lparr>st_open := False\<rparr>)" by (rule stream_step.close) (simp add: a_def)
  moreover have "stream_step rx r (a\<lparr>st_open := False\<rparr>) (a\<lparr>st_open := False, st_pipe := [], st_sink := w\<rparr>)"
    using stream_step.copy [of "a\<lparr>st_open := False\<rparr>" p "[]" rx r w] w by (simp add: a_def)
  moreover have "stream_step rx r (a\<lparr>st_open := False, st_pipe := [], st_sink := w\<rparr>)
      (a\<lparr>st_open := False, st_pipe := [], st_sink := snd (sink_Close rx r w), st_ended := True\<rparr>)"
    using stream_step.eof [of "a\<lparr>st_open := False, st_pipe := [], st_sink := w\<rparr>" rx r] by (simp add: a_def)
  ultimately have "(stream_step rx r)\<^sup>*\<^sup>* (new_stream ?w)
      (a\<lparr>st_open := False, st_pipe := [], st_sink := snd (sink_Close rx r w), st_ended := True\<rparr>)"
    by (meson rtranclp.rtrancl_into_rtrancl rtranclp.rtrancl_refl)
  then show ?thesis by (intro exI conjI, assumption) (simp_all add: a_def)
qed

lemma stream_run:
  "(stream_step rx r)\<^sup>*\<^sup>* (pr_streams p ! i) s \<Longrightarrow> i < length (pr_streams p) \<Longrightarrow>
     (proc_step rx r)\<^sup>*\<^sup>* p (p\<lparr>pr_streams := (pr_streams p)[i := s]\<rparr>)"
proof (induction rule: rtranclp_induct)
  case (step s s')
  have "proc_step rx r (p\<lparr>pr_streams := (pr_streams p)[i := s]\<rparr>) (p\<lparr>pr_streams := (pr_streams p)[i := s']\<rparr>)"
    using proc_step.stream [of i "p\<lparr>pr_streams := (pr_streams p)[i := s]\<rparr>" rx r s'] step(2,4) by simp
  then show ?case using step(3) [OF step(4)] by simp
qed simp

lemma sample_run: "\<exists>p. runs rx r 7 2 p \<and> pr_code p = Some 3 \<and> map st_sent (pr_streams p) = [''hi'', ''ho'']"
proof -
  let ?p0 = "new_proc 7 (replicate 2 (newLogSink (\<lambda>_. None) []))"
  let ?n = "new_stream (newLogSink (\<lambda>_. None) [])"
  have p0: "pr_streams ?p0 = [?n, ?n]" by (simp add: new_proc_def numeral_2_eq_2)
  obtain a where a: "(stream_step rx r)\<^sup>*\<^sup>* ?n a" "st_ended a" "st_sent a = ''hi''" using stream_finishes by blast
  obtain b where b: "(stream_step rx r)\<^sup>*\<^sup>* ?n b" "st_ended b" "st_sent b = ''ho''" using stream_finishes by blast
  let ?p1 = "?p0\<lparr>pr_streams := [a, ?n]\<rparr>" and ?p2 = "?p0\<lparr>pr_streams := [a, b]\<rparr>"
  let ?p3 = "?p2\<lparr>pr_exited := Some 3\<rparr>"
  have "(proc_step rx r)\<^sup>*\<^sup>* ?p0 ?p1" using stream_run [of rx r ?p0 0 a] a(1) by (simp add: p0)
  moreover have "(proc_step rx r)\<^sup>*\<^sup>* ?p1 ?p2" using stream_run [of rx r ?p1 1 b] b(1) by simp
  moreover have "proc_step rx r ?p2 ?p3" by (rule proc_step.exit) (simp add: new_proc_def)
  moreover have "proc_step rx r ?p3 (?p3\<lparr>pr_code := Some 3\<rparr>)"
    by (rule proc_step.reap) (simp_all add: new_proc_def a(2) b(2))
  ultimately have "runs rx r 7 2 (?p3\<lparr>pr_code := Some 3\<rparr>)"
    unfolding runs_def by (meson rtranclp.rtrancl_into_rtrancl rtranclp_trans)
  then show ?thesis using a(3) b(3) by (intro exI [of _ "?p3\<lparr>pr_code := Some 3\<rparr>"]) simp
qed

theorem exit_event_has_whole_output_witness:
  "\<exists>p ev. runs (\<lambda>_ _. []) (NewRedactor []) 7 2 p \<and> exit_event 100 p = Some ev \<and>
     ev = EventAttemptExit 3 (Tail (concat (map (Redact (\<lambda>_ _. []) (NewRedactor [])) (text_lines ''hi''))) 100)
       (Tail (concat (map (Redact (\<lambda>_ _. []) (NewRedactor [])) (text_lines ''ho''))) 100)"
proof -
  let ?rx = "\<lambda>_ _. [] :: (nat \<times> nat) list" and ?r = "NewRedactor []"
  obtain p where p: "runs ?rx ?r 7 2 p" "pr_code p = Some 3" "map st_sent (pr_streams p) = [''hi'', ''ho'']"
    using sample_run [of ?rx ?r] by (elim exE conjE) (rule that)
  then obtain ev where e: "exit_event 100 p = Some ev" by (auto simp: exit_event_def map_eq_Cons_conv)
  have "pr_exited p = Some 3" using runs_inv [OF p(1)] p(2) by (simp add: proc_inv_def)
  with exit_event_has_whole_output [OF p(1) e] p(3) have
    "ev = EventAttemptExit 3 (Tail (concat (map (Redact ?rx ?r) (text_lines ''hi''))) 100)
       (Tail (concat (map (Redact ?rx ?r) (text_lines ''ho''))) 100)" by auto
  then show ?thesis using p(1) e by blast
qed

text \<open>A stream whose log cannot be written is never read again: whatever else happens to it, it does not empty.\<close>

lemma failed_capture_blocks:
  "(stream_step rx r)\<^sup>*\<^sup>* s t \<Longrightarrow> st_ended s \<Longrightarrow> st_ended t \<and> prefix (st_pipe s) (st_pipe t)"
proof (induction rule: rtranclp_induct)
  case (step t u)
  then have t: "st_ended t" "prefix (st_pipe s) (st_pipe t)" by simp_all
  have "prefix (st_pipe t) (st_pipe u)" using step(2) t(1) by cases auto
  then show ?case using t stream_step_ended [OF step(2)] by (meson prefix_order.order_trans)
qed simp


section \<open>Handles, killing and closing (\<open>daemon.go\<close>)\<close>

text \<open>The child of a runtime: a plain process or one on a terminal, at most one at a time.\<close>

record handles =
  h_proc :: "proc option"
  h_pty :: "proc option"

definition setProc :: "proc option \<Rightarrow> handles \<Rightarrow> handles" where
  "setProc p h = h\<lparr>h_proc := p\<rparr>"

definition setPTY :: "proc option \<Rightarrow> handles \<Rightarrow> handles" where
  "setPTY p h = h\<lparr>h_pty := p\<rparr>"

definition Proc_Kill :: "kill_answer \<Rightarrow> proc \<Rightarrow> go_error option \<times> proc" where
  "Proc_Kill = Kill ''kill process group ''"

definition PTY_Kill :: "kill_answer \<Rightarrow> proc \<Rightarrow> go_error option \<times> proc" where
  "PTY_Kill = Kill ''kill pty process group ''"

definition Proc_Wait :: "go_error option \<Rightarrow> proc \<Rightarrow> (int \<times> go_error option) option" where
  "Proc_Wait waitErr p = map_option (\<lambda>c. (c, map_option (\<lambda>e. Wrap (''wait for process '' @ Itoa (pr_pid p) @ '': '') e []) waitErr)) (pr_code p)"

definition PTY_Wait :: "go_error option \<Rightarrow> proc \<Rightarrow> (int \<times> go_error option) option" where
  "PTY_Wait waitErr p = map_option (\<lambda>c. (c, map_option (\<lambda>e. Wrap (''wait for pty process '' @ Itoa (pr_pid p) @ '': '') e []) waitErr)) (pr_code p)"

definition runtime_kill :: "kill_answer \<Rightarrow> handles \<Rightarrow> go_error option \<times> handles" where
  "runtime_kill signal h = (case h_pty h of
     Some p \<Rightarrow> (let (e, p') = PTY_Kill signal p in (e, h\<lparr>h_pty := Some p'\<rparr>))
   | None \<Rightarrow> (case h_proc h of None \<Rightarrow> (None, h)
       | Some p \<Rightarrow> (let (e, p') = Proc_Kill signal p in (e, h\<lparr>h_proc := Some p'\<rparr>))))"

text \<open>\<open>StopAllChildren\<close>: an error is only logged.\<close>

definition StopAllChildren :: "(string \<Rightarrow> kill_answer) \<Rightarrow> (string \<rightharpoonup> handles) \<Rightarrow> string \<rightharpoonup> handles" where
  "StopAllChildren signal hs = (\<lambda>i. map_option (\<lambda>h. snd (runtime_kill (signal i) h)) (hs i))"

text \<open>\<open>Close\<close> cancels the loops, stops the timers and waits for every goroutine it counts: the loops, which end by
  the cancellation, and the ones that wait for a child. Here are the goroutines it still waits for.\<close>

record closing =
  cl_loops :: "string set"
  cl_children :: "proc list"

inductive close_step :: "finder \<Rightarrow> redactor \<Rightarrow> closing \<Rightarrow> closing \<Rightarrow> bool" for rx r where
  loop_ends: "close_step rx r c (c\<lparr>cl_loops := cl_loops c - {i}\<rparr>)"
| child: "k < length (cl_children c) \<Longrightarrow> proc_step rx r (cl_children c ! k) p \<Longrightarrow>
    close_step rx r c (c\<lparr>cl_children := (cl_children c)[k := p]\<rparr>)"

definition Close_returns :: "closing \<Rightarrow> bool" where
  "Close_returns c \<longleftrightarrow> cl_loops c = {} \<and> (\<forall>p \<in> set (cl_children c). pr_code p \<noteq> None)"

lemma close_steps_inv:
  "(close_step rx r)\<^sup>*\<^sup>* c c' \<Longrightarrow> \<forall>p \<in> set (cl_children c). proc_inv rx r p \<Longrightarrow> \<forall>p \<in> set (cl_children c'). proc_inv rx r p"
proof (induction rule: rtranclp_induct)
  case (step c1 c2)
  then have inv: "\<forall>p \<in> set (cl_children c1). proc_inv rx r p" by blast
  from step(2) show ?case
  proof cases
    case (child k p)
    have "proc_inv rx r p" using proc_step_inv [OF child(3)] inv child(2) by simp
    then show ?thesis using inv set_update_subset_insert [of "cl_children c1" k p] child(1) by auto
  qed (use inv in simp)
qed simp

text \<open>Closing the daemon does not detach it from its children: \<open>Close\<close> returns only when every child that was running
  has exited by itself and every process that held one of its streams, descendants included, has closed it; a stop
  of the daemon without \<open>--stop-children\<close> leaves its process waiting for the agents.\<close>

theorem Close_waits_for_children:
  assumes "(close_step rx r)\<^sup>*\<^sup>* c c'" and "\<forall>p \<in> set (cl_children c). \<exists>pid n. runs rx r pid n p" and "Close_returns c'"
  shows "\<forall>p \<in> set (cl_children c'). pr_exited p \<noteq> None \<and> (\<forall>s \<in> set (pr_streams p). \<not> st_open s \<and> st_pipe s = [])"
proof
  fix p assume p: "p \<in> set (cl_children c')"
  have "\<forall>p \<in> set (cl_children c). proc_inv rx r p" using assms(2) runs_inv by blast
  from close_steps_inv [OF assms(1) this] p have "proc_inv rx r p" by blast
  moreover have "pr_code p \<noteq> None" using assms(3) p by (simp add: Close_returns_def)
  ultimately show "pr_exited p \<noteq> None \<and> (\<forall>s \<in> set (pr_streams p). \<not> st_open s \<and> st_pipe s = [])"
    by (auto simp: proc_inv_def stream_inv_def)
qed

theorem Close_waits_for_children_witness:
  "\<exists>p. (close_step (\<lambda>_ _. []) (NewRedactor []))\<^sup>*\<^sup>* \<lparr>cl_loops = {''a''}, cl_children = [p]\<rparr> \<lparr>cl_loops = {}, cl_children = [p]\<rparr> \<and>
     Close_returns \<lparr>cl_loops = {}, cl_children = [p]\<rparr> \<and> pr_exited p \<noteq> None"
proof -
  let ?rx = "\<lambda>_ _. [] :: (nat \<times> nat) list" and ?r = "NewRedactor []"
  obtain p where p: "runs ?rx ?r 7 2 p" "pr_code p = Some 3" using sample_run [of ?rx ?r] by (elim exE conjE) (rule that)
  have "close_step ?rx ?r \<lparr>cl_loops = {''a''}, cl_children = [p]\<rparr> \<lparr>cl_loops = {}, cl_children = [p]\<rparr>"
    using close_step.loop_ends [of ?rx ?r "\<lparr>cl_loops = {''a''}, cl_children = [p]\<rparr>" "''a''"] by simp
  then have s: "(close_step ?rx ?r)\<^sup>*\<^sup>* \<lparr>cl_loops = {''a''}, cl_children = [p]\<rparr> \<lparr>cl_loops = {}, cl_children = [p]\<rparr>" by blast
  have c: "Close_returns \<lparr>cl_loops = {}, cl_children = [p]\<rparr>" using p(2) by (simp add: Close_returns_def)
  have "\<forall>p' \<in> set (cl_children \<lparr>cl_loops = {''a''}, cl_children = [p]\<rparr>). \<exists>pid n. runs ?rx ?r pid n p'" using p(1) by auto
  from Close_waits_for_children [OF s this c] have "pr_exited p \<noteq> None" by simp
  then show ?thesis using s c by blast
qed

section \<open>Following the logs of a task (\<open>methods.go\<close>)\<close>

text \<open>\<open>followLogs\<close>: every file is followed by its own goroutine, whose polls see the file until the task is terminal; the
  lines of a file are sent in order, and the first error that arrives is reported when all have ended. \<open>order\<close> lists
  the files by the end of their goroutines.\<close>

definition follow_file :: "string \<times> (poll list) result \<Rightarrow> (string \<times> string) list \<times> go_error option" where
  "follow_file = (\<lambda>(name, opened). case opened of
     Inl e \<Rightarrow> ([], Some (Wrap (''follow '' @ name @ '': '') e []))
   | Inr polls \<Rightarrow> (let (ls, e) = scan_lines (raw_lines (fst (follow polls 0))) in (map (Pair name) ls, e)))"

definition followLogs :: "(string \<times> (poll list) result) list \<Rightarrow> (string \<times> string) list list \<times> go_error option" where
  "followLogs order = (map (fst \<circ> follow_file) order,
     (case filter (\<lambda>e. e \<noteq> None) (map (snd \<circ> follow_file) order) of [] \<Rightarrow> None | e # _ \<Rightarrow> e))"


section \<open>Running the availability probe (\<open>daemon/probe.go\<close>, \<open>supervisor/probe.go\<close>)\<close>

text \<open>How a command ends that \<open>os/exec\<close> runs with a context: it exits with a code, it is killed (by its context's timeout or
  by anyone else), or it cannot be run. The library reports the first two as an \<open>ExitError\<close>, a killed command
  included: the error of the process is preferred to that of the context.\<close>

datatype command_end = ExitsWith int | KilledBySignal | CannotRun go_error

definition is_ExitError :: "command_end \<Rightarrow> bool" where
  "is_ExitError e = (case e of ExitsWith c \<Rightarrow> c \<noteq> 0 | KilledBySignal \<Rightarrow> True | CannotRun _ \<Rightarrow> False)"

definition runProbe :: "command_end \<Rightarrow> probeResult" where
  "runProbe e = (if e = ExitsWith 0 then probeAvailable else if is_ExitError e then probeUnavailable else probeError)"

text \<open>The goroutine of \<open>startProber\<close> over the ticks it lives to see, each with the time it starts, the time the command has
  ended and how it ended. It posts the event after the first success and ends; the number of commands run is
  counted.\<close>

type_synonym probe_tick = "time \<times> time \<times> command_end"

fun prober_loop :: "probe_tick list \<Rightarrow> nat \<Rightarrow> probeRunner \<Rightarrow> bool \<times> nat \<times> probeRunner" where
  "prober_loop [] n p = (False, n, p)"
| "prober_loop ((now, after, e) # ticks) n p =
     (case probe now after (runProbe e) p of (ok, did, p') \<Rightarrow>
       if ok then (True, n + (if did then 1 else 0), p')
       else prober_loop ticks (n + (if did then 1 else 0)) p')"

lemma prober_loop_append:
  "prober_loop (ts @ us) n p = (case prober_loop ts n p of (True, m, q) \<Rightarrow> (True, m, q) | (False, m, q) \<Rightarrow> prober_loop us m q)"
  by (induction ts n p rule: prober_loop.induct) (auto split: prod.splits)

text \<open>A prober posts only after a command that exited with code 0 at its last tick.\<close>

lemma prober_posts_after_success:
  "prober_loop ts n p = (True, m, q) \<Longrightarrow> \<exists>now after. (now, after, ExitsWith 0) \<in> set ts"
proof (induction ts arbitrary: n p)
  case (Cons t ts)
  obtain now after e where t: "t = (now, after, e)" by (metis prod_cases3)
  obtain ok did p' where pr: "probe now after (runProbe e) p = (ok, did, p')" by (metis prod_cases3)
  show ?case
  proof (cases ok)
    case True
    then have "runProbe e = probeAvailable" using pr by (auto simp: probe_def Let_def split: if_splits probeResult.splits)
    then have "e = ExitsWith 0" by (auto simp: runProbe_def split: if_splits)
    then show ?thesis using t by auto
  next
    case False
    then have "\<exists>k. prober_loop ts k p' = (True, m, q)" using Cons.prems pr t by auto
    then show ?thesis using Cons.IH by fastforce
  qed
qed simp

text \<open>A command that cannot be run is left alone for a while; one that hangs until its timeout kills it is not: it counts as an
  answer, so it is started again at every tick, and it never makes the prober back off.\<close>

lemma failing_probe_backs_off:
  "pr_nextAllowed p = None \<Longrightarrow> probe now after (runProbe (CannotRun e)) p = (ok, did, q) \<Longrightarrow>
     \<exists>t. pr_nextAllowed q = Some t \<and> t = time_Add after (backoffDelay q) \<and> pr_failures q = Suc (pr_failures p)"
  by (auto simp: probe_def runProbe_def is_ExitError_def backoffDelay_def Let_def)

lemma hanging_probe_never_backs_off:
  assumes "pr_nextAllowed p = None" and "\<forall>(now, after, e) \<in> set ts. e = KilledBySignal"
  shows "\<exists>q. prober_loop ts n p = (False, n + length ts, q) \<and> pr_nextAllowed q = None"
  using assms
  by (induction ts n p rule: prober_loop.induct) (fastforce simp: probe_def runProbe_def is_ExitError_def)+

end
