(* ===== verification/Json.thy ===== *)
theory Json
  imports GoStrings
begin

text \<open>
  What the program uses of Go's \<open>encoding/json\<close>, \<open>encoding/base64\<close> and \<open>unicode/utf8\<close>: the coercion of strings to
  valid UTF-8, the text that \<open>Marshal\<close> writes, the values a text stands for, and Base64. Every value is written on one
  line, and reading back what was written gives the value with its strings coerced.
\<close>

section \<open>UTF-8\<close>

abbreviation byte :: "char \<Rightarrow> nat" where
  "byte c \<equiv> of_char c"

text \<open>How many bytes the valid sequence at the head of the text has; none if there is no valid one.\<close>

definition in_range :: "nat \<Rightarrow> nat \<Rightarrow> char \<Rightarrow> bool" where
  "in_range lo hi c \<longleftrightarrow> lo \<le> byte c \<and> byte c \<le> hi"

definition rune_len :: "string \<Rightarrow> nat" where
  "rune_len s = (case s of [] \<Rightarrow> 0 | a # r \<Rightarrow>
     let b = byte a in
     if b < 128 then 1
     else if 194 \<le> b \<and> b \<le> 223
     then (case r of c # _ \<Rightarrow> if in_range 128 191 c then 2 else 0 | _ \<Rightarrow> 0)
     else if 224 \<le> b \<and> b \<le> 239
     then (case r of c # d # _ \<Rightarrow>
         if in_range (if b = 224 then 160 else 128) (if b = 237 then 159 else 191) c \<and> in_range 128 191 d then 3 else 0
       | _ \<Rightarrow> 0)
     else if 240 \<le> b \<and> b \<le> 244
     then (case r of c # d # e # _ \<Rightarrow>
         if in_range (if b = 240 then 144 else 128) (if b = 244 then 143 else 191) c \<and> in_range 128 191 d \<and> in_range 128 191 e
         then 4 else 0
       | _ \<Rightarrow> 0)
     else 0)"

definition replacement :: string where
  "replacement = map char_of [239, 191, 189 :: nat]"

text \<open>\<open>strings.ToValidUTF8\<close> byte by byte, as the encoder does it: every byte that starts no valid sequence becomes
  U+FFFD.\<close>

function to_valid :: "string \<Rightarrow> string" where
  "to_valid s = (if s = [] then []
     else if rune_len s = 0 then replacement @ to_valid (tl s)
     else take (rune_len s) s @ to_valid (drop (rune_len s) s))"
  by pat_completeness auto
termination
  by (relation "measure length") (auto simp: neq_Nil_conv)

declare to_valid.simps [simp del]

function valid_utf8 :: "string \<Rightarrow> bool" where
  "valid_utf8 s = (if s = [] then True else if rune_len s = 0 then False else valid_utf8 (drop (rune_len s) s))"
  by pat_completeness auto
termination
  by (relation "measure length") (auto simp: neq_Nil_conv)

declare valid_utf8.simps [simp del]

lemma rune_len_le: "rune_len s \<le> length s"
  by (auto simp: rune_len_def Let_def split: list.splits)

lemma rune_len_Nil [simp]: "rune_len [] = 0"
  by (simp add: rune_len_def)

text \<open>The length depends on the sequence only.\<close>

lemma rune_len_cases:
  assumes "rune_len s \<noteq> 0"
  obtains (one) a r where "s = a # r" "byte a < 128" "rune_len s = 1"
  | (two) a c r where "s = a # c # r" "194 \<le> byte a" "byte a \<le> 223" "in_range 128 191 c" "rune_len s = 2"
  | (three) a c d r where "s = a # c # d # r" "224 \<le> byte a" "byte a \<le> 239"
      "in_range (if byte a = 224 then 160 else 128) (if byte a = 237 then 159 else 191) c" "in_range 128 191 d" "rune_len s = 3"
  | (four) a c d e r where "s = a # c # d # e # r" "240 \<le> byte a" "byte a \<le> 244"
      "in_range (if byte a = 240 then 144 else 128) (if byte a = 244 then 143 else 191) c" "in_range 128 191 d"
      "in_range 128 191 e" "rune_len s = 4"
proof (cases s)
  case (Cons a r)
  consider "byte a < 128" | "194 \<le> byte a" "byte a \<le> 223" | "224 \<le> byte a" "byte a \<le> 239" | "240 \<le> byte a" "byte a \<le> 244"
    using assms Cons by (auto simp: rune_len_def Let_def split: if_splits)
  then show ?thesis
  proof cases
    case 1
    then show ?thesis using one Cons by (simp add: rune_len_def)
  next
    case 2
    then obtain c r' where r: "r = c # r'" using assms Cons by (cases r) (auto simp: rune_len_def)
    then have "in_range 128 191 c" using 2 assms Cons by (auto simp: rune_len_def Let_def split: if_splits)
    then show ?thesis using two 2 Cons r by (simp add: rune_len_def)
  next
    case 3
    then obtain c d r' where r: "r = c # d # r'" using assms Cons by (cases r; cases "tl r") (auto simp: rune_len_def)
    then have "in_range (if byte a = 224 then 160 else 128) (if byte a = 237 then 159 else 191) c" "in_range 128 191 d"
      using 3 assms Cons by (auto simp: rune_len_def Let_def split: if_splits)
    then show ?thesis using three [of a c d r'] 3 r Cons by (simp add: rune_len_def Let_def)
  next
    case 4
    then obtain c d e r' where r: "r = c # d # e # r'"
      using assms Cons by (cases r; cases "tl r"; cases "tl (tl r)") (auto simp: rune_len_def)
    then have "in_range (if byte a = 240 then 144 else 128) (if byte a = 244 then 143 else 191) c" "in_range 128 191 d"
      "in_range 128 191 e" using 4 assms Cons by (auto simp: rune_len_def Let_def split: if_splits)
    then show ?thesis using four [of a c d e r'] 4 r Cons by (simp add: rune_len_def Let_def)
  qed
qed (use assms in simp)

lemma rune_len_take: "rune_len s \<noteq> 0 \<Longrightarrow> rune_len (take (rune_len s) s @ t) = rune_len s"
  by (erule rune_len_cases) (simp_all add: rune_len_def Let_def)

lemma rune_len_more: "rune_len s \<noteq> 0 \<Longrightarrow> rune_len s \<noteq> 1 \<Longrightarrow> c \<in> set (take (rune_len s) s) \<Longrightarrow> 128 \<le> byte c"
  by (erule rune_len_cases) (auto simp: in_range_def split: if_splits)

lemma to_valid_Nil [simp]: "to_valid [] = []"
  by (subst to_valid.simps) simp

lemma valid_utf8_Nil [simp]: "valid_utf8 []"
  by (subst valid_utf8.simps) simp

lemma valid_utf8_rune: "rune_len r \<noteq> 0 \<Longrightarrow> length r = rune_len r \<Longrightarrow> valid_utf8 t \<Longrightarrow> valid_utf8 (r @ t)"
  using rune_len_take [of r t] by (subst valid_utf8.simps) auto

lemma rune_len_replacement: "rune_len replacement = 3" "length replacement = 3"
  by (simp_all add: rune_len_def replacement_def in_range_def)

lemma to_valid_valid: "valid_utf8 (to_valid s)"
proof (induction s rule: to_valid.induct)
  case (1 s)
  show ?case
  proof (cases "s = [] \<or> rune_len s = 0")
    case True
    then show ?thesis using 1(1) rune_len_replacement valid_utf8_rune [of replacement]
      by (subst to_valid.simps) auto
  next
    case False
    then have "rune_len (take (rune_len s) s) = rune_len s" using rune_len_take [of s "[]"] by simp
    then show ?thesis using 1(2) False valid_utf8_rune [of "take (rune_len s) s"] rune_len_le [of s]
      by (subst to_valid.simps) (simp add: min_absorb2)
  qed
qed

lemma to_valid_id: "valid_utf8 s \<Longrightarrow> to_valid s = s"
proof (induction s rule: to_valid.induct)
  case (1 s)
  show ?case
  proof (cases "s = []")
    case False
    have "valid_utf8 s = (if s = [] then True else if rune_len s = 0 then False else valid_utf8 (drop (rune_len s) s))"
      by (rule valid_utf8.simps)
    then have "rune_len s \<noteq> 0" "valid_utf8 (drop (rune_len s) s)" using 1(3) False by (auto split: if_splits)
    then show ?thesis using 1(2) False by (subst to_valid.simps) simp
  qed simp
qed

lemma to_valid_idem [simp]: "to_valid (to_valid s) = to_valid s"
  by (rule to_valid_id [OF to_valid_valid])

lemma to_valid_Nil_iff [simp]: "to_valid s = [] \<longleftrightarrow> s = []"
proof
  show "to_valid s = [] \<Longrightarrow> s = []"
    by (subst (asm) to_valid.simps) (auto simp: replacement_def split: if_splits)
qed simp

lemma valid_utf8_iff: "valid_utf8 s \<longleftrightarrow> to_valid s = s"
  using to_valid_id to_valid_valid by metis

lemma rune_len_ascii: "byte c < 128 \<Longrightarrow> rune_len (c # s) = 1"
  by (simp add: rune_len_def)

lemma to_valid_ascii: "byte c < 128 \<Longrightarrow> to_valid (c # s) = c # to_valid s"
  by (subst to_valid.simps) (simp add: rune_len_ascii)

lemma ascii_valid: "\<forall>c \<in> set s. byte c < 128 \<Longrightarrow> valid_utf8 s"
  unfolding valid_utf8_iff by (induction s) (simp_all add: to_valid_ascii)


section \<open>Strings\<close>

abbreviation BSL :: char where "BSL \<equiv> CHR 0x5C"
abbreviation QT :: char where "QT \<equiv> CHR 0x22"

definition hex_char :: "nat \<Rightarrow> char" where
  "hex_char n = char_of (if n < 10 then 48 + n else 87 + n)"

text \<open>The escapes of \<open>Marshal\<close>, those for HTML included.\<close>

definition esc_char :: "char \<Rightarrow> string" where
  "esc_char c =
     (if c = QT \<or> c = BSL then [BSL, c]
      else if byte c = 8 then [BSL, CHR ''b''] else if byte c = 9 then [BSL, CHR ''t'']
      else if byte c = 10 then [BSL, CHR ''n''] else if byte c = 12 then [BSL, CHR ''f'']
      else if byte c = 13 then [BSL, CHR ''r'']
      else if byte c < 32 \<or> c \<in> set ''<>&''
      then [BSL, CHR ''u'', CHR ''0'', CHR ''0'', hex_char (byte c div 16), hex_char (byte c mod 16)]
      else [c])"

definition line_separator :: "nat \<Rightarrow> string" where
  "line_separator b = map char_of [226, 128, b]"

function escape :: "string \<Rightarrow> string" where
  "escape s = (if s = [] then []
     else if rune_len s = 0 then BSL # ''ufffd'' @ escape (tl s)
     else (if rune_len s = 1 then esc_char (hd s)
           else if take 3 s = line_separator 168 then BSL # ''u2028''
           else if take 3 s = line_separator 169 then BSL # ''u2029''
           else take (rune_len s) s) @ escape (drop (rune_len s) s))"
  by pat_completeness auto
termination
  by (relation "measure length") (auto simp: neq_Nil_conv)

declare escape.simps [simp del]

text \<open>Reading: four hexadecimal digits, the encoding of a code point, and one escape after its backslash.\<close>

definition hex_val :: "char \<Rightarrow> nat option" where
  "hex_val c = (let b = byte c in
     if 48 \<le> b \<and> b \<le> 57 then Some (b - 48) else if 97 \<le> b \<and> b \<le> 102 then Some (b - 87)
     else if 65 \<le> b \<and> b \<le> 70 then Some (b - 55) else None)"

definition hex4 :: "string \<Rightarrow> (nat \<times> string) option" where
  "hex4 s = (case s of a # b # c # d # r \<Rightarrow>
       (case (hex_val a, hex_val b, hex_val c, hex_val d) of
          (Some i, Some j, Some k, Some l) \<Rightarrow> Some (((i * 16 + j) * 16 + k) * 16 + l, r) | _ \<Rightarrow> None)
     | _ \<Rightarrow> None)"

definition encode_rune :: "nat \<Rightarrow> string" where
  "encode_rune n =
     (if n < 128 then [char_of n]
      else if n < 2048 then map char_of [192 + n div 64, 128 + n mod 64]
      else if 55296 \<le> n \<and> n < 57344 \<or> 1114112 \<le> n then replacement
      else if n < 65536 then map char_of [224 + n div 4096, 128 + n div 64 mod 64, 128 + n mod 64]
      else map char_of [240 + n div 262144, 128 + n div 4096 mod 64, 128 + n div 64 mod 64, 128 + n mod 64])"

definition unescape :: "string \<Rightarrow> (string \<times> string) option" where
  "unescape s = (case s of [] \<Rightarrow> None | e # r \<Rightarrow>
     if e = QT \<or> e = BSL \<or> e = CHR ''/'' then Some ([e], r)
     else if e = CHR ''b'' then Some ([CHR 0x08], r) else if e = CHR ''f'' then Some ([CHR 0x0C], r)
     else if e = CHR ''n'' then Some ([CHR 0x0A], r) else if e = CHR ''r'' then Some ([CHR 0x0D], r)
     else if e = CHR ''t'' then Some ([CHR 0x09], r)
     else if e = CHR ''u''
     then (case hex4 r of None \<Rightarrow> None
       | Some (h, r1) \<Rightarrow>
         if h < 55296 \<or> 57344 \<le> h then Some (encode_rune h, r1)
         else (case (if take 2 r1 = [BSL, CHR ''u''] then hex4 (drop 2 r1) else None) of
             Some (l, r2) \<Rightarrow> if h < 56320 \<and> 56320 \<le> l \<and> l < 57344
               then Some (encode_rune (65536 + (h - 55296) * 1024 + (l - 56320)), r2) else Some (replacement, r1)
           | None \<Rightarrow> Some (replacement, r1)))
     else None)"

lemma hex4_shorter: "hex4 s = Some (h, r) \<Longrightarrow> length r < length s"
  by (auto simp: hex4_def split: list.splits option.splits)

lemma unescape_shorter: "unescape s = Some (t, r) \<Longrightarrow> length r < length s"
  by (cases s) (auto simp: unescape_def dest!: hex4_shorter split: if_splits option.splits)

definition prepend :: "string \<Rightarrow> (string \<times> 'a) option \<Rightarrow> (string \<times> 'a) option" where
  "prepend t x = map_option (\<lambda>(a, b). (t @ a, b)) x"

text \<open>A string after its opening quote, and what follows its closing one.\<close>

function parse_chars :: "string \<Rightarrow> (string \<times> string) option" where
  "parse_chars [] = None"
| "parse_chars (c # r) =
     (if c = QT then Some ([], r)
      else if c = BSL then (case unescape r of None \<Rightarrow> None | Some (t, r1) \<Rightarrow> prepend t (parse_chars r1))
      else if byte c < 32 then None
      else if rune_len (c # r) = 0 then prepend replacement (parse_chars r)
      else prepend (take (rune_len (c # r)) (c # r)) (parse_chars (drop (rune_len (c # r)) (c # r))))"
  by pat_completeness auto
termination
  by (relation "measure length") (auto simp: less_Suc_eq_le dest: unescape_shorter)

declare parse_chars.simps(2) [simp del]

lemma prepend_Some [simp]: "prepend t (Some (a, b)) = Some (t @ a, b)"
  by (simp add: prepend_def)

lemma prepend_prepend [simp]: "prepend s (prepend t x) = prepend (s @ t) x"
  by (cases x) (auto simp: prepend_def)


lemma hex_val_hex_char [simp]: "n < 16 \<Longrightarrow> hex_val (hex_char n) = Some n"
  by (simp add: hex_val_def hex_char_def)

lemma parse_escaped: "unescape r = Some (t, r1) \<Longrightarrow> parse_chars (BSL # r) = prepend t (parse_chars r1)"
  by (simp add: parse_chars.simps(2))

lemma hex_val_0 [simp]: "hex_val (CHR ''0'') = Some 0"
  by (simp add: hex_val_def)

lemma hex4_byte: "byte c < 128 \<Longrightarrow>
    hex4 (CHR ''0'' # CHR ''0'' # hex_char (byte c div 16) # hex_char (byte c mod 16) # t) = Some (byte c, t)"
  by (simp add: hex4_def less_mult_imp_div_less)

lemma unescape_byte: "byte c < 128 \<Longrightarrow>
    unescape (CHR ''u'' # CHR ''0'' # CHR ''0'' # hex_char (byte c div 16) # hex_char (byte c mod 16) # t) = Some ([c], t)"
  by (simp add: unescape_def hex4_byte encode_rune_def)

lemma control_chars:
  "byte c = 8 \<Longrightarrow> c = CHR 0x08" "byte c = 9 \<Longrightarrow> c = CHR 0x09" "byte c = 10 \<Longrightarrow> c = CHR 0x0A" "byte c = 12 \<Longrightarrow> c = CHR 0x0C"
  "byte c = 13 \<Longrightarrow> c = CHR 0x0D"
  using of_char_eq_iff [of c "CHR 0x08", where 'a = nat] of_char_eq_iff [of c "CHR 0x09", where 'a = nat]
    of_char_eq_iff [of c "CHR 0x0A", where 'a = nat] of_char_eq_iff [of c "CHR 0x0C", where 'a = nat]
    of_char_eq_iff [of c "CHR 0x0D", where 'a = nat] by simp_all

lemma parse_esc_char: "byte c < 128 \<Longrightarrow> parse_chars (esc_char c @ t) = prepend [c] (parse_chars t)"
proof -
  assume c: "byte c < 128"
  consider "c = QT \<or> c = BSL" | "byte c = 8" | "byte c = 9" | "byte c = 10" | "byte c = 12" | "byte c = 13"
    | "c \<noteq> QT" "c \<noteq> BSL" "byte c \<notin> {8, 9, 10, 12, 13}" "byte c < 32 \<or> c \<in> set ''<>&''"
    | "c \<noteq> QT" "c \<noteq> BSL" "\<not> byte c < 32" "c \<notin> set ''<>&''" by auto
  then show ?thesis
  proof cases
    case 1
    then show ?thesis by (auto simp: esc_char_def unescape_def intro!: parse_escaped)
  next
    case 7
    then have "esc_char c = [BSL, CHR ''u'', CHR ''0'', CHR ''0'', hex_char (byte c div 16), hex_char (byte c mod 16)]"
      by (simp add: esc_char_def)
    then show ?thesis using unescape_byte [OF c] by (simp add: parse_escaped)
  next
    case 8
    then show ?thesis using c by (auto simp: esc_char_def parse_chars.simps(2) rune_len_ascii)
  qed (auto simp: esc_char_def unescape_def dest!: control_chars intro!: parse_escaped)
qed

lemma rune_len_1: "rune_len (c # s) = 1 \<Longrightarrow> byte c < 128"
  by (auto simp: rune_len_def Let_def split: list.splits if_splits)

lemma parse_rune:
  assumes "rune_len s \<noteq> 0" and "rune_len s \<noteq> 1"
  shows "parse_chars (take (rune_len s) s @ t) = prepend (take (rune_len s) s) (parse_chars t)"
proof -
  let ?r = "take (rune_len s) s"
  obtain c r where r: "?r = c # r" using assms(1) rune_len_le [of s] by (cases ?r) auto
  have "128 \<le> byte c" using rune_len_more [OF assms, of c] r by simp
  then have c: "c \<noteq> QT" "c \<noteq> BSL" "\<not> byte c < 32" by auto
  have n: "rune_len (?r @ t) = rune_len s" using rune_len_take [OF assms(1)] .
  have "parse_chars (c # r @ t) = prepend (take (rune_len (c # r @ t)) (c # r @ t)) (parse_chars (drop (rune_len (c # r @ t)) (c # r @ t)))"
    using c n r assms(1) by (simp add: parse_chars.simps(2))
  moreover have "rune_len (c # r @ t) = rune_len s" using n r by simp
  moreover have "length ?r = rune_len s" using rune_len_le [of s] by simp
  ultimately show ?thesis using r by (metis append_Cons append_eq_conv_conj)
qed


lemma hex_vals [simp]: "hex_val (CHR ''f'') = Some 15" "hex_val (CHR ''d'') = Some 13" "hex_val (CHR ''2'') = Some 2"
  "hex_val (CHR ''8'') = Some 8" "hex_val (CHR ''9'') = Some 9"
  by (simp_all add: hex_val_def)

lemma unescape_fffd: "unescape (''ufffd'' @ t) = Some (replacement, t)"
  by (simp add: unescape_def hex4_def encode_rune_def replacement_def)

lemma unescape_separators:
  "unescape (''u2028'' @ t) = Some (line_separator 168, t)" "unescape (''u2029'' @ t) = Some (line_separator 169, t)"
  by (simp_all add: unescape_def hex4_def encode_rune_def line_separator_def)

text \<open>A string that was written is read back, coerced, with whatever follows it.\<close>

lemma parse_chars_escape: "parse_chars (escape s @ QT # t) = Some (to_valid s, t)"
proof (induction s rule: escape.induct)
  case (1 s)
  consider "s = []" | "s \<noteq> []" "rune_len s = 0" | "rune_len s = 1" | "rune_len s \<noteq> 0" "rune_len s \<noteq> 1"
    by auto
  then show ?case
  proof cases
    case 1
    then show ?thesis by (simp add: escape.simps [of "[]"] parse_chars.simps(2))
  next
    case 2
    have e: "escape s = BSL # ''ufffd'' @ escape (tl s)" and v: "to_valid s = replacement @ to_valid (tl s)"
      using 2 by (subst escape.simps to_valid.simps, simp)+
    have "parse_chars (escape s @ QT # t) = prepend replacement (parse_chars (escape (tl s) @ QT # t))"
      unfolding e using parse_escaped [OF unescape_fffd] by simp
    then show ?thesis using 1(1) 2 v by simp
  next
    case 3
    then obtain c r where s: "s = c # r" by (cases s) auto
    then have c: "byte c < 128" using 3 rune_len_1 by blast
    have "escape s = esc_char c @ escape r" using 3 s by (subst escape.simps) simp
    moreover have "to_valid s = c # to_valid r" using s c to_valid_ascii by simp
    ultimately show ?thesis using 1(2) 3 s parse_esc_char [OF c] by simp
  next
    case 4
    let ?n = "rune_len s"
    define e where "e = (if take 3 s = line_separator 168 then BSL # ''u2028''
      else if take 3 s = line_separator 169 then BSL # ''u2029'' else take ?n s)"
    have esc: "escape s = e @ escape (drop ?n s)" using 4 by (subst escape.simps) (auto simp: e_def)
    have v: "to_valid s = take ?n s @ to_valid (drop ?n s)" using 4 by (subst to_valid.simps) auto
    have "?n = 3" if "take 3 s = line_separator b" "b = 168 \<or> b = 169" for b
      using that by (cases s; cases "tl s"; cases "tl (tl s)") (auto simp: line_separator_def rune_len_def in_range_def)
    then have "parse_chars (e @ u) = prepend (take ?n s) (parse_chars u)" for u
      using parse_rune [OF 4] parse_escaped [OF unescape_separators(1), of u] parse_escaped [OF unescape_separators(2), of u]
      by (auto simp: e_def)
    moreover have "s \<noteq> []" using 4 by auto
    ultimately show ?thesis using 1(2) 4 esc v by simp
  qed
qed

text \<open>Plain text is written as it is.\<close>

definition plain_char :: "char \<Rightarrow> bool" where
  "plain_char c \<longleftrightarrow> 32 \<le> byte c \<and> byte c < 128 \<and> c \<notin> set (BSL # QT # ''<>&'')"

lemma escape_plain: "list_all plain_char s \<Longrightarrow> escape s = s"
proof (induction s)
  case (Cons c s)
  then have "esc_char c = [c]" by (auto simp: plain_char_def esc_char_def)
  then show ?case using Cons rune_len_ascii [of c s] by (subst escape.simps) (simp add: plain_char_def)
qed (simp add: escape.simps)

text \<open>No byte of what is written is a control byte, so it stays on its line.\<close>

lemma hex_char_printable: "n < 16 \<Longrightarrow> 32 \<le> byte (hex_char n)"
  by (simp add: hex_char_def)

lemma esc_char_printable: "b \<in> set (esc_char c) \<Longrightarrow> 32 \<le> byte b"
proof (cases "c \<noteq> QT \<and> c \<noteq> BSL \<and> byte c \<notin> {8, 9, 10, 12, 13}")
  case True
  moreover assume "b \<in> set (esc_char c)"
  moreover have "32 \<le> byte (hex_char (byte c div 16))"
    using hex_char_printable [of "byte c div 16"] nat_of_char_less_256 by (simp add: less_mult_imp_div_less)
  moreover have "32 \<le> byte (hex_char (byte c mod 16))" by (simp add: hex_char_printable)
  ultimately show ?thesis by (cases "byte c < 32 \<or> c \<in> set ''<>&''") (auto simp: esc_char_def)
next
  case False
  then have "set (esc_char c) \<subseteq> set (BSL # QT # ''btnfr'')"
    by (auto simp: esc_char_def)
  moreover assume "b \<in> set (esc_char c)"
  ultimately have "b \<in> set (BSL # QT # ''btnfr'')" by blast
  then show ?thesis by auto
qed

lemma escape_printable: "b \<in> set (escape s) \<Longrightarrow> 32 \<le> byte b"
proof (induction s rule: escape.induct)
  case (1 s)
  show ?case
  proof (cases "s = [] \<or> rune_len s = 0")
    case True
    then show ?thesis using 1(1,3) by (subst (asm) (2) escape.simps) (auto split: if_splits)
  next
    case False
    then consider "b \<in> set (escape (drop (rune_len s) s))" | "b \<in> set (esc_char (hd s))"
      | "b \<in> set (BSL # ''u20289'')" | "rune_len s \<noteq> 1" "b \<in> set (take (rune_len s) s)"
      using 1(3) by (subst (asm) escape.simps) (auto split: if_splits)
    then show ?thesis using 1(2) False esc_char_printable rune_len_more [of s b] by cases auto
  qed
qed


section \<open>Values and their text\<close>

text \<open>A number is kept as its text, which the field it is read into converts.\<close>

datatype json = JNull | JBoolean bool | JNumber string | JText string | JArray "json list" | JObject "(string \<times> json) list"

definition member_text :: "string \<Rightarrow> string \<Rightarrow> string" where
  "member_text k raw = QT # escape k @ QT # CHR '':'' # raw"

text \<open>\<open>Marshal\<close> of a value, without white space.\<close>

fun json_text :: "json \<Rightarrow> string" where
  "json_text JNull = ''null''"
| "json_text (JBoolean b) = FormatBool b"
| "json_text (JNumber s) = s"
| "json_text (JText s) = QT # escape s @ [QT]"
| "json_text (JArray vs) = CHR ''['' # Join (map json_text vs) '','' @ '']''"
| "json_text (JObject ms) = CHR ''{'' # Join (map (\<lambda>(k, v). member_text k (json_text v)) ms) '','' @ ''}''"

text \<open>The text of an object from the texts of its members: a \<open>RawMessage\<close> is written as it is.\<close>

definition object_text :: "(string \<times> string) list \<Rightarrow> string" where
  "object_text ms = CHR ''{'' # Join (map (\<lambda>(k, raw). member_text k raw) ms) '','' @ ''}''"

lemma json_text_object: "json_text (JObject ms) = object_text (map (\<lambda>(k, v). (k, json_text v)) ms)"
  by (simp add: object_text_def comp_def split_def)

section \<open>Reading\<close>

definition is_ws :: "char \<Rightarrow> bool" where
  "is_ws c \<longleftrightarrow> byte c \<in> {32, 9, 13, 10}"

definition skip_ws :: "string \<Rightarrow> string" where
  "skip_ws s = dropWhile is_ws s"

text \<open>What may follow the integer part of a number: a fraction, an exponent. The result is its text, perhaps empty,
  and the rest.\<close>

definition span_digits :: "string \<Rightarrow> string \<times> string" where
  "span_digits s = (takeWhile is_digit s, dropWhile is_digit s)"

definition parse_exponent :: "string \<Rightarrow> (string \<times> string) option" where
  "parse_exponent s = (case s of
     c # r \<Rightarrow> if c = CHR ''e'' \<or> c = CHR ''E''
       then (let (sg, r1) = (case r of x # y \<Rightarrow> if x = CHR ''+'' \<or> x = CHR ''-'' then ([x], y) else ([], r) | [] \<Rightarrow> ([], r));
                 (ds, r2) = span_digits r1
             in if ds = [] then None else Some (c # sg @ ds, r2))
       else Some ([], s)
   | [] \<Rightarrow> Some ([], s))"

definition parse_fraction :: "string \<Rightarrow> (string \<times> string) option" where
  "parse_fraction s = (case s of
     c # r \<Rightarrow> if c = CHR ''.''
       then (let (ds, r1) = span_digits r in if ds = [] then None else prepend (c # ds) (parse_exponent r1))
       else parse_exponent s
   | [] \<Rightarrow> Some ([], s))"

definition parse_number :: "string \<Rightarrow> (json \<times> string) option" where
  "parse_number s =
     (let (sg, s1) = (case s of c # r \<Rightarrow> if c = CHR ''-'' then ([c], r) else ([], s) | [] \<Rightarrow> ([], s));
          (ds, r) = span_digits s1
      in if ds = [] \<or> (hd ds = CHR ''0'' \<and> length ds > 1) then None
         else map_option (\<lambda>(t, r1). (JNumber (sg @ ds @ t), r1)) (parse_fraction r))"

text \<open>A value at the head of a text and the rest, by recursion on a bound of the nesting and the number of elements;
  the length of the text is enough. A member keeps its raw text.\<close>

fun parse_value :: "nat \<Rightarrow> string \<Rightarrow> (json \<times> string) option"
  and parse_items :: "nat \<Rightarrow> string \<Rightarrow> (json list \<times> string) option"
  and parse_members :: "nat \<Rightarrow> string \<Rightarrow> ((string \<times> string \<times> json) list \<times> string) option" where
  "parse_value 0 s0 = None"
| "parse_value (Suc n) s0 =
     (let s = skip_ws s0 in
      case s of [] \<Rightarrow> None | c # r \<Rightarrow>
        if c = QT then map_option (\<lambda>(t, r1). (JText t, r1)) (parse_chars r)
        else if c = CHR ''['' then
          (case skip_ws r of d # r1 \<Rightarrow> if d = CHR '']'' then Some (JArray [], r1)
               else map_option (\<lambda>(vs, r2). (JArray vs, r2)) (parse_items n r)
           | [] \<Rightarrow> None)
        else if c = CHR ''{'' then
          (case skip_ws r of d # r1 \<Rightarrow> if d = CHR ''}'' then Some (JObject [], r1)
               else map_option (\<lambda>(ms, r2). (JObject (map (\<lambda>(k, _, v). (k, v)) ms), r2)) (parse_members n r)
           | [] \<Rightarrow> None)
        else if HasPrefix s ''null'' then Some (JNull, drop 4 s)
        else if HasPrefix s ''true'' then Some (JBoolean True, drop 4 s)
        else if HasPrefix s ''false'' then Some (JBoolean False, drop 5 s)
        else parse_number s)"
| "parse_items 0 s = None"
| "parse_items (Suc n) s =
     (case parse_value n s of None \<Rightarrow> None
      | Some (v, r) \<Rightarrow> (case skip_ws r of d # r1 \<Rightarrow>
            if d = CHR '']'' then Some ([v], r1)
            else if d = CHR '','' then map_option (\<lambda>(vs, r2). (v # vs, r2)) (parse_items n r1)
            else None
          | [] \<Rightarrow> None))"
| "parse_members 0 s = None"
| "parse_members (Suc n) s =
     (case skip_ws s of c # r \<Rightarrow>
        if c \<noteq> QT then None
        else (case parse_chars r of None \<Rightarrow> None
          | Some (k, r1) \<Rightarrow> (case skip_ws r1 of c1 # r2 \<Rightarrow>
              if c1 \<noteq> CHR '':'' then None
              else (case parse_value n r2 of None \<Rightarrow> None
                | Some (v, r3) \<Rightarrow>
                  (let raw = take (length (skip_ws r2) - length r3) (skip_ws r2) in
                   case skip_ws r3 of d # r4 \<Rightarrow>
                     if d = CHR ''}'' then Some ([(k, raw, v)], r4)
                     else if d = CHR '','' then map_option (\<lambda>(ms, r5). ((k, raw, v) # ms, r5)) (parse_members n r4)
                     else None
                   | [] \<Rightarrow> None))
            | [] \<Rightarrow> None))
      | [] \<Rightarrow> None)"

declare parse_value.simps [simp del]

text \<open>\<open>Unmarshal\<close> up to the value, and the members of an object with their raw texts.\<close>

definition parse_json :: "string \<Rightarrow> json option" where
  "parse_json s = (case parse_value (Suc (length s)) s of
     Some (v, r) \<Rightarrow> if skip_ws r = [] then Some v else None | None \<Rightarrow> None)"


text \<open>The members of the object that a text holds, with their raw texts: what \<open>Unmarshal\<close> stores in a \<open>RawMessage\<close>.\<close>

definition parse_object :: "string \<Rightarrow> (string \<times> string \<times> json) list option" where
  "parse_object s = (case skip_ws s of c # r \<Rightarrow>
       if c \<noteq> CHR ''{'' then None
       else (case skip_ws r of d # r1 \<Rightarrow>
             if d = CHR ''}'' then (if skip_ws r1 = [] then Some [] else None)
             else (case parse_members (length s) r of
                 Some (ms, r2) \<Rightarrow> if skip_ws r2 = [] then Some ms else None | None \<Rightarrow> None)
           | [] \<Rightarrow> None)
     | [] \<Rightarrow> None)"

section \<open>Reading what was written\<close>

definition no_more :: "string \<Rightarrow> bool" where
  "no_more t \<longleftrightarrow> t = [] \<or> (\<not> is_digit (hd t) \<and> hd t \<notin> set ''.eE'')"

lemma no_more_simps [simp]: "no_more []" "no_more (CHR '','' # t)" "no_more (CHR '']'' # t)" "no_more (CHR ''}'' # t)"
  by (simp_all add: no_more_def is_digit_def)

text \<open>A text reads as a value if it starts it and the parser takes it whole, whatever follows.\<close>

definition reads :: "string \<Rightarrow> json \<Rightarrow> bool" where
  "reads raw v \<longleftrightarrow> raw \<noteq> [] \<and> \<not> is_ws (hd raw) \<and> hd raw \<notin> set '']}'' \<and>
     (\<forall>n t. length raw \<le> n \<longrightarrow> no_more t \<longrightarrow> parse_value n (raw @ t) = Some (v, t))"

lemma skip_ws_id: "s \<noteq> [] \<Longrightarrow> \<not> is_ws (hd s) \<Longrightarrow> skip_ws (s @ t) = s @ t"
  by (cases s) (simp_all add: skip_ws_def)

lemma skip_ws_Cons [simp]: "\<not> is_ws c \<Longrightarrow> skip_ws (c # s) = c # s"
  by (simp add: skip_ws_def)

lemma skip_ws_Nil [simp]: "skip_ws [] = []"
  by (simp add: skip_ws_def)

lemma not_ws [simp]: "\<not> is_ws QT" "\<not> is_ws (CHR '','')" "\<not> is_ws (CHR '':'')" "\<not> is_ws (CHR ''['')" "\<not> is_ws (CHR '']'')"
  "\<not> is_ws (CHR ''{'')" "\<not> is_ws (CHR ''}'')"
  by (simp_all add: is_ws_def)

lemma readsI:
  assumes "raw = c # r" "\<not> is_ws c" "c \<notin> set '']}''"
    and "\<And>n t. length r \<le> n \<Longrightarrow> no_more t \<Longrightarrow> parse_value (Suc n) (c # r @ t) = Some (v, t)"
  shows "reads raw v"
proof -
  have "parse_value n (raw @ t) = Some (v, t)" if "length raw \<le> n" "no_more t" for n t
    using assms(1) assms(4) [of "n - 1" t] that by (cases n) simp_all
  then show ?thesis using assms(1,2,3) by (simp add: reads_def)
qed

lemma reads_text: "reads (QT # escape s @ [QT]) (JText (to_valid s))"
  by (rule readsI [OF refl]) (simp_all add: parse_value.simps Let_def parse_chars_escape)

lemma reads_null: "reads ''null'' JNull"
  by (rule readsI [OF refl]) (simp_all add: parse_value.simps Let_def is_ws_def HasPrefix_def)

lemma reads_bool: "reads (FormatBool b) (JBoolean b)"
proof (cases b)
  case True
  then have s: "FormatBool b = CHR ''t'' # ''rue''" by (simp add: FormatBool_def)
  show ?thesis by (rule readsI [OF s]) (simp_all add: True parse_value.simps Let_def is_ws_def HasPrefix_def)
next
  case False
  then have s: "FormatBool b = CHR ''f'' # ''alse''" by (simp add: FormatBool_def)
  show ?thesis by (rule readsI [OF s]) (simp_all add: False parse_value.simps Let_def is_ws_def HasPrefix_def)
qed

lemma hd_nat_dec_0: "hd (nat_dec n) = CHR ''0'' \<Longrightarrow> n = 0"
proof (induction n rule: nat_dec.induct)
  case (1 n)
  show ?case
  proof (cases "n < 10")
    case True
    then have "digit_char n = CHR ''0''" using 1(2) by (simp add: nat_dec.simps [of n])
    then have "digit_val (digit_char n) = digit_val (CHR ''0'')" by (simp only:)
    then show ?thesis using True by (simp add: digit_val_def [of "CHR ''0''"])
  next
    case False
    then have "n div 10 = 0" using 1 by (simp add: nat_dec.simps [of n])
    then show ?thesis using False by simp
  qed
qed

lemma span_digits_append: "\<forall>c \<in> set ds. is_digit c \<Longrightarrow> no_more t \<Longrightarrow> span_digits (ds @ t) = (ds, t)"
  by (cases t) (auto simp: span_digits_def no_more_def takeWhile_append dropWhile_append)

lemma parse_fraction_none: "no_more t \<Longrightarrow> parse_fraction t = Some ([], t)"
  by (auto simp: parse_fraction_def parse_exponent_def no_more_def split: list.splits)

lemma nat_dec_0 [simp]: "nat_dec 0 = ''0''"
  by code_simp

lemma parse_number_Itoa:
  assumes "no_more t"
  shows "parse_number (Itoa i @ t) = Some (JNumber (Itoa i), t)"
proof -
  have d: "span_digits (nat_dec n @ t) = (nat_dec n, t)" for n
    using assms nat_dec_digits by (rule_tac span_digits_append) auto
  have z: "\<not> (hd (nat_dec n) = CHR ''0'' \<and> length (nat_dec n) > 1)" for n
    using hd_nat_dec_0 [of n] by auto
  obtain c r where s: "nat_dec (nat i) = c # r" by (cases "nat_dec (nat i)") auto
  have "c \<noteq> CHR ''-''" using hd_nat_dec_is_digit [of "nat i"] s by (auto simp: is_digit_def)
  then show ?thesis using d [of "nat i"] d [of "nat (- i)"] z [of "nat i"] z [of "nat (- i)"] s parse_fraction_none [OF assms]
    by (auto simp: parse_number_def Itoa_def)
qed

text \<open>A digit or a minus starts nothing but a number.\<close>

lemma number_head:
  assumes "is_digit c \<or> c = CHR ''-''"
  shows "\<not> is_ws c" "c \<notin> set '']}''" "c \<noteq> QT" "c \<noteq> CHR ''[''" "c \<noteq> CHR ''{''" "c \<noteq> CHR ''n''" "c \<noteq> CHR ''t''" "c \<noteq> CHR ''f''"
  using assms by (auto simp: is_digit_def is_ws_def)

lemma parse_value_number:
  assumes "is_digit c \<or> c = CHR ''-''"
  shows "parse_value (Suc n) (c # u) = parse_number (c # u)"
proof -
  note h = number_head [OF assms]
  have "\<not> HasPrefix (c # u) (CHR ''n'' # w)" "\<not> HasPrefix (c # u) (CHR ''t'' # w)" "\<not> HasPrefix (c # u) (CHR ''f'' # w)" for w
    using h(6,7,8) by (simp_all add: HasPrefix_def)
  then show ?thesis unfolding parse_value.simps(2) Let_def skip_ws_Cons [OF h(1)] list.case
    using h(3,4,5) by (simp only: if_False)
qed

lemma reads_int: "reads (Itoa i) (JNumber (Itoa i))"
proof -
  obtain c r where s: "Itoa i = c # r" by (cases "Itoa i") (auto simp: Itoa_def split: if_splits)
  then have c: "is_digit c \<or> c = CHR ''-''"
    by (metis Itoa_def hd_nat_dec_is_digit list.sel(1))
  show ?thesis
  proof (rule readsI [OF s number_head(1,2) [OF c]])
    fix n t assume "no_more t"
    then show "parse_value (Suc n) (c # r @ t) = Some (JNumber (Itoa i), t)"
      using parse_number_Itoa [of t i] s by (simp add: parse_value_number [OF c])
  qed
qed

text \<open>Lists of what reads.\<close>

lemma Join_Cons: "vs \<noteq> [] \<Longrightarrow> Join (v # vs) sep = v @ sep @ Join vs sep"
  by (cases vs) simp_all

lemma parse_items_Join:
  assumes "list_all2 reads raws vs" "raws \<noteq> []" "length (Join raws '','') < n"
  shows "parse_items n (Join raws '','' @ CHR '']'' # t) = Some (vs, t)"
  using assms
proof (induction raws vs arbitrary: n rule: list_all2_induct)
  case (Cons raw raws v vs)
  obtain m where n: "n = Suc m" using Cons.prems(2) by (cases n) auto
  have p: "length raw \<le> m \<Longrightarrow> no_more u \<Longrightarrow> parse_value m (raw @ u) = Some (v, u)" for u
    using Cons.hyps by (simp add: reads_def)
  show ?case
  proof (cases raws)
    case Nil
    then show ?thesis using Cons.prems Cons.hyps p n by (simp add: parse_value.simps)
  next
    case (Cons a b)
    then have "raws \<noteq> []" by simp
    then show ?thesis using Cons.prems Cons.IH [of m] p n by (simp add: Join_Cons parse_value.simps)
  qed
qed simp

lemma reads_array:
  assumes "list_all2 reads raws vs"
  shows "reads (CHR ''['' # Join raws '','' @ '']'') (JArray vs)"
proof (rule readsI [OF refl])
  fix n t assume n: "length (Join raws '','' @ '']'') \<le> n" and "no_more t"
  show "parse_value (Suc n) (CHR ''['' # (Join raws '','' @ '']'') @ t) = Some (JArray vs, t)"
  proof (cases raws)
    case Nil
    then show ?thesis using assms by (simp add: parse_value.simps Let_def)
  next
    case (Cons a b)
    have "raws \<noteq> []" "a \<noteq> []" "\<not> is_ws (hd a)" "hd a \<noteq> CHR '']''"
      using Cons assms by (auto simp: reads_def list_all2_Cons1)
    moreover have "\<exists>u. Join raws '','' = a @ u" using Cons by (cases b) auto
    ultimately show ?thesis using parse_items_Join [OF assms, of n t] n
      by (cases a) (auto simp: parse_value.simps Let_def)
  qed
qed simp_all


definition member_reads :: "string \<times> string \<Rightarrow> string \<times> string \<times> json \<Rightarrow> bool" where
  "member_reads m r \<longleftrightarrow> (case (m, r) of ((k, raw), (k', raw', v)) \<Rightarrow> k' = to_valid k \<and> raw' = raw \<and> reads raw v)"

lemma parse_members_Join:
  assumes "list_all2 member_reads ms rs" "ms \<noteq> []" "length (Join (map (\<lambda>(k, raw). member_text k raw) ms) '','') < n"
  shows "parse_members n (Join (map (\<lambda>(k, raw). member_text k raw) ms) '','' @ CHR ''}'' # t) = Some (rs, t)"
  using assms
proof (induction ms rs arbitrary: n rule: list_all2_induct)
  case (Cons m ms r rs)
  obtain l where n: "n = Suc l" using Cons.prems(2) by (cases n) auto
  obtain k raw where m: "m = (k, raw)" by (cases m)
  then obtain v where r: "r = (to_valid k, raw, v)" and raw: "reads raw v"
    using Cons.hyps(1) by (cases r) (auto simp: member_reads_def)
  have w: "skip_ws (raw @ u) = raw @ u" for u using raw by (simp add: reads_def skip_ws_id)
  have p: "length raw \<le> l \<Longrightarrow> no_more u \<Longrightarrow> parse_value l (raw @ u) = Some (v, u)" for u
    using raw by (simp add: reads_def)
  show ?case
  proof (cases ms)
    case Nil
    then show ?thesis using Cons.prems Cons.hyps p n m r w
      by (simp add: member_text_def parse_chars_escape parse_value.simps Let_def)
  next
    case (Cons a b)
    then have "map (\<lambda>(k, raw). member_text k raw) ms \<noteq> []" "ms \<noteq> []" by simp_all
    then show ?thesis using Cons.prems Cons.IH [of l] p n m r w
      by (simp add: Join_Cons member_text_def parse_chars_escape parse_value.simps Let_def)
  qed
qed simp

lemma object_text_not_empty:
  "ms \<noteq> [] \<Longrightarrow> \<exists>r. Join (map (\<lambda>(k, raw). member_text k raw) ms) '','' = QT # r"
  by (cases ms; cases "tl ms") (auto simp: member_text_def)

lemma reads_object:
  assumes "list_all2 member_reads ms rs"
  shows "reads (object_text ms) (JObject (map (\<lambda>(k, _, v). (k, v)) rs))" "parse_object (object_text ms) = Some rs"
proof -
  let ?J = "Join (map (\<lambda>(k, raw). member_text k raw) ms) '',''"
  note [simp] = parse_value.simps Let_def
  have e: "ms = [] \<Longrightarrow> rs = []" using assms by simp
  have ne: "ms \<noteq> [] \<Longrightarrow> \<exists>r. ?J = QT # r" by (rule object_text_not_empty)
  show "reads (object_text ms) (JObject (map (\<lambda>(k, _, v). (k, v)) rs))" unfolding object_text_def
  proof (rule readsI [OF refl])
    fix n t assume "length (?J @ ''}'') \<le> n" and "no_more t"
    then show "parse_value (Suc n) (CHR ''{'' # (?J @ ''}'') @ t) = Some (JObject (map (\<lambda>(k, _, v). (k, v)) rs), t)"
      using parse_members_Join [OF assms, of n t] ne e by (cases "ms = []") auto
  qed simp_all
  show "parse_object (object_text ms) = Some rs"
    using parse_members_Join [OF assms, of _ "[]"] ne e
    by (cases "ms = []") (auto simp: object_text_def parse_object_def simp del: parse_members.simps)
qed

lemma parse_reads: "reads raw v \<Longrightarrow> parse_json raw = Some v"
  unfolding reads_def parse_json_def by (elim conjE allE [of _ "Suc (length raw)"] allE [of _ "[]"]) simp


text \<open>What a value is read back as: its strings and its keys with what is no UTF-8 replaced.\<close>

fun norm_json :: "json \<Rightarrow> json" where
  "norm_json (JText s) = JText (to_valid s)"
| "norm_json (JArray vs) = JArray (map norm_json vs)"
| "norm_json (JObject ms) = JObject (map (\<lambda>(k, v). (to_valid k, norm_json v)) ms)"
| "norm_json v = v"

text \<open>The numbers of a value are decimals, as \<open>Marshal\<close> writes an \<open>int\<close>.\<close>

fun ints_only :: "json \<Rightarrow> bool" where
  "ints_only (JNumber s) = (case Atoi s of Some i \<Rightarrow> s = Itoa i | None \<Rightarrow> False)"
| "ints_only (JArray vs) = list_all ints_only vs"
| "ints_only (JObject ms) = list_all (\<lambda>(k, v). ints_only v) ms"
| "ints_only v = True"

lemma reads_json_text: "ints_only v \<Longrightarrow> reads (json_text v) (norm_json v)"
proof (induction v rule: json_text.induct)
  case (3 s)
  then show ?case using reads_int by (auto split: option.splits)
next
  case (5 vs)
  then have "list_all2 reads (map json_text vs) (map norm_json vs)"
    by (simp add: list_all2_map1 list_all2_map2 list_all2_same list_all_iff)
  then show ?case using reads_array by simp
next
  case (6 ms)
  let ?f = "\<lambda>(k, v). (k, json_text v)" and ?g = "\<lambda>(k, v). (to_valid k, json_text v, norm_json v)"
  have "list_all2 member_reads (map ?f ms) (map ?g ms)"
    using 6 by (auto simp: list_all2_map1 list_all2_map2 list_all2_same list_all_iff member_reads_def)
  from reads_object(1) [OF this] show ?case
    by (simp add: json_text_object split_def comp_def del: json_text.simps)
qed (simp_all add: reads_null reads_bool reads_text)

lemma parse_json_text: "ints_only v \<Longrightarrow> parse_json (json_text v) = Some (norm_json v)"
  by (rule parse_reads [OF reads_json_text])

text \<open>And it is on one line.\<close>

lemma Join_printable: "b \<in> set (Join xs sep) \<Longrightarrow> b \<in> set sep \<or> (\<exists>x\<in>set xs. b \<in> set x)"
  by (induction xs sep rule: Join.induct) auto

lemma digit_printable: "is_digit c \<Longrightarrow> 32 \<le> byte c"
  by (simp add: is_digit_def)

lemma Itoa_printable: "b \<in> set (Itoa i) \<Longrightarrow> 32 \<le> byte b"
  using nat_dec_digits digit_printable by (auto simp: Itoa_def split: if_splits)

lemma json_text_printable: "ints_only v \<Longrightarrow> b \<in> set (json_text v) \<Longrightarrow> 32 \<le> byte b"
proof (induction v rule: json_text.induct)
  case (6 ms)
  then show ?case
    by (fastforce dest!: Join_printable simp: member_text_def list_all_iff intro: escape_printable)
qed (auto simp: FormatBool_def list_all_iff split: if_splits option.splits dest!: Join_printable
      intro: escape_printable Itoa_printable)


lemma object_text_printable:
  assumes "\<And>k raw c. (k, raw) \<in> set ms \<Longrightarrow> c \<in> set raw \<Longrightarrow> 32 \<le> byte c" "b \<in> set (object_text ms)"
  shows "32 \<le> byte b"
proof -
  have "b \<in> set (Join (map (\<lambda>(k, raw). member_text k raw) ms) '','') \<Longrightarrow> ?thesis"
    using assms(1) by (fastforce dest!: Join_printable simp: member_text_def intro: escape_printable)
  then show ?thesis using assms(2) by (auto simp: object_text_def)
qed

section \<open>Base64 (\<open>StdEncoding\<close>)\<close>

text \<open>The alphabet: capitals, small letters, digits, plus and slash.\<close>

definition b64_char :: "nat \<Rightarrow> char" where
  "b64_char n = char_of (if n < 26 then 65 + n else if n < 52 then 71 + n else if n < 62 then n - 4
     else if n = 62 then 43 else 47)"

definition b64_val :: "char \<Rightarrow> nat option" where
  "b64_val c = (let b = byte c in
     if 65 \<le> b \<and> b \<le> 90 then Some (b - 65) else if 97 \<le> b \<and> b \<le> 122 then Some (b - 71)
     else if 48 \<le> b \<and> b \<le> 57 then Some (b + 4) else if b = 43 then Some 62 else if b = 47 then Some 63 else None)"

fun EncodeToString :: "string \<Rightarrow> string" where
  "EncodeToString [] = []"
| "EncodeToString [a] = [b64_char (byte a div 4), b64_char (byte a mod 4 * 16), CHR ''='', CHR ''='']"
| "EncodeToString [a, b] = [b64_char (byte a div 4), b64_char (byte a mod 4 * 16 + byte b div 16),
     b64_char (byte b mod 16 * 4), CHR ''='']"
| "EncodeToString (a # b # c # r) = b64_char (byte a div 4) # b64_char (byte a mod 4 * 16 + byte b div 16) #
     b64_char (byte b mod 16 * 4 + byte c div 64) # b64_char (byte c mod 64) # EncodeToString r"

text \<open>\<open>DecodeString\<close>: line ends are skipped, only the last group may be padded.\<close>

fun decode_quads :: "string \<Rightarrow> string option" where
  "decode_quads [] = Some []"
| "decode_quads (p # q # r # s # t) = (case (b64_val p, b64_val q) of
     (Some x, Some y) \<Rightarrow>
       if r = CHR ''='' then (if s = CHR ''='' \<and> t = [] then Some [char_of (x * 4 + y div 16)] else None)
       else (case b64_val r of None \<Rightarrow> None
         | Some z \<Rightarrow>
           if s = CHR ''='' then (if t = [] then Some [char_of (x * 4 + y div 16), char_of (y * 16 + z div 4)] else None)
           else (case b64_val s of None \<Rightarrow> None
             | Some w \<Rightarrow> map_option (\<lambda>u. char_of (x * 4 + y div 16) # char_of (y * 16 + z div 4) # char_of (z * 64 + w) # u)
                 (decode_quads t)))
   | _ \<Rightarrow> None)"
| "decode_quads _ = None"

definition DecodeString :: "string \<Rightarrow> string option" where
  "DecodeString s = decode_quads (filter (\<lambda>c. byte c \<noteq> 10 \<and> byte c \<noteq> 13) s)"

lemma byte_b64_char: "n < 64 \<Longrightarrow> byte (b64_char n) =
    (if n < 26 then 65 + n else if n < 52 then 71 + n else if n < 62 then n - 4 else if n = 62 then 43 else 47)"
  by (simp add: b64_char_def)

lemma b64_val_char [simp]: "n < 64 \<Longrightarrow> b64_val (b64_char n) = Some n"
  unfolding b64_val_def Let_def byte_b64_char by (cases "n < 26"; cases "n < 52"; cases "n < 62"; cases "n = 62") auto

lemma b64_char_plain:
  assumes "n < 64"
  shows "byte (b64_char n) < 128 \<and> 32 \<le> byte (b64_char n) \<and> b64_char n \<noteq> CHR ''=''"
proof -
  have "byte (b64_char n) \<noteq> 61" unfolding byte_b64_char [OF assms] by auto
  then have "b64_char n \<noteq> CHR ''=''" by auto
  moreover have "byte (b64_char n) < 128 \<and> 32 \<le> byte (b64_char n)" unfolding byte_b64_char [OF assms] using assms by auto
  ultimately show ?thesis by simp
qed

lemma byte_div: "byte c div 4 < 64" "byte c div 16 < 16" "byte c div 64 < 4"
  using nat_of_char_less_256 [of c] by (simp_all add: less_mult_imp_div_less)

lemma byte_parts: "byte c mod 4 < 4" "byte c mod 16 < 16"
  by simp_all

lemma b64_parts [simp]: "byte c div 4 < 64" "byte c mod 4 * 16 < 64" "byte c mod 4 * 16 + byte d div 16 < 64"
  "byte d mod 16 * 4 < 64" "byte d mod 16 * 4 + byte e div 64 < 64"
  using byte_div [of c] byte_div [of d] byte_div [of e] byte_parts [of c] byte_parts [of d] by linarith+

lemma byte_div_div [simp]: "byte c div 16 div 16 = 0" "byte c div 64 div 4 = 0"
  using byte_div [of c] by simp_all

lemma b64_char_bounds [simp]: "n < 64 \<Longrightarrow> byte (b64_char n) < 128" "n < 64 \<Longrightarrow> 32 \<le> byte (b64_char n)"
  "n < 64 \<Longrightarrow> b64_char n \<noteq> CHR ''=''"
  using b64_char_plain by simp_all

lemma EncodeToString_plain: "b \<in> set (EncodeToString s) \<Longrightarrow> byte b < 128 \<and> 32 \<le> byte b"
  by (induction s rule: EncodeToString.induct) auto

lemma byte_mod: "n mod 256 = of_char c \<Longrightarrow> char_of (n :: nat) = c"
  by (metis char_of_mod_256 char_of_char)

lemma decode_quads_EncodeToString: "decode_quads (EncodeToString s) = Some s"
  by (induction s rule: EncodeToString.induct) (auto intro!: byte_mod)

theorem DecodeString_EncodeToString [simp]: "DecodeString (EncodeToString s) = Some s"
proof -
  have "byte c \<noteq> 10 \<and> byte c \<noteq> 13" if "c \<in> set (EncodeToString s)" for c
    using EncodeToString_plain [OF that] by auto
  then have "filter (\<lambda>c. byte c \<noteq> 10 \<and> byte c \<noteq> 13) (EncodeToString s) = EncodeToString s"
    by (simp add: filter_id_conv)
  then show ?thesis by (simp only: DecodeString_def decode_quads_EncodeToString)
qed

lemma to_valid_EncodeToString [simp]: "to_valid (EncodeToString s) = EncodeToString s"
  using EncodeToString_plain ascii_valid to_valid_id by blast

end
