(* ===== verification/Codec.thy ===== *)
theory Codec
  imports Json GoTime "HOL-Library.AList"
begin

text \<open>
  How \<open>encoding/json\<close> maps Go values to JSON and back, for the types the payloads of the protocol are made of: strings,
  integers, booleans, instants, pointers, slices, maps of strings and structs with tagged fields. Decoding stores into
  an existing value, as \<open>Unmarshal\<close> does: \<open>null\<close> leaves a plain value alone, a field that is absent keeps what it had, a key
  that names no field is skipped, and of a repeated key the last one counts. \<open>None\<close> is the error of a value that does not fit.
\<close>

named_theorems codec \<open>how the encoders' output is read back\<close>
named_theorems ints \<open>the numbers of an encoded value are decimals\<close>

section \<open>Encoding\<close>

abbreviation JDec :: "int \<Rightarrow> json" where
  "JDec i \<equiv> JNumber (Itoa i)"

text \<open>An instant, in a location with the given offset. \<open>Marshal\<close> refuses one whose year has not four digits.\<close>

definition time_json :: "(time \<Rightarrow> int) \<Rightarrow> time \<Rightarrow> json" where
  "time_json zone t = JText (format_zoned (zone t) t)"

definition time_fits :: "(time \<Rightarrow> int) \<Rightarrow> time \<Rightarrow> bool" where
  "time_fits zone t \<longleftrightarrow> year_ok (t + zone t * Second) \<and> zone_ok (zone t)"

definition ptr_json :: "('a \<Rightarrow> json) \<Rightarrow> 'a option \<Rightarrow> json" where
  "ptr_json enc p = (case p of None \<Rightarrow> JNull | Some x \<Rightarrow> enc x)"

text \<open>\<open>omitempty\<close>.\<close>

definition omit :: "bool \<Rightarrow> string \<Rightarrow> json \<Rightarrow> (string \<times> json) list" where
  "omit is_empty k v = (if is_empty then [] else [(k, v)])"

definition omit_text :: "string \<Rightarrow> string \<Rightarrow> (string \<times> json) list" where
  "omit_text k s = omit (s = []) k (JText s)"

definition omit_int :: "string \<Rightarrow> int \<Rightarrow> (string \<times> json) list" where
  "omit_int k i = omit (i = 0) k (JDec i)"

definition omit_bool :: "string \<Rightarrow> bool \<Rightarrow> (string \<times> json) list" where
  "omit_bool k b = omit (\<not> b) k (JBoolean b)"

definition omit_ptr :: "string \<Rightarrow> ('a \<Rightarrow> json) \<Rightarrow> 'a option \<Rightarrow> (string \<times> json) list" where
  "omit_ptr k enc p = omit (p = None) k (ptr_json enc p)"

definition omit_list :: "string \<Rightarrow> ('a \<Rightarrow> json) \<Rightarrow> 'a list \<Rightarrow> (string \<times> json) list" where
  "omit_list k enc xs = omit (xs = []) k (JArray (map enc xs))"

text \<open>A map is written in the order of its keys.\<close>

definition map_json :: "(string \<times> string) list \<Rightarrow> json" where
  "map_json m = JObject (map (\<lambda>(k, v). (k, JText v)) (sort_key fst m))"

definition omit_map :: "string \<Rightarrow> (string \<times> string) list \<Rightarrow> (string \<times> json) list" where
  "omit_map k m = omit (m = []) k (map_json m)"

section \<open>Decoding\<close>

definition into_text :: "json \<Rightarrow> string \<Rightarrow> string option" where
  "into_text j s = (case j of JNull \<Rightarrow> Some s | JText t \<Rightarrow> Some t | _ \<Rightarrow> None)"

definition into_int :: "json \<Rightarrow> int \<Rightarrow> int option" where
  "into_int j i = (case j of JNull \<Rightarrow> Some i | JNumber t \<Rightarrow> Atoi t | _ \<Rightarrow> None)"

definition into_uint16 :: "json \<Rightarrow> int \<Rightarrow> int option" where
  "into_uint16 j i = (case j of JNull \<Rightarrow> Some i
     | JNumber t \<Rightarrow> if t \<noteq> [] \<and> list_all is_digit t \<and> dec_val t < 65536 then Some (int (dec_val t)) else None
     | _ \<Rightarrow> None)"

definition into_bool :: "json \<Rightarrow> bool \<Rightarrow> bool option" where
  "into_bool j b = (case j of JNull \<Rightarrow> Some b | JBoolean c \<Rightarrow> Some c | _ \<Rightarrow> None)"

definition into_time :: "json \<Rightarrow> time \<Rightarrow> time option" where
  "into_time j t = (case j of JNull \<Rightarrow> Some t | JText s \<Rightarrow> parse_RFC3339 s | _ \<Rightarrow> None)"

definition into_ptr :: "(json \<Rightarrow> 'a \<Rightarrow> 'a option) \<Rightarrow> 'a \<Rightarrow> json \<Rightarrow> 'a option \<Rightarrow> 'a option option" where
  "into_ptr into z j p = (case j of JNull \<Rightarrow> Some None
     | _ \<Rightarrow> map_option Some (into j (case p of Some x \<Rightarrow> x | None \<Rightarrow> z)))"

text \<open>The elements of a slice are stored into the ones it has, then into zero values.\<close>

fun into_elems :: "(json \<Rightarrow> 'a \<Rightarrow> 'a option) \<Rightarrow> 'a \<Rightarrow> json list \<Rightarrow> 'a list \<Rightarrow> 'a list option" where
  "into_elems into z [] old = Some []"
| "into_elems into z (j # js) old = (case into j (case old of [] \<Rightarrow> z | x # _ \<Rightarrow> x) of None \<Rightarrow> None
     | Some x \<Rightarrow> map_option (Cons x) (into_elems into z js (tl old)))"

definition into_list :: "(json \<Rightarrow> 'a \<Rightarrow> 'a option) \<Rightarrow> 'a \<Rightarrow> json \<Rightarrow> 'a list \<Rightarrow> 'a list option" where
  "into_list into z j old = (case j of JNull \<Rightarrow> Some [] | JArray js \<Rightarrow> into_elems into z js old | _ \<Rightarrow> None)"

fun map_entries :: "(string \<times> json) list \<Rightarrow> (string \<times> string) list \<Rightarrow> (string \<times> string) list option" where
  "map_entries [] m = Some m"
| "map_entries ((k, j) # ms) m = (case into_text j [] of None \<Rightarrow> None
     | Some s \<Rightarrow> map_entries ms (AList.update k s m))"

definition into_map :: "json \<Rightarrow> (string \<times> string) list \<Rightarrow> (string \<times> string) list option" where
  "into_map j m = (case j of JNull \<Rightarrow> Some [] | JObject ms \<Rightarrow> map_entries ms m | _ \<Rightarrow> None)"

section \<open>Structs\<close>

text \<open>A key names a field exactly, or else up to case; two runes that are not ASCII fold to ASCII letters.\<close>

fun fold_name :: "string \<Rightarrow> string" where
  "fold_name (a # b # c # r) =
     (if [a, b] = map char_of [197, 191 :: nat] then CHR ''S'' # fold_name (c # r)
      else if [a, b, c] = map char_of [226, 132, 170 :: nat] then CHR ''K'' # fold_name r
      else upper_char a # fold_name (b # c # r))"
| "fold_name [a, b] = (if [a, b] = map char_of [197, 191 :: nat] then ''S'' else [upper_char a, upper_char b])"
| "fold_name s = map upper_char s"

lemma fold_name_ascii: "list_all (\<lambda>c. byte c < 128) s \<Longrightarrow> fold_name s = map upper_char s"
proof (induction s rule: fold_name.induct)
  case (1 a b c r)
  then have "a \<noteq> char_of (197 :: nat)" "a \<noteq> char_of (226 :: nat)" by auto
  then show ?case using 1 by simp
next
  case (2 a b)
  then have "a \<noteq> char_of (197 :: nat)" by auto
  then show ?case by simp
qed simp_all

declare fold_name.simps [simp del]

text \<open>The fields of a struct, each with what stores a value (of JSON, or with its raw text) into it.\<close>

type_synonym ('v, 'a) fields = "(string \<times> ('v \<Rightarrow> 'a \<Rightarrow> 'a option)) list"

definition find_field :: "('v, 'a) fields \<Rightarrow> string \<Rightarrow> ('v \<Rightarrow> 'a \<Rightarrow> 'a option) option" where
  "find_field fs k = (case map_of fs k of Some f \<Rightarrow> Some f
     | None \<Rightarrow> map_of (map (\<lambda>(n, f). (fold_name n, f)) fs) (fold_name k))"

text \<open>A field: how to get it, how to update it and how to decode into it.\<close>

definition field :: "('r \<Rightarrow> 'a) \<Rightarrow> (('a \<Rightarrow> 'a) \<Rightarrow> 'r \<Rightarrow> 'r) \<Rightarrow> ('v \<Rightarrow> 'a \<Rightarrow> 'a option) \<Rightarrow> 'v \<Rightarrow> 'r \<Rightarrow> 'r option" where
  "field get upd into j r = map_option (\<lambda>x. upd (\<lambda>_. x) r) (into j (get r))"

fun into_members :: "('v, 'a) fields \<Rightarrow> (string \<times> 'v) list \<Rightarrow> 'a \<Rightarrow> 'a option" where
  "into_members fs [] z = Some z"
| "into_members fs ((k, j) # ms) z = (case find_field fs k of None \<Rightarrow> into_members fs ms z
     | Some f \<Rightarrow> (case f j z of None \<Rightarrow> None | Some z' \<Rightarrow> into_members fs ms z'))"

definition into_struct :: "(json, 'a) fields \<Rightarrow> json \<Rightarrow> 'a \<Rightarrow> 'a option" where
  "into_struct fs j z = (case j of JNull \<Rightarrow> Some z | JObject ms \<Rightarrow> into_members fs ms z | _ \<Rightarrow> None)"

text \<open>\<open>Unmarshal\<close> of a text.\<close>

definition Unmarshal :: "(json \<Rightarrow> 'a \<Rightarrow> 'a option) \<Rightarrow> string \<Rightarrow> 'a \<Rightarrow> 'a option" where
  "Unmarshal into s z = (case parse_json s of None \<Rightarrow> None | Some j \<Rightarrow> into j z)"

section \<open>Reading back what was encoded\<close>

declare norm_json.simps [simp del]

lemma into_text_norm [codec]: "into_text (norm_json (JText s)) x = Some (to_valid s)"
  by (simp add: into_text_def norm_json.simps)

lemma into_int_norm [codec]: "in_i64 i \<Longrightarrow> into_int (norm_json (JDec i)) x = Some i"
  by (simp add: into_int_def norm_json.simps)

lemma into_uint16_norm [codec]: "0 \<le> i \<Longrightarrow> i < 65536 \<Longrightarrow> into_uint16 (norm_json (JDec i)) x = Some i"
  using nat_dec_digits by (simp add: into_uint16_def norm_json.simps Itoa_def list_all_iff nat_less_iff)

lemma into_bool_norm [codec]: "into_bool (norm_json (JBoolean b)) x = Some b"
  by (simp add: into_bool_def norm_json.simps)

lemma format_zoned_ascii: "c \<in> set (format_zoned off t) \<Longrightarrow> byte c < 128"
proof -
  have d: "is_digit c \<Longrightarrow> byte c < 128" for c by (simp add: is_digit_def)
  have p: "c \<in> set (pad_dec w n) \<Longrightarrow> byte c < 128" for c w n
    using pad_dec_digits [of w n] d by (auto simp: list_all_iff)
  then have a: "c \<in> set (append_int x w) \<Longrightarrow> byte c < 128" for c x w
    by (auto simp: append_int_def split: if_splits)
  have f: "c \<in> set (frac_text n) \<Longrightarrow> byte c < 128" for c n
    using p by (auto simp: frac_text_def Let_def split: if_splits dest!: set_dropWhileD)
  show "c \<in> set (format_zoned off t) \<Longrightarrow> byte c < 128"
    using a f by (auto simp: format_zoned_def local_text_def zone_text_def Let_def split: prod.splits if_splits)
qed

lemma into_time_norm [codec]: "time_fits zone t \<Longrightarrow> into_time (norm_json (time_json zone t)) x = Some t"
  using to_valid_id [OF ascii_valid, of "format_zoned (zone t) t"] format_zoned_ascii
  by (simp add: into_time_def norm_json.simps time_json_def time_fits_def parse_format_zoned)

lemma into_ptr_norm [codec]:
  assumes "\<And>x. p = Some x \<Longrightarrow> into (norm_json (enc x)) z = Some (f x)" "\<And>x. enc x \<noteq> JNull"
  shows "into_ptr into z (norm_json (ptr_json enc p)) None = Some (map_option f p)"
proof (cases p)
  case (Some x)
  have "norm_json (enc x) \<noteq> JNull" using assms(2) [of x] by (cases "enc x") (auto simp: norm_json.simps)
  then show ?thesis using assms(1) [OF Some] Some
    by (cases "norm_json (enc x)") (auto simp: into_ptr_def ptr_json_def)
qed (simp add: into_ptr_def ptr_json_def norm_json.simps)

lemma into_elems_norm:
  assumes "\<And>x. x \<in> set xs \<Longrightarrow> into (norm_json (enc x)) z = Some (f x)"
  shows "into_elems into z (map norm_json (map enc xs)) [] = Some (map f xs)"
  using assms by (induction xs) simp_all

lemma into_list_norm [codec]:
  assumes "\<And>x. x \<in> set xs \<Longrightarrow> into (norm_json (enc x)) z = Some (f x)"
  shows "into_list into z (norm_json (JArray (map enc xs))) [] = Some (map f xs)"
  using into_elems_norm [of xs into enc z f] assms by (simp add: into_list_def norm_json.simps)

lemma into_list_empty [codec]: "into_list into z (norm_json (JArray [])) old = Some []"
  by (simp add: into_list_def norm_json.simps)

lemma in_i64_0 [codec, ints]: "in_i64 0"
  by (simp add: in_i64_def MinInt64_def MaxInt64_def)

text \<open>The members of a struct, one after the other. A member that \<open>omitempty\<close> leaves out is one that changes nothing.\<close>

definition norm_members :: "(string \<times> json) list \<Rightarrow> (string \<times> json) list" where
  "norm_members ms = map (\<lambda>(k, v). (to_valid k, norm_json v)) ms"

lemma norm_object: "norm_json (JObject ms) = JObject (norm_members ms)"
  by (simp add: norm_members_def norm_json.simps(3))

lemma norm_members_simps [simp]: "norm_members [] = []" "norm_members ((k, v) # ms) = (to_valid k, norm_json v) # norm_members ms"
  by (simp_all add: norm_members_def)

lemma into_struct_object [codec]: "into_struct fs (norm_json (JObject ms)) z = into_members fs (norm_members ms) z"
  by (simp add: into_struct_def norm_object)

definition kept :: "(json, 'a) fields \<Rightarrow> string \<Rightarrow> json \<Rightarrow> 'a \<Rightarrow> bool" where
  "kept fs k v z \<longleftrightarrow> (case find_field fs (to_valid k) of None \<Rightarrow> True | Some f \<Rightarrow> f (norm_json v) z = Some z)"

lemma members_omit:
  "(b \<Longrightarrow> kept fs k v z) \<Longrightarrow> into_members fs (norm_members (omit b k v @ ms)) z = into_members fs (norm_members ((k, v) # ms)) z"
  by (auto simp: omit_def kept_def split: option.splits)

lemma members_omit_text [codec]: "kept fs k (JText []) z \<Longrightarrow>
    into_members fs (norm_members (omit_text k s @ ms)) z = into_members fs (norm_members ((k, JText s) # ms)) z"
  unfolding omit_text_def by (rule members_omit) simp

lemma members_omit_int [codec]: "kept fs k (JDec 0) z \<Longrightarrow>
    into_members fs (norm_members (omit_int k i @ ms)) z = into_members fs (norm_members ((k, JDec i) # ms)) z"
  unfolding omit_int_def by (rule members_omit) simp

lemma members_omit_bool [codec]: "kept fs k (JBoolean False) z \<Longrightarrow>
    into_members fs (norm_members (omit_bool k b @ ms)) z = into_members fs (norm_members ((k, JBoolean b) # ms)) z"
  unfolding omit_bool_def by (rule members_omit) simp

lemma members_omit_ptr [codec]: "kept fs k JNull z \<Longrightarrow>
    into_members fs (norm_members (omit_ptr k enc p @ ms)) z = into_members fs (norm_members ((k, ptr_json enc p) # ms)) z"
  unfolding omit_ptr_def by (rule members_omit) (simp add: ptr_json_def)

lemma members_omit_list [codec]: "kept fs k (JArray []) z \<Longrightarrow>
    into_members fs (norm_members (omit_list k enc xs @ ms)) z = into_members fs (norm_members ((k, JArray (map enc xs)) # ms)) z"
  unfolding omit_list_def by (rule members_omit) simp

lemma members_omit_map [codec]: "kept fs k (map_json []) z \<Longrightarrow>
    into_members fs (norm_members (omit_map k m @ ms)) z = into_members fs (norm_members ((k, map_json m) # ms)) z"
  unfolding omit_map_def by (rule members_omit) simp

lemmas last_omit [codec] = members_omit_text [where ms = "[]", simplified] members_omit_int [where ms = "[]", simplified]
  members_omit_bool [where ms = "[]", simplified] members_omit_ptr [where ms = "[]", simplified]
  members_omit_list [where ms = "[]", simplified] members_omit_map [where ms = "[]", simplified]

lemma find_field_hit: "map_of fs k = Some f \<Longrightarrow> find_field fs k = Some f"
  by (simp add: find_field_def)

text \<open>Tags are ASCII.\<close>

lemma to_valid_tag: "list_all (\<lambda>c. byte c < 128) k \<Longrightarrow> to_valid k = k"
  by (rule to_valid_id [OF ascii_valid]) (simp add: list_all_iff)

text \<open>A map comes back in the order of its keys.\<close>

lemma update_fresh: "k \<notin> fst ` set m \<Longrightarrow> AList.update k v m = m @ [(k, v)]"
  by (induction m) auto

lemma map_entries_texts:
  "distinct (map (to_valid \<circ> fst) ms) \<Longrightarrow> fst ` set m \<inter> (to_valid \<circ> fst) ` set ms = {} \<Longrightarrow>
    map_entries (norm_members (map (\<lambda>(k, v). (k, JText v)) ms)) m = Some (m @ map (\<lambda>(k, v). (to_valid k, to_valid v)) ms)"
  by (induction ms arbitrary: m) (auto simp: into_text_def norm_json.simps update_fresh)

lemma into_map_norm [codec]:
  assumes "distinct (map (to_valid \<circ> fst) m)"
  shows "into_map (norm_json (map_json m)) [] = Some (map (\<lambda>(k, v). (to_valid k, to_valid v)) (sort_key fst m))"
proof -
  have "distinct (map (to_valid \<circ> fst) (sort_key fst m))"
    using assms by (simp add: distinct_map)
  then show ?thesis using map_entries_texts [of "sort_key fst m" "[]"] by (simp add: into_map_def map_json_def norm_object)
qed


text \<open>The values that are encoded have no numbers but decimals.\<close>

lemma ints_simps [ints]: "in_i64 i \<Longrightarrow> ints_only (JDec i)" "ints_only (JText s)" "ints_only (JBoolean b)"
  "ints_only (JObject ms) = list_all (\<lambda>(k, v). ints_only v) ms"
  "ints_only (time_json zone t)"
  by (simp_all add: time_json_def)

lemma ints_ptr [ints]: "(\<And>x. p = Some x \<Longrightarrow> ints_only (enc x)) \<Longrightarrow> ints_only (ptr_json enc p)"
  by (simp add: ptr_json_def split: option.split)

lemma list_all_triv [ints]: "list_all (\<lambda>x. True) xs"
  by (simp add: list_all_iff)

lemma ints_map [ints]: "ints_only (map_json m)"
  by (auto simp: map_json_def list_all_iff)

lemma ints_omit [ints]: "list_all (\<lambda>(k, v). ints_only v) (omit_text k s)" "list_all (\<lambda>(k, v). ints_only v) (omit_bool k b)"
  "list_all (\<lambda>(k, v). ints_only v) (omit_map k m)"
  "in_i64 i \<Longrightarrow> list_all (\<lambda>(k, v). ints_only v) (omit_int k i)"
  "(\<And>x. p = Some x \<Longrightarrow> ints_only (enc x)) \<Longrightarrow> list_all (\<lambda>(k, v). ints_only v) (omit_ptr k enc p)"
  "list_all (\<lambda>x. ints_only (e x)) xs \<Longrightarrow> list_all (\<lambda>(k, v). ints_only v) (omit_list k e xs)"
  by (simp_all add: omit_text_def omit_bool_def omit_map_def omit_int_def omit_ptr_def omit_list_def omit_def
      ints_map ints_ptr list.pred_map comp_def)

end
