(* ===== verification/Wire.thy ===== *)
theory Wire
  imports Codec Server CliTools
begin

text \<open>
  The payloads of the protocol as JSON: the structs of \<open>internal/daemon/methods.go\<close> and \<open>bus.go\<close>, which the daemon
  encodes or decodes, and their mirrors in \<open>internal/cli/types.go\<close>; the envelopes of \<open>internal/ipc/ipc.go\<close> as lines of
  bytes; and the handlers that \<open>RegisterMethods\<close> registers, from raw parameters to a raw result. A parameter struct is
  one record for both sides, whose tags agree; a task and an event have a record on each side, since the client keeps
  the state as a string. \<open>zone\<close> is the offset of the location an instant is shown in.
\<close>

section \<open>A payload\<close>

text \<open>What one side encodes and the other decodes: \<open>view\<close> is what arrives of a value that \<open>fits\<close>.\<close>

locale payload =
  fixes enc :: "'a \<Rightarrow> json" and into :: "json \<Rightarrow> 'b \<Rightarrow> 'b option" and z :: 'b
    and fits :: "'a \<Rightarrow> bool" and view :: "'a \<Rightarrow> 'b"
  assumes enc_ints: "fits a \<Longrightarrow> ints_only (enc a)"
    and into_enc: "fits a \<Longrightarrow> into (norm_json (enc a)) z = Some (view a)"
begin

lemma unmarshal_text: "fits a \<Longrightarrow> Unmarshal into (json_text (enc a)) z = Some (view a)"
  by (simp add: Unmarshal_def parse_json_text enc_ints into_enc)

lemma text_reads: "fits a \<Longrightarrow> reads (json_text (enc a)) (norm_json (enc a))"
  by (simp add: reads_json_text enc_ints)

text \<open>A slice of such values.\<close>

lemma slice: "payload (\<lambda>xs. JArray (map enc xs)) (into_list into z) [] (list_all fits) (map view)"
proof
  fix xs assume f: "list_all fits xs"
  then show "ints_only (JArray (map enc xs))" by (simp add: list_all_iff enc_ints)
  show "into_list into z (norm_json (JArray (map enc xs))) [] = Some (map view xs)"
    using f by (intro into_list_norm into_enc) (simp add: list_all_iff)
qed

lemma text_on_one_line: "fits a \<Longrightarrow> b \<in> set (json_text (enc a)) \<Longrightarrow> 32 \<le> byte b"
  using json_text_printable enc_ints by blast

end

text \<open>How the proofs evaluate a struct's decoder on its encoder's output.\<close>

lemmas struct_simps = find_field_def kept_def field_def to_valid_tag

section \<open>Parameters (\<open>methods.go\<close>, \<open>types.go\<close>)\<close>

definition createParams_json :: "create_params \<Rightarrow> json" where
  "createParams_json p = JObject (omit_text ''name'' (cp_Name p) @ omit_text ''provider'' (cp_Provider p) @
     omit_text ''mode'' (cp_Mode p) @ [(''cwd'', JText (cp_Cwd p))] @ omit_text ''prompt'' (cp_Prompt p) @
     omit_list ''args'' JText (cp_Args p) @ omit_text ''session_mode'' (cp_SessionMode p) @
     omit_text ''session_ref'' (cp_SessionRef p) @ omit_map ''overrides'' (cp_Overrides p))"

definition createParams_fields :: "(json, create_params) fields" where
  "createParams_fields = [(''name'', field cp_Name cp_Name_update into_text), (''provider'', field cp_Provider cp_Provider_update into_text),
     (''mode'', field cp_Mode cp_Mode_update into_text), (''cwd'', field cp_Cwd cp_Cwd_update into_text),
     (''prompt'', field cp_Prompt cp_Prompt_update into_text), (''args'', field cp_Args cp_Args_update (into_list into_text [])),
     (''session_mode'', field cp_SessionMode cp_SessionMode_update into_text),
     (''session_ref'', field cp_SessionRef cp_SessionRef_update into_text),
     (''overrides'', field cp_Overrides cp_Overrides_update into_map)]"

definition zero_createParams :: create_params where
  "zero_createParams = \<lparr>cp_Name = [], cp_Provider = [], cp_Mode = [], cp_Cwd = [], cp_Prompt = [], cp_Args = [],
     cp_SessionMode = [], cp_SessionRef = [], cp_Overrides = []\<rparr>"

text \<open>What arrives: the strings with what is no UTF-8 replaced, the overrides in the order of their keys.\<close>

definition createParams_view :: "create_params \<Rightarrow> create_params" where
  "createParams_view p = \<lparr>cp_Name = to_valid (cp_Name p), cp_Provider = to_valid (cp_Provider p), cp_Mode = to_valid (cp_Mode p),
     cp_Cwd = to_valid (cp_Cwd p), cp_Prompt = to_valid (cp_Prompt p), cp_Args = map to_valid (cp_Args p),
     cp_SessionMode = to_valid (cp_SessionMode p), cp_SessionRef = to_valid (cp_SessionRef p),
     cp_Overrides = map (\<lambda>(k, v). (to_valid k, to_valid v)) (sort_key fst (cp_Overrides p))\<rparr>"

definition createParams_fits :: "create_params \<Rightarrow> bool" where
  "createParams_fits p \<longleftrightarrow> distinct (map (to_valid \<circ> fst) (cp_Overrides p))"

interpretation create_payload: payload createParams_json "into_struct createParams_fields" zero_createParams
  createParams_fits createParams_view
proof
  fix p assume f: "createParams_fits p"
  show "ints_only (createParams_json p)"
    by (simp add: createParams_json_def ints)
  show "into_struct createParams_fields (norm_json (createParams_json p)) zero_createParams = Some (createParams_view p)"
    using f by (simp add: createParams_json_def createParams_fields_def zero_createParams_def createParams_fits_def
        createParams_view_def codec struct_simps)
qed

text \<open>Structs with one field, \<open>Task\<close>, are that string.\<close>

definition selectorParams_json :: "string \<Rightarrow> json" where
  "selectorParams_json sel = JObject [(''task'', JText sel)]"

definition selectorParams_fields :: "(json, string) fields" where
  "selectorParams_fields = [(''task'', into_text)]"

definition subscribeParams_json :: "string \<Rightarrow> json" where
  "subscribeParams_json sel = JObject (omit_text ''task'' sel)"

interpretation selector_payload: payload selectorParams_json "into_struct selectorParams_fields" "[]" "\<lambda>_. True" to_valid
  by unfold_locales
    (simp_all add: selectorParams_json_def selectorParams_fields_def ints codec struct_simps)

definition subscribeParams_fields :: "(json, string) fields" where
  "subscribeParams_fields = [(''task'', into_text)]"

interpretation subscribe_payload: payload subscribeParams_json "into_struct subscribeParams_fields" "[]" "\<lambda>_. True" to_valid
  by unfold_locales
    (simp_all add: subscribeParams_json_def subscribeParams_fields_def ints codec struct_simps)

definition attachParams_json :: "string \<Rightarrow> json" where
  "attachParams_json sel = JObject [(''task'', JText sel)]"

definition attachParams_fields :: "(json, string) fields" where
  "attachParams_fields = [(''task'', into_text)]"

interpretation attach_payload: payload attachParams_json "into_struct attachParams_fields" "[]" "\<lambda>_. True" to_valid
  by unfold_locales
    (simp_all add: attachParams_json_def attachParams_fields_def ints codec struct_simps)

definition shutdownParams_json :: "bool \<Rightarrow> json" where
  "shutdownParams_json b = JObject (omit_bool ''stop_children'' b)"

definition shutdownParams_fields :: "(json, bool) fields" where
  "shutdownParams_fields = [(''stop_children'', into_bool)]"

interpretation shutdown_payload: payload shutdownParams_json "into_struct shutdownParams_fields" False "\<lambda>_. True" "\<lambda>b. b"
  by unfold_locales (simp_all add: shutdownParams_json_def shutdownParams_fields_def ints codec struct_simps)

definition listParams_json :: "list_params \<Rightarrow> json" where
  "listParams_json p = JObject (omit_bool ''all'' (lp_All p) @ omit_text ''status'' (lp_Status p))"

definition listParams_fields :: "(json, list_params) fields" where
  "listParams_fields = [(''all'', field lp_All lp_All_update into_bool), (''status'', field lp_Status lp_Status_update into_text)]"

definition zero_listParams :: list_params where
  "zero_listParams = \<lparr>lp_All = False, lp_Status = []\<rparr>"

interpretation list_payload: payload listParams_json "into_struct listParams_fields" zero_listParams "\<lambda>_. True"
  "\<lambda>p. p\<lparr>lp_Status := to_valid (lp_Status p)\<rparr>"
  by unfold_locales (simp_all add: listParams_json_def listParams_fields_def zero_listParams_def ints codec struct_simps)

definition removeParams_json :: "remove_params \<Rightarrow> json" where
  "removeParams_json p = JObject ([(''task'', JText (rp_Task p))] @ omit_bool ''force'' (rp_Force p))"

definition removeParams_fields :: "(json, remove_params) fields" where
  "removeParams_fields = [(''task'', field rp_Task rp_Task_update into_text), (''force'', field rp_Force rp_Force_update into_bool)]"

definition zero_removeParams :: remove_params where
  "zero_removeParams = \<lparr>rp_Task = [], rp_Force = False\<rparr>"

interpretation remove_payload: payload removeParams_json "into_struct removeParams_fields" zero_removeParams "\<lambda>_. True"
  "\<lambda>p. p\<lparr>rp_Task := to_valid (rp_Task p)\<rparr>"
  by unfold_locales (simp_all add: removeParams_json_def removeParams_fields_def zero_removeParams_def ints codec struct_simps)

definition logsParams_json :: "logs_params \<Rightarrow> json" where
  "logsParams_json p = JObject ([(''task'', JText (gp_Task p))] @ omit_int ''attempt'' (gp_Attempt p) @
     omit_bool ''follow'' (gp_Follow p) @ omit_text ''stream'' (gp_Stream p))"

definition logsParams_fields :: "(json, logs_params) fields" where
  "logsParams_fields = [(''task'', field gp_Task gp_Task_update into_text), (''attempt'', field gp_Attempt gp_Attempt_update into_int),
     (''follow'', field gp_Follow gp_Follow_update into_bool), (''stream'', field gp_Stream gp_Stream_update into_text)]"

definition zero_logsParams :: logs_params where
  "zero_logsParams = \<lparr>gp_Task = [], gp_Attempt = 0, gp_Follow = False, gp_Stream = []\<rparr>"

interpretation logs_payload: payload logsParams_json "into_struct logsParams_fields" zero_logsParams "\<lambda>p. in_i64 (gp_Attempt p)"
  "\<lambda>p. p\<lparr>gp_Task := to_valid (gp_Task p), gp_Stream := to_valid (gp_Stream p)\<rparr>"
  by unfold_locales (simp_all add: logsParams_json_def logsParams_fields_def zero_logsParams_def ints codec struct_simps)

text \<open>\<open>InputParams\<close>: the task and the bytes in Base64. \<open>ResizeParams\<close>: the task and two 16-bit sizes.\<close>

definition inputParams_json :: "string \<times> string \<Rightarrow> json" where
  "inputParams_json p = JObject [(''task'', JText (fst p)), (''data'', JText (snd p))]"

definition inputParams_fields :: "(json, string \<times> string) fields" where
  "inputParams_fields = [(''task'', field fst apfst into_text), (''data'', field snd apsnd into_text)]"

interpretation input_payload: payload inputParams_json "into_struct inputParams_fields" "([], [])" "\<lambda>_. True"
  "\<lambda>p. (to_valid (fst p), to_valid (snd p))"
  by unfold_locales (simp_all add: inputParams_json_def inputParams_fields_def ints codec struct_simps split: prod.splits)

record resize_params =
  zp_Task :: string
  zp_Rows :: int
  zp_Cols :: int

definition resizeParams_json :: "resize_params \<Rightarrow> json" where
  "resizeParams_json p = JObject [(''task'', JText (zp_Task p)), (''rows'', JDec (zp_Rows p)), (''cols'', JDec (zp_Cols p))]"

definition resizeParams_fields :: "(json, resize_params) fields" where
  "resizeParams_fields = [(''task'', field zp_Task zp_Task_update into_text), (''rows'', field zp_Rows zp_Rows_update into_uint16),
     (''cols'', field zp_Cols zp_Cols_update into_uint16)]"

definition zero_resizeParams :: resize_params where
  "zero_resizeParams = \<lparr>zp_Task = [], zp_Rows = 0, zp_Cols = 0\<rparr>"

definition resizeParams_fits :: "resize_params \<Rightarrow> bool" where
  "resizeParams_fits p \<longleftrightarrow> 0 \<le> zp_Rows p \<and> zp_Rows p < 65536 \<and> 0 \<le> zp_Cols p \<and> zp_Cols p < 65536"

lemma uint16_in_i64: "0 \<le> i \<Longrightarrow> i < 65536 \<Longrightarrow> in_i64 i"
  by (simp add: in_i64_def MinInt64_def MaxInt64_def)

interpretation resize_payload: payload resizeParams_json "into_struct resizeParams_fields" zero_resizeParams resizeParams_fits
  "\<lambda>p. p\<lparr>zp_Task := to_valid (zp_Task p)\<rparr>"
  by unfold_locales (simp_all add: resizeParams_json_def resizeParams_fields_def zero_resizeParams_def resizeParams_fits_def
      uint16_in_i64 ints codec struct_simps)


section \<open>Results and events\<close>

definition pingResult_json :: "ping_result \<Rightarrow> json" where
  "pingResult_json p = JObject [(''version'', JText (ping_Version p)), (''schema_version'', JDec (ping_SchemaVersion p)),
     (''pid'', JDec (ping_PID p))]"

definition pingResult_fields :: "(json, ping_result) fields" where
  "pingResult_fields = [(''version'', field ping_Version ping_Version_update into_text),
     (''schema_version'', field ping_SchemaVersion ping_SchemaVersion_update into_int), (''pid'', field ping_PID ping_PID_update into_int)]"

definition zero_pingResult :: ping_result where
  "zero_pingResult = \<lparr>ping_Version = [], ping_SchemaVersion = 0, ping_PID = 0\<rparr>"

interpretation ping_payload: payload pingResult_json "into_struct pingResult_fields" zero_pingResult
  "\<lambda>p. in_i64 (ping_SchemaVersion p) \<and> in_i64 (ping_PID p)" "\<lambda>p. p\<lparr>ping_Version := to_valid (ping_Version p)\<rparr>"
  by unfold_locales (simp_all add: pingResult_json_def pingResult_fields_def zero_pingResult_def ints codec struct_simps)

text \<open>The map with one entry that resume, pause, stop and remove return, and what the client reads of it.\<close>

definition actionResult_json :: "string \<Rightarrow> json" where
  "actionResult_json i = JObject [(''task_id'', JText i)]"

definition actionResult_fields :: "(json, string) fields" where
  "actionResult_fields = [(''task_id'', into_text)]"

interpretation action_payload: payload actionResult_json "into_struct actionResult_fields" "[]" "\<lambda>_. True" to_valid
  by unfold_locales (simp_all add: actionResult_json_def actionResult_fields_def ints codec struct_simps)

definition logLine_json :: "string \<times> string \<Rightarrow> json" where
  "logLine_json l = JObject [(''stream'', JText (fst l)), (''line'', JText (snd l))]"

definition logLine_fields :: "(json, string \<times> string) fields" where
  "logLine_fields = [(''stream'', field fst apfst into_text), (''line'', field snd apsnd into_text)]"

interpretation logLine_payload: payload logLine_json "into_struct logLine_fields" "([], [])" "\<lambda>_. True"
  "\<lambda>l. (to_valid (fst l), to_valid (snd l))"
  by unfold_locales (simp_all add: logLine_json_def logLine_fields_def ints codec struct_simps)

definition ptyChunk_json :: "string \<Rightarrow> json" where
  "ptyChunk_json s = JObject [(''data'', JText s)]"

definition ptyChunk_fields :: "(json, string) fields" where
  "ptyChunk_fields = [(''data'', into_text)]"

interpretation ptyChunk_payload: payload ptyChunk_json "into_struct ptyChunk_fields" "[]" "\<lambda>_. True" to_valid
  by unfold_locales (simp_all add: ptyChunk_json_def ptyChunk_fields_def ints codec struct_simps)

text \<open>A task, as the daemon writes it and as the client keeps it.\<close>

definition taskInfo_json :: "(time \<Rightarrow> int) \<Rightarrow> task_info \<Rightarrow> json" where
  "taskInfo_json zone t = JObject ([(''id'', JText (ti_ID t)), (''name'', JText (ti_Name t)), (''provider'', JText (ti_Provider t)),
     (''mode'', JText (ti_Mode t)), (''status'', JText (status_String (ti_Status t))), (''cwd'', JText (ti_Cwd t))] @
     omit_text ''session_ref'' (ti_SessionRef t) @
     [(''current_attempt'', JDec (ti_CurrentAttempt t)), (''total_attempts'', JDec (ti_TotalAttempts t))] @
     omit_ptr ''next_wake_at'' (time_json zone) (ti_NextWakeAt t) @ omit_text ''last_outcome'' (ti_LastOutcome t) @
     omit_text ''exit_reason'' (ti_ExitReason t) @
     [(''created_at'', time_json zone (ti_CreatedAt t)), (''updated_at'', time_json zone (ti_UpdatedAt t))])"

record cli_task_info =
  ct_ID :: string
  ct_Name :: string
  ct_Provider :: string
  ct_Mode :: string
  ct_Status :: string
  ct_Cwd :: string
  ct_SessionRef :: string
  ct_CurrentAttempt :: int
  ct_TotalAttempts :: int
  ct_NextWakeAt :: "time option"
  ct_LastOutcome :: string
  ct_ExitReason :: string
  ct_CreatedAt :: time
  ct_UpdatedAt :: time

definition zero_time :: time where
  "zero_time = - unix_to_internal * Second"

definition taskInfo_fields :: "(json, cli_task_info) fields" where
  "taskInfo_fields = [(''id'', field ct_ID ct_ID_update into_text), (''name'', field ct_Name ct_Name_update into_text),
     (''provider'', field ct_Provider ct_Provider_update into_text), (''mode'', field ct_Mode ct_Mode_update into_text),
     (''status'', field ct_Status ct_Status_update into_text), (''cwd'', field ct_Cwd ct_Cwd_update into_text),
     (''session_ref'', field ct_SessionRef ct_SessionRef_update into_text),
     (''current_attempt'', field ct_CurrentAttempt ct_CurrentAttempt_update into_int),
     (''total_attempts'', field ct_TotalAttempts ct_TotalAttempts_update into_int),
     (''next_wake_at'', field ct_NextWakeAt ct_NextWakeAt_update (into_ptr into_time zero_time)),
     (''last_outcome'', field ct_LastOutcome ct_LastOutcome_update into_text),
     (''exit_reason'', field ct_ExitReason ct_ExitReason_update into_text),
     (''created_at'', field ct_CreatedAt ct_CreatedAt_update into_time), (''updated_at'', field ct_UpdatedAt ct_UpdatedAt_update into_time)]"

definition zero_taskInfo :: cli_task_info where
  "zero_taskInfo = \<lparr>ct_ID = [], ct_Name = [], ct_Provider = [], ct_Mode = [], ct_Status = [], ct_Cwd = [], ct_SessionRef = [],
     ct_CurrentAttempt = 0, ct_TotalAttempts = 0, ct_NextWakeAt = None, ct_LastOutcome = [], ct_ExitReason = [],
     ct_CreatedAt = zero_time, ct_UpdatedAt = zero_time\<rparr>"

definition taskInfo_fits :: "(time \<Rightarrow> int) \<Rightarrow> task_info \<Rightarrow> bool" where
  "taskInfo_fits zone t \<longleftrightarrow> in_i64 (ti_CurrentAttempt t) \<and> in_i64 (ti_TotalAttempts t) \<and> time_fits zone (ti_CreatedAt t) \<and>
     time_fits zone (ti_UpdatedAt t) \<and> pred_option (time_fits zone) (ti_NextWakeAt t)"

definition taskInfo_view :: "task_info \<Rightarrow> cli_task_info" where
  "taskInfo_view t = \<lparr>ct_ID = to_valid (ti_ID t), ct_Name = to_valid (ti_Name t), ct_Provider = to_valid (ti_Provider t),
     ct_Mode = to_valid (ti_Mode t), ct_Status = to_valid (status_String (ti_Status t)), ct_Cwd = to_valid (ti_Cwd t),
     ct_SessionRef = to_valid (ti_SessionRef t), ct_CurrentAttempt = ti_CurrentAttempt t, ct_TotalAttempts = ti_TotalAttempts t,
     ct_NextWakeAt = ti_NextWakeAt t, ct_LastOutcome = to_valid (ti_LastOutcome t), ct_ExitReason = to_valid (ti_ExitReason t),
     ct_CreatedAt = ti_CreatedAt t, ct_UpdatedAt = ti_UpdatedAt t\<rparr>"

lemma time_json_not_null [codec]: "time_json zone t \<noteq> JNull"
  by (simp add: time_json_def)

lemma into_ptr_time [codec]: "pred_option (time_fits zone) p \<Longrightarrow>
    into_ptr into_time z (norm_json (ptr_json (time_json zone) p)) None = Some p"
  using into_ptr_norm [of p into_time "time_json zone" z "\<lambda>t. t"] by (simp add: codec pred_option_def option.map_ident)

lemma into_ptr_null [codec]: "into_ptr into z (norm_json JNull) q = Some None"
  by (simp add: into_ptr_def norm_json.simps)

interpretation task_payload: payload "taskInfo_json zone" "into_struct taskInfo_fields" zero_taskInfo "taskInfo_fits zone" taskInfo_view
  for zone
proof
  fix t assume f: "taskInfo_fits zone t"
  then show "ints_only (taskInfo_json zone t)"
    by (simp add: taskInfo_json_def taskInfo_fits_def ints)
  show "into_struct taskInfo_fields (norm_json (taskInfo_json zone t)) zero_taskInfo = Some (taskInfo_view t)"
    using f by (simp add: taskInfo_json_def taskInfo_fields_def zero_taskInfo_def taskInfo_fits_def taskInfo_view_def codec struct_simps)
qed


interpretation tasks_payload: payload "\<lambda>ts. JArray (map (taskInfo_json zone) ts)" "into_list (into_struct taskInfo_fields) zero_taskInfo"
  "[]" "list_all (taskInfo_fits zone)" "map taskInfo_view" for zone
  by (rule task_payload.slice)

text \<open>An attempt: the record is the same on both sides.\<close>

definition attemptInfo_json :: "(time \<Rightarrow> int) \<Rightarrow> attempt_info \<Rightarrow> json" where
  "attemptInfo_json zone a = JObject ([(''attempt_no'', JDec (ai_AttemptNo a))] @ omit_int ''pid'' (ai_PID a) @
     [(''started_at'', time_json zone (ai_StartedAt a))] @ omit_ptr ''ended_at'' (time_json zone) (ai_EndedAt a) @
     omit_ptr ''exit_code'' JDec (ai_ExitCode a) @ omit_text ''outcome'' (ai_Outcome a) @
     omit_ptr ''reset_at'' (time_json zone) (ai_ResetAt a) @ omit_text ''matched_rule'' (ai_MatchedRule a))"

definition attemptInfo_fields :: "(json, attempt_info) fields" where
  "attemptInfo_fields = [(''attempt_no'', field ai_AttemptNo ai_AttemptNo_update into_int), (''pid'', field ai_PID ai_PID_update into_int),
     (''started_at'', field ai_StartedAt ai_StartedAt_update into_time),
     (''ended_at'', field ai_EndedAt ai_EndedAt_update (into_ptr into_time zero_time)),
     (''exit_code'', field ai_ExitCode ai_ExitCode_update (into_ptr into_int 0)), (''outcome'', field ai_Outcome ai_Outcome_update into_text),
     (''reset_at'', field ai_ResetAt ai_ResetAt_update (into_ptr into_time zero_time)),
     (''matched_rule'', field ai_MatchedRule ai_MatchedRule_update into_text)]"

definition zero_attemptInfo :: attempt_info where
  "zero_attemptInfo = \<lparr>ai_AttemptNo = 0, ai_PID = 0, ai_StartedAt = zero_time, ai_EndedAt = None, ai_ExitCode = None, ai_Outcome = [],
     ai_ResetAt = None, ai_MatchedRule = []\<rparr>"

definition attemptInfo_fits :: "(time \<Rightarrow> int) \<Rightarrow> attempt_info \<Rightarrow> bool" where
  "attemptInfo_fits zone a \<longleftrightarrow> in_i64 (ai_AttemptNo a) \<and> in_i64 (ai_PID a) \<and> time_fits zone (ai_StartedAt a) \<and>
     pred_option (time_fits zone) (ai_EndedAt a) \<and> pred_option in_i64 (ai_ExitCode a) \<and> pred_option (time_fits zone) (ai_ResetAt a)"

definition attemptInfo_view :: "attempt_info \<Rightarrow> attempt_info" where
  "attemptInfo_view a = a\<lparr>ai_Outcome := to_valid (ai_Outcome a), ai_MatchedRule := to_valid (ai_MatchedRule a)\<rparr>"

lemma into_ptr_int [codec]: "pred_option in_i64 p \<Longrightarrow> into_ptr into_int z (norm_json (ptr_json JDec p)) None = Some p"
  using into_ptr_norm [of p into_int JDec z "\<lambda>i. i"] by (simp add: codec pred_option_def option.map_ident)

lemma ints_ptr_int [ints]: "pred_option in_i64 p \<Longrightarrow> list_all (\<lambda>(k, v). ints_only v) (omit_ptr k JDec p)"
  by (rule ints_omit) (simp add: ints)

interpretation attempt_payload: payload "attemptInfo_json zone" "into_struct attemptInfo_fields" zero_attemptInfo
  "attemptInfo_fits zone" attemptInfo_view for zone
proof
  fix a assume f: "attemptInfo_fits zone a"
  then show "ints_only (attemptInfo_json zone a)"
    by (simp add: attemptInfo_json_def attemptInfo_fits_def ints)
  show "into_struct attemptInfo_fields (norm_json (attemptInfo_json zone a)) zero_attemptInfo = Some (attemptInfo_view a)"
    using f by (simp add: attemptInfo_json_def attemptInfo_fields_def zero_attemptInfo_def attemptInfo_fits_def attemptInfo_view_def
        codec struct_simps)
qed

interpretation attempts_payload: payload "\<lambda>as. JArray (map (attemptInfo_json zone) as)"
  "into_list (into_struct attemptInfo_fields) zero_attemptInfo" "[]" "list_all (attemptInfo_fits zone)" "map attemptInfo_view" for zone
  by (rule attempt_payload.slice)

text \<open>\<open>GetResult\<close>.\<close>

definition getResult_json :: "(time \<Rightarrow> int) \<Rightarrow> task_info \<times> attempt_info list \<Rightarrow> json" where
  "getResult_json zone r = JObject [(''task'', taskInfo_json zone (fst r)), (''attempts'', JArray (map (attemptInfo_json zone) (snd r)))]"

definition getResult_fields :: "(json, cli_task_info \<times> attempt_info list) fields" where
  "getResult_fields = [(''task'', field fst apfst (into_struct taskInfo_fields)),
     (''attempts'', field snd apsnd (into_list (into_struct attemptInfo_fields) zero_attemptInfo))]"

interpretation get_payload: payload "getResult_json zone" "into_struct getResult_fields" "(zero_taskInfo, [])"
  "\<lambda>r. taskInfo_fits zone (fst r) \<and> list_all (attemptInfo_fits zone) (snd r)"
  "\<lambda>r. (taskInfo_view (fst r), map attemptInfo_view (snd r))" for zone
proof
  fix r assume f: "taskInfo_fits zone (fst r) \<and> list_all (attemptInfo_fits zone) (snd r)"
  note e = task_payload.enc_ints [of zone "fst r"] attempts_payload.enc_ints [of zone "snd r"]
  note i = task_payload.into_enc [of zone "fst r"] attempts_payload.into_enc [of zone "snd r"]
  show "ints_only (getResult_json zone r)" using f e by (simp add: getResult_json_def)
  show "into_struct getResult_fields (norm_json (getResult_json zone r)) (zero_taskInfo, []) =
      Some (taskInfo_view (fst r), map attemptInfo_view (snd r))"
    using f i by (simp add: getResult_json_def getResult_fields_def codec struct_simps)
qed

text \<open>\<open>TaskEvent\<close> (\<open>bus.go\<close>) and its mirror.\<close>

definition taskEvent_json :: "(time \<Rightarrow> int) \<Rightarrow> task_event \<Rightarrow> json" where
  "taskEvent_json zone ev = JObject ([(''task_id'', JText (te_TaskID ev)), (''name'', JText (te_Name ev)),
     (''status'', JText (status_String (te_Status ev)))] @ omit_text ''outcome'' (te_Outcome ev) @
     omit_text ''exit_reason'' (te_ExitReason ev) @ omit_ptr ''next_wake_at'' (time_json zone) (te_NextWakeAt ev) @
     [(''ts'', time_json zone (te_TS ev))])"

record cli_task_event =
  ce_TaskID :: string
  ce_Name :: string
  ce_Status :: string
  ce_Outcome :: string
  ce_ExitReason :: string
  ce_NextWakeAt :: "time option"
  ce_TS :: time

definition taskEvent_fields :: "(json, cli_task_event) fields" where
  "taskEvent_fields = [(''task_id'', field ce_TaskID ce_TaskID_update into_text), (''name'', field ce_Name ce_Name_update into_text),
     (''status'', field ce_Status ce_Status_update into_text), (''outcome'', field ce_Outcome ce_Outcome_update into_text),
     (''exit_reason'', field ce_ExitReason ce_ExitReason_update into_text),
     (''next_wake_at'', field ce_NextWakeAt ce_NextWakeAt_update (into_ptr into_time zero_time)),
     (''ts'', field ce_TS ce_TS_update into_time)]"

definition zero_taskEvent :: cli_task_event where
  "zero_taskEvent = \<lparr>ce_TaskID = [], ce_Name = [], ce_Status = [], ce_Outcome = [], ce_ExitReason = [], ce_NextWakeAt = None,
     ce_TS = zero_time\<rparr>"

definition taskEvent_fits :: "(time \<Rightarrow> int) \<Rightarrow> task_event \<Rightarrow> bool" where
  "taskEvent_fits zone ev \<longleftrightarrow> pred_option (time_fits zone) (te_NextWakeAt ev) \<and> time_fits zone (te_TS ev)"

definition taskEvent_view :: "task_event \<Rightarrow> cli_task_event" where
  "taskEvent_view ev = \<lparr>ce_TaskID = to_valid (te_TaskID ev), ce_Name = to_valid (te_Name ev),
     ce_Status = to_valid (status_String (te_Status ev)), ce_Outcome = to_valid (te_Outcome ev),
     ce_ExitReason = to_valid (te_ExitReason ev), ce_NextWakeAt = te_NextWakeAt ev, ce_TS = te_TS ev\<rparr>"

interpretation event_payload: payload "taskEvent_json zone" "into_struct taskEvent_fields" zero_taskEvent "taskEvent_fits zone"
  taskEvent_view for zone
proof
  fix ev assume f: "taskEvent_fits zone ev"
  then show "ints_only (taskEvent_json zone ev)"
    by (simp add: taskEvent_json_def taskEvent_fits_def ints)
  show "into_struct taskEvent_fields (norm_json (taskEvent_json zone ev)) zero_taskEvent = Some (taskEvent_view ev)"
    using f by (simp add: taskEvent_json_def taskEvent_fields_def zero_taskEvent_def taskEvent_fits_def taskEvent_view_def codec struct_simps)
qed

end
