(* ===== verification/Rpc.thy ===== *)
theory Rpc
  imports Wire
begin

text \<open>
  A remote call as bytes: the envelopes of \<open>internal/ipc/ipc.go\<close> as lines of JSON, what the server's scanner and the
  client's decoder make of a connection's bytes, the handlers of \<open>internal/daemon/methods.go\<close> from raw parameters to a
  raw result, and a client's \<open>Call\<close> of one of them. A call gets what the handler returned on the parameters the client
  built, but for bytes of strings that are no UTF-8.
\<close>

section \<open>Envelopes as lines (\<open>ipc.go\<close>)\<close>

abbreviation NL :: char where "NL \<equiv> CHR 0x0A"

definition text_member :: "string \<Rightarrow> json \<Rightarrow> string \<times> string" where
  "text_member k v = (k, json_text v)"

definition raw_member :: "string \<Rightarrow> string option \<Rightarrow> (string \<times> string) list" where
  "raw_member k raw = (case raw of None \<Rightarrow> [] | Some r \<Rightarrow> if r = [] then [] else [(k, r)])"

definition request_text :: "request \<Rightarrow> string" where
  "request_text r = object_text ([text_member ''id'' (JText (req_ID r)), text_member ''method'' (JText (req_Method r))] @
     raw_member ''params'' (Some (req_Params r)))"

definition error_json :: "string \<times> string \<Rightarrow> json" where
  "error_json e = JObject [(''code'', JText (fst e)), (''message'', JText (snd e))]"

definition response_text :: "response \<Rightarrow> string" where
  "response_text r = object_text ([text_member ''id'' (JText (resp_ID r)), text_member ''ok'' (JBoolean (resp_OK r))] @
     raw_member ''result'' (resp_Result r) @ (if resp_Stream r then [text_member ''stream'' (JBoolean True)] else []) @
     raw_member ''event'' (resp_Event r) @ (if resp_Done r then [text_member ''done'' (JBoolean True)] else []) @
     (case resp_Error r of None \<Rightarrow> [] | Some e \<Rightarrow> [text_member ''error'' (error_json e)]))"

text \<open>Decoding: a \<open>RawMessage\<close> is the raw text of its member, any other field its value. \<open>null\<close> is an empty struct.\<close>

definition by_value :: "(json \<Rightarrow> 'a \<Rightarrow> 'a option) \<Rightarrow> string \<times> json \<Rightarrow> 'a \<Rightarrow> 'a option" where
  "by_value into m x = into (snd m) x"

definition by_raw :: "(string \<Rightarrow> 'a) \<Rightarrow> string \<times> json \<Rightarrow> 'a \<Rightarrow> 'a option" where
  "by_raw f m x = Some (f (fst m))"

definition decode_envelope :: "(string \<times> json, 'a) fields \<Rightarrow> string \<Rightarrow> 'a \<Rightarrow> 'a option" where
  "decode_envelope fs line z = (if parse_json line = Some JNull then Some z
     else case parse_object line of None \<Rightarrow> None | Some ms \<Rightarrow> into_members fs ms z)"

definition request_fields :: "(string \<times> json, request) fields" where
  "request_fields = [(''id'', field req_ID req_ID_update (by_value into_text)),
     (''method'', field req_Method req_Method_update (by_value into_text)), (''params'', field req_Params req_Params_update (by_raw id))]"

definition zero_request :: request where
  "zero_request = \<lparr>req_ID = [], req_Method = [], req_Params = []\<rparr>"

text \<open>\<open>bad\<close> is the text of the decoder's error.\<close>

definition decode_request :: "(string \<Rightarrow> go_error) \<Rightarrow> string \<Rightarrow> request result" where
  "decode_request bad line = (case decode_envelope request_fields line zero_request of None \<Rightarrow> Inl (bad line) | Some r \<Rightarrow> Inr r)"

definition error_fields :: "(json, string \<times> string) fields" where
  "error_fields = [(''code'', field fst apfst into_text), (''message'', field snd apsnd into_text)]"

definition response_fields :: "(string \<times> json, response) fields" where
  "response_fields = [(''id'', field resp_ID resp_ID_update (by_value into_text)), (''ok'', field resp_OK resp_OK_update (by_value into_bool)),
     (''result'', field resp_Result resp_Result_update (by_raw Some)), (''stream'', field resp_Stream resp_Stream_update (by_value into_bool)),
     (''event'', field resp_Event resp_Event_update (by_raw Some)), (''done'', field resp_Done resp_Done_update (by_value into_bool)),
     (''error'', field resp_Error resp_Error_update (by_value (into_ptr (into_struct error_fields) ([], []))))]"

definition zero_response :: response where
  "zero_response = \<lparr>resp_ID = [], resp_OK = False, resp_Result = None, resp_Stream = False, resp_Event = None, resp_Done = False,
     resp_Error = None\<rparr>"

definition decode_response :: "string \<Rightarrow> response option" where
  "decode_response line = decode_envelope response_fields line zero_response"

text \<open>What arrives of an envelope whose raw parts are encoded values.\<close>

definition raw_ok :: "string option \<Rightarrow> bool" where
  "raw_ok raw \<longleftrightarrow> (case raw of None \<Rightarrow> True | Some r \<Rightarrow> \<exists>v. reads r v)"

definition request_view :: "request \<Rightarrow> request" where
  "request_view r = r\<lparr>req_ID := to_valid (req_ID r), req_Method := to_valid (req_Method r)\<rparr>"

definition response_view :: "response \<Rightarrow> response" where
  "response_view r = r\<lparr>resp_ID := to_valid (resp_ID r),
     resp_Error := map_option (\<lambda>e. (to_valid (fst e), to_valid (snd e))) (resp_Error r)\<rparr>"

text \<open>The members of an envelope as they are read.\<close>

definition text_read :: "string \<Rightarrow> json \<Rightarrow> string \<times> string \<times> json" where
  "text_read k v = (k, json_text v, norm_json v)"

definition raw_read :: "string \<Rightarrow> string option \<Rightarrow> json \<Rightarrow> (string \<times> string \<times> json) list" where
  "raw_read k raw v = (case raw of None \<Rightarrow> [] | Some r \<Rightarrow> [(k, r, v)])"

lemma text_member_reads: "list_all (\<lambda>c. byte c < 128) k \<Longrightarrow> ints_only v \<Longrightarrow> member_reads (text_member k v) (text_read k v)"
  by (simp add: member_reads_def text_member_def text_read_def to_valid_tag reads_json_text del: json_text.simps)

lemma raw_member_reads: "list_all (\<lambda>c. byte c < 128) k \<Longrightarrow> raw_ok raw \<Longrightarrow>
    \<exists>v. list_all2 member_reads (raw_member k raw) (raw_read k raw v)"
  by (auto simp: member_reads_def to_valid_tag raw_member_def raw_read_def raw_ok_def reads_def split: option.splits)

lemma object_not_null: "list_all2 member_reads ms rs \<Longrightarrow> parse_json (object_text ms) \<noteq> Some JNull"
  using parse_reads [OF reads_object(1)] by fastforce

lemma decode_object:
  "list_all2 member_reads ms rs \<Longrightarrow> decode_envelope fs (object_text ms) z = into_members fs rs z"
  using object_not_null [of ms rs] reads_object(2) [of ms rs] by (simp add: decode_envelope_def)

lemmas envelope_simps = struct_simps by_value_def by_raw_def codec text_read_def

lemma into_members_append:
  "into_members fs (a @ b) z = (case into_members fs a z of None \<Rightarrow> None | Some z' \<Rightarrow> into_members fs b z')"
  by (induction fs a z rule: into_members.induct) (auto split: option.splits)

lemma decode_request_text:
  assumes "req_Params r = [] \<or> raw_ok (Some (req_Params r))"
  shows "decode_request bad (request_text r) = Inr (request_view r)"
proof -
  let ?p = "if req_Params r = [] then None else Some (req_Params r)"
  have "raw_ok ?p" using assms by (auto simp: raw_ok_def)
  then obtain v where v: "list_all2 member_reads (raw_member ''params'' ?p) (raw_read ''params'' ?p v)"
    using raw_member_reads [of "''params''" ?p] by auto
  let ?rs = "[text_read ''id'' (JText (req_ID r)), text_read ''method'' (JText (req_Method r))] @ raw_read ''params'' ?p v"
  have m: "list_all2 member_reads ([text_member ''id'' (JText (req_ID r)), text_member ''method'' (JText (req_Method r))] @
      raw_member ''params'' ?p) ?rs"
    by (intro list_all2_appendI v) (simp add: text_member_reads del: json_text.simps)
  have "request_text r = object_text ([text_member ''id'' (JText (req_ID r)), text_member ''method'' (JText (req_Method r))] @
      raw_member ''params'' ?p)"
    by (simp add: request_text_def raw_member_def)
  then have "decode_envelope request_fields (request_text r) zero_request = into_members request_fields ?rs zero_request"
    by (simp only: decode_object [OF m])
  also have "\<dots> = Some (request_view r)"
    by (cases r) (simp add: raw_read_def request_fields_def zero_request_def request_view_def envelope_simps)
  finally show ?thesis by (simp add: decode_request_def)
qed

lemma error_reads: "ints_only (error_json e)"
  "into_ptr (into_struct error_fields) ([], []) (norm_json (error_json e)) None = Some (Some (to_valid (fst e), to_valid (snd e)))"
  by (simp_all add: error_json_def ints into_ptr_def norm_object norm_members_simps)
    (simp add: into_struct_def error_fields_def envelope_simps)

text \<open>Each member of a response sets its field.\<close>

lemma response_members:
  "into_members response_fields [text_read ''id'' (JText i), text_read ''ok'' (JBoolean b)] z = Some (z\<lparr>resp_ID := to_valid i, resp_OK := b\<rparr>)"
  "resp_Result z = None \<Longrightarrow> into_members response_fields (raw_read ''result'' raw v) z = Some (z\<lparr>resp_Result := raw\<rparr>)"
  "resp_Stream z = False \<Longrightarrow> into_members response_fields (if c then [text_read ''stream'' (JBoolean True)] else []) z =
     Some (z\<lparr>resp_Stream := c\<rparr>)"
  "resp_Event z = None \<Longrightarrow> into_members response_fields (raw_read ''event'' raw v) z = Some (z\<lparr>resp_Event := raw\<rparr>)"
  "resp_Done z = False \<Longrightarrow> into_members response_fields (if c then [text_read ''done'' (JBoolean True)] else []) z =
     Some (z\<lparr>resp_Done := c\<rparr>)"
  "resp_Error z = None \<Longrightarrow> into_members response_fields (case e of None \<Rightarrow> [] | Some x \<Rightarrow> [text_read ''error'' (error_json x)]) z =
     Some (z\<lparr>resp_Error := map_option (\<lambda>e. (to_valid (fst e), to_valid (snd e))) e\<rparr>)"
  by (cases z; auto simp: response_fields_def raw_read_def envelope_simps error_reads split: option.splits)+

lemma decode_response_text:
  assumes "raw_ok (resp_Result r)" "raw_ok (resp_Event r)"
  shows "decode_response (response_text r) = Some (response_view r)" "\<exists>v. reads (response_text r) v"
proof -
  obtain v w where v: "list_all2 member_reads (raw_member ''result'' (resp_Result r)) (raw_read ''result'' (resp_Result r) v)"
    and w: "list_all2 member_reads (raw_member ''event'' (resp_Event r)) (raw_read ''event'' (resp_Event r) w)"
    using raw_member_reads [of "''result''"] raw_member_reads [of "''event''"] assms by fastforce
  have e: "list_all2 member_reads (case resp_Error r of None \<Rightarrow> [] | Some e \<Rightarrow> [text_member ''error'' (error_json e)])
      (case resp_Error r of None \<Rightarrow> [] | Some x \<Rightarrow> [text_read ''error'' (error_json x)])"
    by (simp add: text_member_reads error_reads split: option.split)
  let ?rs = "[text_read ''id'' (JText (resp_ID r)), text_read ''ok'' (JBoolean (resp_OK r))] @ raw_read ''result'' (resp_Result r) v @
     (if resp_Stream r then [text_read ''stream'' (JBoolean True)] else []) @ raw_read ''event'' (resp_Event r) w @
     (if resp_Done r then [text_read ''done'' (JBoolean True)] else []) @
     (case resp_Error r of None \<Rightarrow> [] | Some x \<Rightarrow> [text_read ''error'' (error_json x)])"
  have m: "list_all2 member_reads ([text_member ''id'' (JText (resp_ID r)), text_member ''ok'' (JBoolean (resp_OK r))] @
     raw_member ''result'' (resp_Result r) @ (if resp_Stream r then [text_member ''stream'' (JBoolean True)] else []) @
     raw_member ''event'' (resp_Event r) @ (if resp_Done r then [text_member ''done'' (JBoolean True)] else []) @
     (case resp_Error r of None \<Rightarrow> [] | Some e \<Rightarrow> [text_member ''error'' (error_json e)])) ?rs"
    by (intro list_all2_appendI v w e) (simp_all add: text_member_reads)
  show "\<exists>v. reads (response_text r) v" using reads_object(1) [OF m] by (auto simp: response_text_def)
  have "into_members response_fields ?rs zero_response = Some (response_view r)"
    by (simp only: into_members_append response_members option.case zero_response_def response.simps)
      (simp add: response_view_def)
  then show "decode_response (response_text r) = Some (response_view r)"
    unfolding decode_response_def response_text_def decode_object [OF m] .
qed


section \<open>The bytes of a connection\<close>

text \<open>\<open>json.Encoder\<close> ends every value with a line feed.\<close>

definition Encode_lines :: "string list \<Rightarrow> string" where
  "Encode_lines ls = concat (map (\<lambda>l. l @ [NL]) ls)"

text \<open>The lines the server's scanner yields: its buffer holds up to 16 MiB, and a longer line ends the connection.\<close>

definition conn_lines :: "string \<Rightarrow> string list" where
  "conn_lines bytes = map drop_cr (takeWhile (\<lambda>l. length l < 16777216) (raw_lines bytes))"

text \<open>The client's \<open>json.Decoder\<close>: one value after the other, whatever white space is between them, until one does not
  decode or the input ends. Every value takes a byte at least.\<close>

fun read_responses :: "nat \<Rightarrow> string \<Rightarrow> response list" where
  "read_responses 0 s = []"
| "read_responses (Suc n) s0 = (let s = skip_ws s0 in
     if s = [] then []
     else (case parse_value (Suc (length s)) s of None \<Rightarrow> []
       | Some (v, r) \<Rightarrow> (case decode_response (take (length s - length r) s) of None \<Rightarrow> []
           | Some resp \<Rightarrow> resp # read_responses n r)))"

definition serve_bytes :: "(string \<rightharpoonup> 's handler) \<Rightarrow> (string \<Rightarrow> go_error) \<Rightarrow> string \<Rightarrow> 's \<Rightarrow> string \<times> 's" where
  "serve_bytes handlers bad bytes s =
     (let (rs, s') = serveConn handlers (decode_request bad) (conn_lines bytes) s in (Encode_lines (map response_text rs), s'))"

lemma Split_Encode_lines: "\<forall>l \<in> set ls. NL \<notin> set l \<Longrightarrow> Split (Encode_lines ls) NL = ls @ [[]]"
  by (induction ls) (simp_all add: Encode_lines_def Split_Cons_sep)

lemma raw_lines_Encode: "\<forall>l \<in> set ls. NL \<notin> set l \<Longrightarrow> raw_lines (Encode_lines ls) = ls"
  by (simp add: raw_lines_def Split_Encode_lines)

text \<open>A line of printable bytes that is short enough comes out as it is.\<close>

definition plain_line :: "string \<Rightarrow> bool" where
  "plain_line l \<longleftrightarrow> length l < 16777216 \<and> (\<forall>b \<in> set l. 32 \<le> byte b)"

lemma plain_line_bytes: "plain_line l \<Longrightarrow> NL \<notin> set l \<and> drop_cr l = l"
  by (force simp: plain_line_def drop_cr_def dest: last_in_set)

text \<open>A request that is short enough is a line the server's scanner takes.\<close>

lemma request_plain:
  assumes "\<forall>c \<in> set (req_Params req). 32 \<le> byte c" "length (request_text req) < 16777216"
  shows "plain_line (request_text req)"
proof -
  have "32 \<le> byte c" if "(k, raw) \<in> set ([text_member ''id'' (JText (req_ID req)), text_member ''method'' (JText (req_Method req))] @
     raw_member ''params'' (Some (req_Params req)))" "c \<in> set raw" for k raw c
    using that assms(1) escape_printable by (auto simp: text_member_def raw_member_def split: if_splits)
  then have "32 \<le> byte b" if "b \<in> set (request_text req)" for b
    using that unfolding request_text_def by (rule object_text_printable)
  then show ?thesis using assms(2) by (simp add: plain_line_def)
qed

lemma conn_lines_Encode: "\<forall>l \<in> set ls. plain_line l \<Longrightarrow> conn_lines (Encode_lines ls) = ls"
proof -
  assume p: "\<forall>l \<in> set ls. plain_line l"
  then have "raw_lines (Encode_lines ls) = ls" using raw_lines_Encode plain_line_bytes by blast
  moreover have "takeWhile (\<lambda>l. length l < 16777216) ls = ls" using p by (simp add: takeWhile_eq_all_conv plain_line_def)
  moreover have "map drop_cr ls = ls" using p plain_line_bytes by (simp add: map_idI)
  ultimately show ?thesis by (simp only: conn_lines_def)
qed

lemma skip_ws_NL: "skip_ws (NL # s) = skip_ws s"
  by (simp add: skip_ws_def is_ws_def)

lemma no_more_NL [simp]: "no_more (NL # t)"
  by (simp add: no_more_def is_digit_def)

lemma read_responses_skip: "read_responses n (NL # s) = read_responses n s"
  by (cases n) (simp_all add: skip_ws_NL)

lemma read_responses_Encode:
  assumes "\<forall>r \<in> set rs. raw_ok (resp_Result r) \<and> raw_ok (resp_Event r)" "length rs \<le> n"
  shows "read_responses n (Encode_lines (map response_text rs)) = map response_view rs"
  using assms
proof (induction rs arbitrary: n)
  case (Cons r rs)
  obtain m where n: "n = Suc m" using Cons.prems(2) by (cases n) auto
  let ?t = "NL # Encode_lines (map response_text rs)"
  obtain v where "reads (response_text r) v" using decode_response_text(2) Cons.prems by auto
  then have "response_text r \<noteq> []" "skip_ws (response_text r @ ?t) = response_text r @ ?t"
    "parse_value (Suc (length (response_text r @ ?t))) (response_text r @ ?t) = Some (v, ?t)"
    by (simp_all add: reads_def skip_ws_id)
  moreover have "decode_response (response_text r) = Some (response_view r)" using decode_response_text(1) Cons.prems by auto
  moreover have "read_responses m ?t = map response_view rs" using Cons n by (simp add: read_responses_skip)
  ultimately show ?case using n by (simp add: Encode_lines_def)
next
  case Nil
  then show ?case by (cases n) (simp_all add: Encode_lines_def)
qed


section \<open>Handlers on raw parameters (\<open>methods.go\<close>)\<close>

text \<open>The decoding in \<open>unmarshalParams\<close>: no parameters leave the zero value. \<open>Marshal\<close> fails on the first instant it
  cannot write.\<close>

definition params_of :: "(string \<Rightarrow> go_error) \<Rightarrow> (json \<Rightarrow> 'p \<Rightarrow> 'p option) \<Rightarrow> 'p \<Rightarrow> string \<Rightarrow> 'p result" where
  "params_of bad into z raw = (if raw = [] then Inr z else case Unmarshal into raw z of None \<Rightarrow> Inl (bad raw) | Some p \<Rightarrow> Inr p)"

definition time_error :: "(time \<Rightarrow> int) \<Rightarrow> string \<Rightarrow> time \<Rightarrow> go_error option" where
  "time_error zone go_type t = (if year_ok (t + zone t * Second) then None
     else Some (Err (''json: error calling MarshalJSON for type '' @ go_type @ '': Time.MarshalJSON: year outside of range [0,9999]'')))"

definition ptr_error :: "(time \<Rightarrow> int) \<Rightarrow> time option \<Rightarrow> go_error option" where
  "ptr_error zone p = (case p of None \<Rightarrow> None | Some t \<Rightarrow> time_error zone ''*time.Time'' t)"

fun first_error :: "go_error option list \<Rightarrow> go_error option" where
  "first_error [] = None"
| "first_error (Some e # es) = Some e"
| "first_error (None # es) = first_error es"

definition taskInfo_error :: "(time \<Rightarrow> int) \<Rightarrow> task_info \<Rightarrow> go_error option" where
  "taskInfo_error zone t = first_error [ptr_error zone (ti_NextWakeAt t), time_error zone ''time.Time'' (ti_CreatedAt t),
     time_error zone ''time.Time'' (ti_UpdatedAt t)]"

definition attemptInfo_error :: "(time \<Rightarrow> int) \<Rightarrow> attempt_info \<Rightarrow> go_error option" where
  "attemptInfo_error zone a = first_error [time_error zone ''time.Time'' (ai_StartedAt a), ptr_error zone (ai_EndedAt a),
     ptr_error zone (ai_ResetAt a)]"

definition getResult_error :: "(time \<Rightarrow> int) \<Rightarrow> task_info \<times> attempt_info list \<Rightarrow> go_error option" where
  "getResult_error zone r = first_error (taskInfo_error zone (fst r) # map (attemptInfo_error zone) (snd r))"

definition Marshal_result :: "('r \<Rightarrow> go_error option) \<Rightarrow> ('r \<Rightarrow> json) \<Rightarrow> 'r \<Rightarrow> string result" where
  "Marshal_result err enc r = (case err r of Some e \<Rightarrow> Inl e | None \<Rightarrow> Inr (json_text (enc r)))"

text \<open>A handler that answers at once, from its raw parameters to its raw result.\<close>

definition wire_method :: "(string \<Rightarrow> go_error) \<Rightarrow> (json \<Rightarrow> 'p \<Rightarrow> 'p option) \<Rightarrow> 'p \<Rightarrow> ('r \<Rightarrow> go_error option) \<Rightarrow> ('r \<Rightarrow> json) \<Rightarrow>
    ('p result \<Rightarrow> 's \<Rightarrow> 'r result \<times> 's) \<Rightarrow> 's handler" where
  "wire_method bad into z err enc h raw s = (case h (params_of bad into z raw) s of
     (Inl e, s') \<Rightarrow> ([], Fails e, s') | (Inr r, s') \<Rightarrow> ([], Returns (Marshal_result err enc r), s'))"

definition reading :: "('p result \<Rightarrow> 's \<Rightarrow> 'r result) \<Rightarrow> 'p result \<Rightarrow> 's \<Rightarrow> 'r result \<times> 's" where
  "reading h p s = (h p s, s)"

definition handlePing :: "ping_result \<Rightarrow> daemon handler" where
  "handlePing answer raw d = ([], Returns (Inr (json_text (pingResult_json answer))), d)"

definition shutdownResult_json :: "unit \<Rightarrow> json" where
  "shutdownResult_json u = JObject [(''shutting_down'', JBoolean True)]"

text \<open>The registered methods that answer at once. \<open>task.remove\<close> waits, and the others stream or work on a terminal.\<close>

definition daemon_methods :: "outside \<Rightarrow> (string \<Rightarrow> go_error) \<Rightarrow> (time \<Rightarrow> int) \<Rightarrow> ping_result \<Rightarrow> string \<rightharpoonup> daemon handler" where
  "daemon_methods G bad zone answer =
     register_handler ''task.stop'' (wire_method bad (into_struct selectorParams_fields) [] (\<lambda>_. None) actionResult_json handleStop)
    (register_handler ''task.pause'' (wire_method bad (into_struct selectorParams_fields) [] (\<lambda>_. None) actionResult_json handlePause)
    (register_handler ''task.resume'' (wire_method bad (into_struct selectorParams_fields) [] (\<lambda>_. None) actionResult_json handleResume)
    (register_handler ''task.get'' (wire_method bad (into_struct selectorParams_fields) [] (getResult_error zone) (getResult_json zone)
       (reading handleGet))
    (register_handler ''task.list'' (wire_method bad (into_struct listParams_fields) zero_listParams
       (\<lambda>ts. first_error (map (taskInfo_error zone) ts)) (\<lambda>ts. JArray (map (taskInfo_json zone) ts)) (reading handleList))
    (register_handler ''task.create'' (wire_method bad (into_struct createParams_fields) zero_createParams (taskInfo_error zone)
       (taskInfo_json zone) (handleCreate G))
    (register_handler ''daemon.shutdown'' (wire_method bad (into_struct shutdownParams_fields) False (\<lambda>_. None) shutdownResult_json
       handleShutdown)
    (register_handler ''daemon.ping'' (handlePing answer) Map.empty)))))))"

text \<open>\<open>Client.Call\<close> over a connection: the request's line, what the server writes, and the result decoded into \<open>z\<close>.\<close>

definition Call_over :: "(string \<rightharpoonup> 's handler) \<Rightarrow> (string \<Rightarrow> go_error) \<Rightarrow> go_error \<Rightarrow> (json \<Rightarrow> 'v \<Rightarrow> 'v option) \<Rightarrow> 'v \<Rightarrow>
    request \<Rightarrow> 's \<Rightarrow> 'v result \<times> 's" where
  "Call_over handlers bad eof into z req s =
     (let (bytes, s') = serve_bytes handlers bad (Encode_lines [request_text req]) s in
      (case client_Call None eof (req_ID req) (read_responses (length bytes) bytes) of
         Inl e \<Rightarrow> (Inl e, s')
       | Inr None \<Rightarrow> (Inr z, s')
       | Inr (Some raw) \<Rightarrow> if raw = [] then (Inr z, s') else
           (case Unmarshal into raw z of None \<Rightarrow> (Inl (Wrap ''ipc: decode result: '' (bad raw) []), s')
            | Some v \<Rightarrow> (Inr v, s'))))"


section \<open>A call gets what the handler returns\<close>

lemma length_Encode: "length rs \<le> length (Encode_lines (map response_text rs))"
  by (induction rs) (simp_all add: Encode_lines_def)

lemma serve_one:
  assumes "plain_line (request_text req)" and "req_Params req = [] \<or> raw_ok (Some (req_Params req))"
    and "handleRequest handlers (request_view req) s = (rs, s')" and "\<forall>r \<in> set rs. raw_ok (resp_Result r) \<and> raw_ok (resp_Event r)"
    and "serve_bytes handlers bad (Encode_lines [request_text req]) s = (bytes, t)"
  shows "read_responses (length bytes) bytes = map response_view rs" "t = s'"
proof -
  have b: "bytes = Encode_lines (map response_text rs)" "t = s'"
    using assms(5) conn_lines_Encode [of "[request_text req]"] assms(1,3) decode_request_text [OF assms(2)]
    by (simp_all add: serve_bytes_def)
  then show "t = s'" by simp
  show "read_responses (length bytes) bytes = map response_view rs"
    unfolding b(1) by (rule read_responses_Encode [OF assms(4) length_Encode])
qed

lemma Call_one:
  assumes "handlers (req_Method req) = Some fn" and "fn (req_Params req) s = ([], e, s')"
    and "valid_utf8 (req_ID req)" "valid_utf8 (req_Method req)" "plain_line (request_text req)"
    and "req_Params req = [] \<or> raw_ok (Some (req_Params req))" and "\<forall>raw. e = Returns (Inr raw) \<longrightarrow> raw_ok (Some raw)"
  shows "Call_over handlers bad eof into z req s = (case response_view (terminal_response (req_ID req) e) of r \<Rightarrow>
    if \<not> resp_OK r then Inl (respError r) else (case resp_Result r of None \<Rightarrow> Inr z | Some raw \<Rightarrow> if raw = [] then Inr z
       else (case Unmarshal into raw z of None \<Rightarrow> Inl (Wrap ''ipc: decode result: '' (bad raw) []) | Some v \<Rightarrow> Inr v)), s')"
proof -
  obtain bytes t where sb: "serve_bytes handlers bad (Encode_lines [request_text req]) s = (bytes, t)" by fastforce
  have v: "request_view req = req" using assms(3,4) by (simp add: request_view_def valid_utf8_iff)
  have h: "handleRequest handlers (request_view req) s = ([terminal_response (req_ID req) e], s')"
    unfolding v using assms(1,2) by (cases e) (simp_all add: handleRequest_def invoke_def terminal_response_def toIPCError_def)
  have ok: "\<forall>r \<in> set [terminal_response (req_ID req) e]. raw_ok (resp_Result r) \<and> raw_ok (resp_Event r)"
    using assms(7) by (auto simp: terminal_response_def response_defs raw_ok_def split: handler_end.split sum.split)
  note r = serve_one [OF assms(5,6) h ok sb]
  have "resp_ID (response_view (terminal_response (req_ID req) e)) = req_ID req" "\<not> resp_Stream (response_view (terminal_response (req_ID req) e))"
    using terminal_response_shape [of "req_ID req" e] assms(3) by (simp_all add: response_view_def terminal_def valid_utf8_iff)
  then show ?thesis using r sb by (auto simp: Call_over_def split: option.splits)
qed

text \<open>A method's contract: its parameters and its result are payloads, and what its encoder refuses does not fit.\<close>

definition wire_error :: "go_error \<Rightarrow> go_error" where
  "wire_error e = (case toIPCError e of (c, m) \<Rightarrow> IpcError (to_valid c) (to_valid m))"

locale rpc_method = P: payload penc pinto pz pfits pview + R: payload renc rinto rz rfits rview
  for penc :: "'p \<Rightarrow> json" and pinto :: "json \<Rightarrow> 'q \<Rightarrow> 'q option" and pz pfits pview
    and renc :: "'r \<Rightarrow> json" and rinto :: "json \<Rightarrow> 'v \<Rightarrow> 'v option" and rz rfits rview +
  fixes err :: "'r \<Rightarrow> go_error option" and h :: "'q result \<Rightarrow> 's \<Rightarrow> 'r result \<times> 's"
  assumes fits_no_error: "rfits r \<Longrightarrow> err r = None"
begin

lemma params: "pfits p \<Longrightarrow> params_of bad pinto pz (json_text (penc p)) = Inr (pview p)"
  using P.unmarshal_text P.text_reads by (auto simp: params_of_def reads_def)

lemma call:
  assumes "handlers (req_Method req) = Some (wire_method bad pinto pz err renc h)"
    and "req_Params req = json_text (penc p)" "pfits p" and "valid_utf8 (req_ID req)" "valid_utf8 (req_Method req)"
    and "plain_line (request_text req)" and "\<And>r t. h (Inr (pview p)) s = (Inr r, t) \<Longrightarrow> rfits r"
  shows "Call_over handlers bad eof rinto rz req s =
    (case h (Inr (pview p)) s of (Inl e, t) \<Rightarrow> (Inl (wire_error e), t) | (Inr r, t) \<Rightarrow> (Inr (rview r), t))"
proof -
  have raw: "req_Params req = [] \<or> raw_ok (Some (req_Params req))" using P.text_reads [OF assms(3)] assms(2) by (auto simp: raw_ok_def)
  obtain x t where x: "h (Inr (pview p)) s = (x, t)" by fastforce
  show ?thesis
  proof (cases x)
    case (Inl e)
    have f: "wire_method bad pinto pz err renc h (req_Params req) s = ([], Fails e, t)"
      using x Inl by (simp add: wire_method_def assms(2) params [OF assms(3)])
    show ?thesis using x Inl unfolding Call_one [where handlers = handlers and req = req, OF assms(1) f assms(4,5,6) raw, simplified]
      by (cases "toIPCError e") (simp add: terminal_response_def error_response_def response_view_def respError_def wire_error_def)
  next
    case (Inr r)
    then have r: "rfits r" using assms(7) x by simp
    have f: "wire_method bad pinto pz err renc h (req_Params req) s = ([], Returns (Inr (json_text (renc r))), t)"
      using x Inr by (simp add: wire_method_def assms(2) params [OF assms(3)] Marshal_result_def fits_no_error [OF r])
    have ok: "\<forall>raw. Returns (Inr (json_text (renc r))) = Returns (Inr raw) \<longrightarrow> raw_ok (Some raw)"
      using R.text_reads [OF r] by (auto simp: raw_ok_def)
    have "json_text (renc r) \<noteq> []" using R.text_reads [OF r] by (auto simp: reads_def)
    then show ?thesis using x Inr unfolding Call_one [where handlers = handlers and req = req, OF assms(1) f assms(4,5,6) raw ok]
      by (simp add: terminal_response_def ok_response_def response_view_def R.unmarshal_text [OF r])
  qed
qed

end

lemma fits_times: "time_fits zone t \<Longrightarrow> time_error zone g t = None" "pred_option (time_fits zone) p \<Longrightarrow> ptr_error zone p = None"
  by (auto simp: time_fits_def time_error_def ptr_error_def split: option.splits)

lemma fits_taskInfo: "taskInfo_fits zone t \<Longrightarrow> taskInfo_error zone t = None"
  by (simp add: taskInfo_fits_def taskInfo_error_def fits_times)

lemma first_error_None: "list_all (\<lambda>e. e = None) es \<Longrightarrow> first_error es = None"
  by (induction es rule: first_error.induct) auto

lemma fits_attemptInfo: "attemptInfo_fits zone a \<Longrightarrow> attemptInfo_error zone a = None"
  by (simp add: attemptInfo_fits_def attemptInfo_error_def fits_times)

interpretation create_rpc: rpc_method createParams_json "into_struct createParams_fields" zero_createParams createParams_fits createParams_view
  "taskInfo_json zone" "into_struct taskInfo_fields" zero_taskInfo "taskInfo_fits zone" taskInfo_view "taskInfo_error zone" "handleCreate G"
  for zone G
  by unfold_locales (rule fits_taskInfo)

interpretation list_rpc: rpc_method listParams_json "into_struct listParams_fields" zero_listParams "\<lambda>_. True"
  "\<lambda>p. p\<lparr>lp_Status := to_valid (lp_Status p)\<rparr>" "\<lambda>ts. JArray (map (taskInfo_json zone) ts)"
  "into_list (into_struct taskInfo_fields) zero_taskInfo" "[]" "list_all (taskInfo_fits zone)" "map taskInfo_view"
  "\<lambda>ts. first_error (map (taskInfo_error zone) ts)" "reading handleList" for zone
  by unfold_locales (auto intro!: first_error_None fits_taskInfo simp: list_all_iff)

interpretation get_rpc: rpc_method selectorParams_json "into_struct selectorParams_fields" "[]" "\<lambda>_. True" to_valid
  "getResult_json zone" "into_struct getResult_fields" "(zero_taskInfo, [])"
  "\<lambda>r. taskInfo_fits zone (fst r) \<and> list_all (attemptInfo_fits zone) (snd r)"
  "\<lambda>r. (taskInfo_view (fst r), map attemptInfo_view (snd r))" "getResult_error zone" "reading handleGet" for zone
  by unfold_locales (auto intro!: first_error_None fits_taskInfo fits_attemptInfo simp: list_all_iff getResult_error_def)

interpretation action_rpc: rpc_method selectorParams_json "into_struct selectorParams_fields" "[]" "\<lambda>_. True" to_valid
  actionResult_json "into_struct actionResult_fields" "[]" "\<lambda>_. True" to_valid "\<lambda>_. None" "handleAction ev valid" for ev valid
  by unfold_locales simp

end
