(* ===== verification/RpcProps.thy ===== *)
theory RpcProps
  imports Rpc DaemonProps
begin

text \<open>
  What a client may rely on across the wire: its calls run the handlers on what it sent and return what they returned;
  envelopes arrive one by one, in order and unchanged; the bytes of a terminal arrive exactly. What is no UTF-8 does not:
  it is replaced, silently, in paths, prompts, arguments and log lines.
\<close>

section \<open>Creating a task and reading it back\<close>

lemma create_result_fits:
  assumes "\<forall>n \<le> w_step (dm_world d) + 2. time_fits zone (o_clock G n)" "handleCreate G (Inr p) d = (Inr t, d')"
  shows "taskInfo_fits zone t"
proof -
  obtain tcp d1 where p: "create_prepare G (Inr p) d = (Inr tcp, d1)" and c: "create_commit G tcp d1 = (Inr t, d')"
    using assms(2) by (auto simp: handleCreate_def split: prod.splits sum.splits)
  obtain x cfg prov where tcp: "tcp = (x, cfg, prov)" by (metis prod_cases3)
  have "CurrentAttempt x = 0 \<and> TotalAttempts x = 0 \<and> NextWakeAt x = None \<and> 
      UpdatedAt x = CreatedAt x \<and> CreatedAt x \<in> {o_clock G (Suc k), o_clock G (Suc (Suc k))}"
    if k: "k = w_step (dm_world d)" for k
    using p unfolding tcp by (auto simp: create_prepare_def create_session_def new_uuid_def now_of_def Let_def k split: sum.splits if_splits prod.splits option.splits)
  note x = this [OF refl]
  moreover have "t = taskInfo x" using c unfolding tcp
    by (auto simp: create_commit_def Let_def split: prod.splits option.splits)
  moreover have "time_fits zone (CreatedAt x)" using x assms(1) by (auto simp: numeral_2_eq_2)
  ultimately show ?thesis by (simp add: taskInfo_fits_def taskInfo_def in_i64_0)
qed




lemma sample_fits: "createParams_fits sample_request" "createParams_view sample_request = sample_request"
  by (simp_all add: createParams_fits_def createParams_view_def sample_request_def to_valid_tag)



text \<open>The sample daemon knows one task.\<close>

lemma sample_get: "handleGet (Inr sample_id) sample_daemon = Inr (taskInfo (stored waiting_task), [])"
proof -
  have times: "task_times_ok waiting_task" by (simp add: task_times_ok_def waiting_task_def sample_task_def year_ok_epoch)
  have i: "sample_id \<noteq> []" "ID waiting_task = sample_id" by (simp_all add: sample_id_def waiting_task_def)
  have "GetTask sample_id (task_db sample_daemon) = Inr (stored waiting_task)"
    using times i by (simp add: GetTask_def sample_daemon_def)
  moreover have "ListAttempts j (task_db sample_daemon) = Inr []" for j
    by (simp add: ListAttempts_def sample_daemon_def empty_db_def)
  ultimately show ?thesis using i by (simp add: handleGet_def unmarshalParams_def resolveTask_def)
qed


section \<open>Envelopes\<close>

text \<open>The raw parts of an envelope the program builds are encoded values.\<close>

definition encoded :: "string option \<Rightarrow> bool" where
  "encoded raw \<longleftrightarrow> (case raw of None \<Rightarrow> True | Some r \<Rightarrow> \<exists>v. ints_only v \<and> r = json_text v)"

lemma encoded_raw_ok: "encoded raw \<Longrightarrow> raw_ok raw"
  by (auto simp: encoded_def raw_ok_def split: option.splits intro: reads_json_text)

text \<open>C28: messages keep their bounds. Whatever envelopes the server writes one after the other, with whatever texts and
  control characters in their payloads, the client's decoder gets them one by one, in order, each with its raw parts
  unchanged and its texts unchanged up to bytes that are no UTF-8; and whatever requests clients put on a connection,
  each shorter than 16 MiB, the server's scanner gets one line for each and decodes it to that request.\<close>

theorem messages_keep_their_bounds:
  assumes "\<forall>r \<in> set rs. encoded (resp_Result r) \<and> encoded (resp_Event r)"
    and "\<forall>q \<in> set reqs. (req_Params q = [] \<or> encoded (Some (req_Params q))) \<and> length (request_text q) < 16777216"
  shows "read_responses (length (Encode_lines (map response_text rs))) (Encode_lines (map response_text rs)) = map response_view rs \<and>
    map (decode_request bad) (conn_lines (Encode_lines (map request_text reqs))) = map (Inr \<circ> request_view) reqs"
proof
  have "\<forall>r \<in> set rs. raw_ok (resp_Result r) \<and> raw_ok (resp_Event r)" using assms(1) encoded_raw_ok by blast
  then show "read_responses (length (Encode_lines (map response_text rs))) (Encode_lines (map response_text rs)) = map response_view rs"
    by (rule read_responses_Encode [OF _ length_Encode])
  have "plain_line (request_text q)" if "q \<in> set reqs" for q
  proof (rule request_plain)
    show "\<forall>c \<in> set (req_Params q). 32 \<le> byte c"
      using assms(2) that json_text_printable by (fastforce simp: encoded_def)
  qed (use assms(2) that in blast)
  then have "conn_lines (Encode_lines (map request_text reqs)) = map request_text reqs"
    by (intro conn_lines_Encode) auto
  moreover have "decode_request bad (request_text q) = Inr (request_view q)" if "q \<in> set reqs" for q
    using assms(2) that encoded_raw_ok by (intro decode_request_text) blast
  ultimately show "map (decode_request bad) (conn_lines (Encode_lines (map request_text reqs))) = map (Inr \<circ> request_view) reqs"
    by simp
qed

theorem messages_keep_their_bounds_witness:
  "let out = Encode_lines (map response_text [stream_response ''1'' (json_text (JText (''a'' @ [NL] @ ''}''))), done_response ''1'']) in
   read_responses (length out) out = [stream_response ''1'' (json_text (JText (''a'' @ [NL] @ ''}''))), done_response ''1'']"
proof -
  have e: "encoded (Some (json_text (JText (''a'' @ [NL] @ ''}''))))" "encoded None"
    by (auto simp: encoded_def simp del: json_text.simps intro!: exI [of _ "JText (''a'' @ [NL] @ ''}'')"])
  have "response_view r = r" if "resp_ID r = ''1''" "resp_Error r = None" for r
    using that by (simp add: response_view_def to_valid_tag)
  then show ?thesis
    using messages_keep_their_bounds [of "[stream_response ''1'' (json_text (JText (''a'' @ [NL] @ ''}''))), done_response ''1'']" "[]"] e
    by (simp add: response_defs Let_def del: json_text.simps)
qed

text \<open>A request that is too long is dropped. If its line has 16 MiB or more, as with a prompt of that size, the
  server's scanner gives up on the connection: no handler runs, the daemon is unchanged, and the client gets no error
  envelope but the end of its input.\<close>

lemma oversized_request_is_dropped:
  assumes "16777216 \<le> length (request_text req)" and "\<forall>c \<in> set (req_Params req). 32 \<le> byte c"
  shows "Call_over handlers bad eof into z req s = (Inl (Wrap ''ipc: read response: '' eof []), s)"
proof -
  have "32 \<le> byte c" if "(k, raw) \<in> set ([text_member ''id'' (JText (req_ID req)), text_member ''method'' (JText (req_Method req))] @
     raw_member ''params'' (Some (req_Params req)))" "c \<in> set raw" for k raw c
    using that assms(2) escape_printable by (auto simp: text_member_def raw_member_def split: if_splits)
  then have "32 \<le> byte b" if "b \<in> set (request_text req)" for b
    using that unfolding request_text_def by (rule object_text_printable)
  then have "NL \<notin> set (request_text req)" by fastforce
  then have "conn_lines (Encode_lines [request_text req]) = []"
    using raw_lines_Encode [of "[request_text req]"] assms(1) by (simp add: conn_lines_def)
  then show ?thesis by (simp add: Call_over_def serve_bytes_def Encode_lines_def readErr_def)
qed


lemma oversized_request_is_dropped_witness:
  "Call_over (daemon_methods sample_outside (\<lambda>_. Err ''bad'') (\<lambda>_. 0) \<lparr>ping_Version = [], ping_SchemaVersion = 1, ping_PID = 1\<rparr>)
     (\<lambda>_. Err ''bad'') (Err ''EOF'') (into_struct taskInfo_fields) zero_taskInfo
     \<lparr>req_ID = ''1'', req_Method = ''task.create'', req_Params = replicate 16777216 (CHR ''1'')\<rparr> empty_daemon
   = (Inl (Wrap ''ipc: read response: '' (Err ''EOF'') []), empty_daemon)"
proof (rule oversized_request_is_dropped)
  let ?p = "replicate 16777216 (CHR ''1'')"
  have l: "length r \<le> length (object_text [(k1, r1), (k2, r2), (k, r)])" for k1 r1 k2 r2 k r
    by (simp add: object_text_def member_text_def)
  have "?p \<noteq> []" by (simp add: replicate_empty)
  then have "length ?p \<le> length (request_text \<lparr>req_ID = ''1'', req_Method = ''task.create'', req_Params = ?p\<rparr>)"
    using l by (simp only: request_text_def raw_member_def text_member_def request.simps option.case if_False append.simps)
  then show "16777216 \<le> length (request_text \<lparr>req_ID = ''1'', req_Method = ''task.create'', req_Params = ?p\<rparr>)"
    by (simp only: length_replicate)
qed auto

section \<open>A terminal's bytes\<close>

text \<open>A chunk of terminal output as \<open>handleAttach\<close> sends it, what the callback of \<open>runInteractiveAttach\<close> writes of it, and
  what \<open>handleAttach\<close> sends: the retained output if there is any, then each chunk of its channel.\<close>

definition chunk_text :: "string \<Rightarrow> string" where
  "chunk_text bytes = json_text (ptyChunk_json (EncodeToString bytes))"

definition chunk_bytes :: "string \<Rightarrow> string option" where
  "chunk_bytes raw = (case Unmarshal (into_struct ptyChunk_fields) raw [] of None \<Rightarrow> None | Some d \<Rightarrow> DecodeString d)"

definition attach_sends :: "string \<Rightarrow> string list \<Rightarrow> string list" where
  "attach_sends retained chunks = (if retained = [] then [] else [chunk_text retained]) @ map chunk_text chunks"

text \<open>The bytes the client's terminal gets from a connection.\<close>

definition attach_output :: "go_error \<Rightarrow> go_error \<Rightarrow> string \<Rightarrow> string \<Rightarrow> string list \<times> go_error option" where
  "attach_output bad eof i bytes =
     (case client_Stream None eof (\<lambda>raw. if chunk_bytes raw = None then Some bad else None) i (read_responses (length bytes) bytes) of
        (evs, e) \<Rightarrow> (List.map_filter chunk_bytes evs, e))"

text \<open>\<open>handleInput\<close> on its raw parameters, and the parameters \<open>pumpInput\<close> sends for the bytes it has read.\<close>

definition input_text :: "string \<Rightarrow> string \<Rightarrow> string" where
  "input_text sel bytes = json_text (inputParams_json (sel, EncodeToString bytes))"

definition input_params :: "(string \<Rightarrow> go_error) \<Rightarrow> string \<Rightarrow> (string \<times> string result) result" where
  "input_params bad raw = (case params_of bad (into_struct inputParams_fields) ([], []) raw of Inl e \<Rightarrow> Inl e
     | Inr (sel, d) \<Rightarrow> Inr (sel, case DecodeString d of None \<Rightarrow> Inl (bad d) | Some bytes \<Rightarrow> Inr bytes))"

lemma chunk_bytes_text [simp]: "chunk_bytes (chunk_text bytes) = Some bytes"
  by (simp add: chunk_bytes_def chunk_text_def ptyChunk_payload.unmarshal_text)

lemma chunk_text_ok: "raw_ok (Some (chunk_text bytes))"
  using ptyChunk_payload.text_reads by (auto simp: raw_ok_def chunk_text_def)



section \<open>What is no UTF-8\<close>

text \<open>The strings of the parameters of a task.\<close>

definition param_strings :: "create_params \<Rightarrow> string list" where
  "param_strings p = [cp_Name p, cp_Provider p, cp_Mode p, cp_Cwd p, cp_Prompt p, cp_SessionMode p, cp_SessionRef p] @ cp_Args p @
     map fst (cp_Overrides p) @ map snd (cp_Overrides p)"

text \<open>C27: a task whose strings are not all UTF-8 is not the task that was asked for. The daemon decodes the parameters the
  client encoded without an error; they are the client's if and only if each of its strings is UTF-8. So a working
  directory whose name has other bytes, which a file system allows, becomes another directory, and an argument or a
  prompt another text, and nobody is told.\<close>

theorem params_arrive_iff_utf8:
  assumes "createParams_fits p" and "sorted (map fst (cp_Overrides p))"
  shows "\<exists>q. params_of bad (into_struct createParams_fields) zero_createParams (json_text (createParams_json p)) = Inr q \<and>
    cp_Cwd q = to_valid (cp_Cwd p) \<and> (q = p \<longleftrightarrow> list_all valid_utf8 (param_strings p))"
proof -
  have s: "sort_key fst (cp_Overrides p) = cp_Overrides p" using assms(2) by (simp add: sort_key_id_if_sorted)
  have m: "map f xs = xs \<longleftrightarrow> list_all (\<lambda>x. f x = x) xs" for f :: "'x \<Rightarrow> 'x" and xs by (induction xs) auto
  have pairs: "map (\<lambda>(k, v). (to_valid k, to_valid v)) xs = xs \<longleftrightarrow>
      list_all valid_utf8 (map fst xs) \<and> list_all valid_utf8 (map snd xs)" for xs
    by (auto simp: m list_all_iff valid_utf8_iff)
  have "createParams_view p = p \<longleftrightarrow> list_all valid_utf8 (param_strings p)"
    by (cases p) (use s pairs [of "cp_Overrides p"] in \<open>auto simp: createParams_view_def param_strings_def valid_utf8_iff m
      valid_utf8_iff [abs_def]\<close>)
  moreover have "cp_Cwd (createParams_view p) = to_valid (cp_Cwd p)" by (simp add: createParams_view_def)
  ultimately show ?thesis using create_rpc.params [OF assms(1), of bad] by blast
qed

theorem params_arrive_iff_utf8_witness:
  "\<exists>q. params_of (\<lambda>_. Err ''bad'') (into_struct createParams_fields) zero_createParams
      (json_text (createParams_json (sample_request\<lparr>cp_Cwd := CHR ''/'' # [CHR 0xFF]\<rparr>))) = Inr q \<and>
     cp_Cwd q = CHR ''/'' # replacement"
proof -
  let ?p = "sample_request\<lparr>cp_Cwd := CHR ''/'' # [CHR 0xFF]\<rparr>"
  have "createParams_fits ?p" "sorted (map fst (cp_Overrides ?p))"
    by (simp_all add: createParams_fits_def sample_request_def)
  from params_arrive_iff_utf8 [OF this, of "\<lambda>_. Err ''bad''"] obtain q where
    "params_of (\<lambda>_. Err ''bad'') (into_struct createParams_fields) zero_createParams (json_text (createParams_json ?p)) = Inr q"
    "cp_Cwd q = to_valid (cp_Cwd ?p)" by blast
  moreover have "to_valid (cp_Cwd ?p) = CHR ''/'' # replacement" by code_simp
  ultimately show ?thesis by metis
qed

text \<open>The same for a line of a log on its way to \<open>logs\<close>, \<open>attach\<close> or \<open>--follow\<close>.\<close>

lemma log_line_arrives:
  "Unmarshal (into_struct logLine_fields) (json_text (logLine_json l)) ([], []) = Some (to_valid (fst l), to_valid (snd l))"
  by (rule logLine_payload.unmarshal_text) simp

end
