(* ===== verification/JsonOut.thy ===== *)
theory JsonOut
  imports Wire Output
begin

text \<open>
  JSON that leaves the program or enters it outside the protocol: the indented output of \<open>--json\<close> (\<open>emitJSON\<close> of
  \<open>cli/root.go\<close>), the details of event rows (\<open>detail\<close> of \<open>supervisor/supervisor.go\<close>), the argument of a notification
  hook (\<open>daemon/notify.go\<close>) and the lines of Claude's output (\<open>initEvent\<close> of \<open>provider/claude/claude.go\<close>).
\<close>

section \<open>Indented values\<close>

abbreviation joined :: "string list \<Rightarrow> string \<Rightarrow> string" where
  "joined \<equiv> GoStrings.Join"

definition pad :: "nat \<Rightarrow> string" where
  "pad n = CHR 0x0A # replicate (2 * n) (CHR '' '')"

text \<open>\<open>SetIndent\<close> with two blanks: every element and member on a line of its own, an empty one on the line it starts.\<close>

definition padded_member :: "string \<Rightarrow> string \<Rightarrow> string" where
  "padded_member k raw = QT # escape k @ QT # CHR '':'' # CHR '' '' # raw"

fun indent_text :: "nat \<Rightarrow> json \<Rightarrow> string" where
  "indent_text n (JArray vs) = (if vs = [] then ''[]''
     else CHR ''['' # pad (Suc n) @ joined (map (indent_text (Suc n)) vs) (CHR '','' # pad (Suc n)) @ pad n @ '']'')"
| "indent_text n (JObject ms) = (if ms = [] then ''{}''
     else CHR ''{'' # pad (Suc n) @ joined (map (\<lambda>(k, v). padded_member k (indent_text (Suc n) v)) ms) (CHR '','' # pad (Suc n)) @
       pad n @ ''}'')"
| "indent_text n v = json_text v"

definition emitJSON :: "json \<Rightarrow> string" where
  "emitJSON v = indent_text 0 v @ [CHR 0x0A]"

text \<open>White space between the parts of a value changes nothing.\<close>

definition all_ws :: "string \<Rightarrow> bool" where
  "all_ws w \<longleftrightarrow> (\<forall>c \<in> set w. is_ws c)"

lemma all_ws_pad [simp]: "all_ws (pad n)"
  by (auto simp: all_ws_def pad_def is_ws_def)

lemma skip_all_ws: "all_ws w \<Longrightarrow> skip_ws (w @ s) = skip_ws s"
  by (induction w) (simp_all add: all_ws_def skip_ws_def)

lemma parse_value_ws: "all_ws w \<Longrightarrow> parse_value n (w @ s) = parse_value n s"
  by (cases n) (simp_all add: parse_value.simps skip_all_ws)

lemma no_more_ws: "all_ws w \<Longrightarrow> no_more s \<Longrightarrow> no_more (w @ s)"
  by (cases w) (auto simp: all_ws_def no_more_def is_ws_def is_digit_def)

lemma parse_items_padded:
  assumes "list_all2 reads raws vs" "raws \<noteq> []" "length (joined raws (CHR '','' # p)) < n" "all_ws p" "all_ws q"
  shows "parse_items n (p @ joined raws (CHR '','' # p) @ q @ CHR '']'' # t) = Some (vs, t)"
  using assms
proof (induction raws vs arbitrary: n rule: list_all2_induct)
  case (Cons raw raws v vs)
  obtain m where n: "n = Suc m" using Cons.prems(2) by (cases n) auto
  have r: "length raw \<le> m \<Longrightarrow> no_more u \<Longrightarrow> parse_value m (p @ raw @ u) = Some (v, u)" for u
    using Cons.hyps Cons.prems by (simp add: reads_def parse_value_ws)
  have q: "no_more (q @ CHR '']'' # t)" "skip_ws (q @ CHR '']'' # t) = CHR '']'' # t"
    using Cons.prems by (simp_all add: no_more_ws skip_all_ws)
  show ?case
  proof (cases raws)
    case Nil
    then show ?thesis using Cons.prems Cons.hyps r [OF _ q(1)] q(2) n by simp
  next
    case (Cons a b)
    then have "raws \<noteq> []" by simp
    then show ?thesis using Cons.prems Cons.IH [of m] r n by (simp add: Join_Cons)
  qed
qed simp

lemma parse_members_padded:
  assumes "list_all2 member_reads ms rs" "ms \<noteq> []" "all_ws p" "all_ws q"
    and "length (joined (map (\<lambda>(k, raw). padded_member k raw) ms) (CHR '','' # p)) < n"
  shows "parse_members n (p @ joined (map (\<lambda>(k, raw). padded_member k raw) ms) (CHR '','' # p) @ q @ CHR ''}'' # t) = Some (rs, t)"
  using assms
proof (induction ms rs arbitrary: n rule: list_all2_induct)
  case (Cons m ms r rs)
  obtain l where n: "n = Suc l" using Cons.prems by (cases n) auto
  obtain k raw where m: "m = (k, raw)" by (cases m)
  then obtain v where r: "r = (to_valid k, raw, v)" and raw: "reads raw v"
    using Cons.hyps(1) by (cases r) (auto simp: member_reads_def)
  have w: "skip_ws (CHR '' '' # raw @ u) = raw @ u" for u
    using raw skip_ws_id [of raw u] skip_all_ws [of "'' ''" "raw @ u"] by (simp add: reads_def all_ws_def is_ws_def)
  have p: "length raw \<le> l \<Longrightarrow> no_more u \<Longrightarrow> parse_value l (CHR '' '' # raw @ u) = Some (v, u)" for u
    using raw parse_value_ws [of "'' ''" l "raw @ u"] by (simp add: reads_def all_ws_def is_ws_def)
  have q: "no_more (q @ CHR ''}'' # t)" "skip_ws (q @ CHR ''}'' # t) = CHR ''}'' # t"
    using Cons.prems by (simp_all add: no_more_ws skip_all_ws)
  have s: "skip_ws (p @ QT # u) = QT # u" for u using Cons.prems by (simp add: skip_all_ws)
  show ?case
  proof (cases ms)
    case Nil
    then show ?thesis using Cons.prems Cons.hyps p [OF _ q(1)] q(2) n m r w s
      by (simp add: padded_member_def parse_chars_escape Let_def)
  next
    case (Cons a b)
    then have "map (\<lambda>(k, raw). padded_member k raw) ms \<noteq> []" "ms \<noteq> []" by simp_all
    then show ?thesis using Cons.prems Cons.IH [of l] p n m r w s
      by (simp add: Join_Cons padded_member_def parse_chars_escape Let_def)
  qed
qed simp


lemma reads_padded_array:
  assumes "list_all2 reads raws vs" "raws \<noteq> []" "all_ws p" "all_ws q"
  shows "reads (CHR ''['' # p @ joined raws (CHR '','' # p) @ q @ '']'') (JArray vs)"
proof (rule readsI [OF refl])
  fix n t assume n: "length (p @ joined raws (CHR '','' # p) @ q @ '']'') \<le> n" and "no_more t"
  obtain a b where raws: "raws = a # b" using assms(2) by (cases raws) auto
  then have a: "a \<noteq> []" "\<not> is_ws (hd a)" "hd a \<noteq> CHR '']''"
    using assms(1) by (auto simp: reads_def list_all2_Cons1)
  obtain u where "joined raws (CHR '','' # p) = a @ u" using raws by (cases b) auto
  then have "skip_ws (p @ joined raws (CHR '','' # p) @ q @ '']'' @ t) = hd a # tl a @ u @ q @ '']'' @ t"
    using a assms(3) skip_ws_id [OF a(1,2), of "u @ q @ '']'' @ t"] by (cases a) (simp_all add: skip_all_ws)
  then show "parse_value (Suc n) (CHR ''['' # (p @ joined raws (CHR '','' # p) @ q @ '']'') @ t) = Some (JArray vs, t)"
    using parse_items_padded [OF assms(1,2) _ assms(3,4), of n t] n a(3)
    by (simp add: parse_value.simps Let_def)
qed simp_all

lemma reads_padded_object:
  assumes "list_all2 member_reads ms rs" "ms \<noteq> []" "all_ws p" "all_ws q"
  shows "reads (CHR ''{'' # p @ joined (map (\<lambda>(k, raw). padded_member k raw) ms) (CHR '','' # p) @ q @ ''}'')
    (JObject (map (\<lambda>(k, _, v). (k, v)) rs))"
proof (rule readsI [OF refl])
  let ?J = "joined (map (\<lambda>(k, raw). padded_member k raw) ms) (CHR '','' # p)"
  fix n t assume n: "length (p @ ?J @ q @ ''}'') \<le> n" and "no_more t"
  obtain u where "?J = QT # u" using assms(2) by (cases ms; cases "tl ms") (auto simp: padded_member_def)
  then have "skip_ws (p @ ?J @ q @ ''}'' @ t) = QT # u @ q @ ''}'' @ t"
    using assms(3) by (simp add: skip_all_ws)
  then show "parse_value (Suc n) (CHR ''{'' # (p @ ?J @ q @ ''}'') @ t) = Some (JObject (map (\<lambda>(k, _, v). (k, v)) rs), t)"
    using parse_members_padded [OF assms, of n t] n
    by (simp add: parse_value.simps Let_def del: parse_members.simps)
qed simp_all

lemma reads_indent_text: "ints_only v \<Longrightarrow> reads (indent_text n v) (norm_json v)"
proof (induction n v rule: indent_text.induct)
  case (1 n vs)
  show ?case
  proof (cases "vs = []")
    case True
    then show ?thesis using reads_array [of "[]" "[]"] by (simp add: norm_json.simps)
  next
    case False
    then have "list_all2 reads (map (indent_text (Suc n)) vs) (map norm_json vs)"
      using 1 by (simp add: list_all2_map1 list_all2_map2 list_all2_same list_all_iff)
    from reads_padded_array [OF this _ all_ws_pad all_ws_pad] False show ?thesis by (simp add: norm_json.simps)
  qed
next
  case (2 n ms)
  show ?case
  proof (cases "ms = []")
    case True
    then show ?thesis using reads_object(1) [of "[]" "[]"] by (simp add: norm_json.simps object_text_def)
  next
    case False
    let ?f = "\<lambda>(k, v). (k, indent_text (Suc n) v)" and ?g = "\<lambda>(k, v). (to_valid k, indent_text (Suc n) v, norm_json v)"
    have "list_all2 member_reads (map ?f ms) (map ?g ms)"
      using 2 False by (auto simp: list_all2_map1 list_all2_map2 list_all2_same list_all_iff member_reads_def)
    from reads_padded_object [OF this _ all_ws_pad all_ws_pad, of "Suc n" n] False show ?thesis
      by (simp add: norm_json.simps comp_def split_def)
  qed
qed (simp_all only: indent_text.simps reads_json_text)

theorem parse_emitJSON: "ints_only v \<Longrightarrow> parse_json (emitJSON v) = Some (norm_json v)"
proof -
  assume v: "ints_only v"
  have "parse_value (Suc (length (emitJSON v))) (indent_text 0 v @ [CHR 0x0A]) = Some (norm_json v, [CHR 0x0A])"
    using reads_indent_text [OF v, of 0] by (simp add: reads_def emitJSON_def no_more_def is_digit_def)
  then show "parse_json (emitJSON v) = Some (norm_json v)"
    by (simp add: parse_json_def emitJSON_def [symmetric]) (simp add: emitJSON_def skip_ws_def is_ws_def)
qed


section \<open>What \<open>--json\<close> prints\<close>

text \<open>The client encodes the structs of \<open>cli/types.go\<close> again, with the tags they were decoded by. An instant keeps the
  offset it came with.\<close>

definition cliTaskInfo_json :: "(time \<Rightarrow> int) \<Rightarrow> cli_task_info \<Rightarrow> json" where
  "cliTaskInfo_json zone t = JObject ([(''id'', JText (ct_ID t)), (''name'', JText (ct_Name t)), (''provider'', JText (ct_Provider t)),
     (''mode'', JText (ct_Mode t)), (''status'', JText (ct_Status t)), (''cwd'', JText (ct_Cwd t))] @
     omit_text ''session_ref'' (ct_SessionRef t) @
     [(''current_attempt'', JDec (ct_CurrentAttempt t)), (''total_attempts'', JDec (ct_TotalAttempts t))] @
     omit_ptr ''next_wake_at'' (time_json zone) (ct_NextWakeAt t) @ omit_text ''last_outcome'' (ct_LastOutcome t) @
     omit_text ''exit_reason'' (ct_ExitReason t) @
     [(''created_at'', time_json zone (ct_CreatedAt t)), (''updated_at'', time_json zone (ct_UpdatedAt t))])"

definition cliGetResult_json :: "(time \<Rightarrow> int) \<Rightarrow> cli_task_info \<times> attempt_info list \<Rightarrow> json" where
  "cliGetResult_json zone r = JObject [(''task'', cliTaskInfo_json zone (fst r)), (''attempts'', JArray (map (attemptInfo_json zone) (snd r)))]"

lemma norm_omit_text: "norm_members (omit_text k (to_valid s)) = norm_members (omit_text k s)"
  by (simp add: omit_text_def omit_def norm_json.simps)

lemma norm_text: "norm_json (JText (to_valid s)) = norm_json (JText s)"
  by (simp add: norm_json.simps)

lemma norm_members_append: "norm_members (a @ b) = norm_members a @ norm_members b"
  by (simp add: norm_members_def)

lemma norm_cliTaskInfo: "norm_json (cliTaskInfo_json zone (taskInfo_view t)) = norm_json (taskInfo_json zone t)"
  by (simp add: cliTaskInfo_json_def taskInfo_json_def taskInfo_view_def norm_object norm_members_append norm_omit_text norm_text)

lemma norm_attempt_view: "norm_json (attemptInfo_json zone (attemptInfo_view a)) = norm_json (attemptInfo_json zone a)"
  by (simp add: attemptInfo_json_def attemptInfo_view_def norm_object norm_members_append norm_omit_text)

lemma norm_cliGetResult:
  "norm_json (cliGetResult_json zone (taskInfo_view t, map attemptInfo_view as)) = norm_json (getResult_json zone (t, as))"
  by (simp add: cliGetResult_json_def getResult_json_def norm_object norm_cliTaskInfo norm_json.simps(2) norm_attempt_view comp_def)

lemma ints_cliGetResult:
  assumes "taskInfo_fits zone t" "list_all (attemptInfo_fits zone) as"
  shows "ints_only (cliGetResult_json zone (taskInfo_view t, map attemptInfo_view as))"
proof -
  have "ints_only (cliTaskInfo_json zone (taskInfo_view t))"
    using assms(1) by (simp add: cliTaskInfo_json_def taskInfo_view_def taskInfo_fits_def ints)
  moreover have "attemptInfo_fits zone (attemptInfo_view a)" if "attemptInfo_fits zone a" for a
    using that by (simp add: attemptInfo_fits_def attemptInfo_view_def)
  then have "list_all ints_only (map (attemptInfo_json zone) (map attemptInfo_view as))"
    using assms(2) attempt_payload.enc_ints by (auto simp: list_all_iff)
  ultimately show ?thesis by (simp add: cliGetResult_json_def)
qed

section \<open>Details of event rows (\<open>supervisor.go\<close>)\<close>

fun val_json :: "json_val \<Rightarrow> json" where
  "val_json (json_val.JInt i) = JDec i"
| "val_json (JStr s) = JText s"
| "val_json (JBool b) = JBoolean b"

text \<open>\<open>detail\<close>: a map is written in the order of its keys. What the program puts into one always marshals.\<close>

definition detail :: "(string \<times> json_val) list \<Rightarrow> string" where
  "detail kvs = json_text (JObject (map (\<lambda>(k, v). (k, val_json v)) (sort_key fst kvs)))"

definition detail_fits :: "(string \<times> json_val) list \<Rightarrow> bool" where
  "detail_fits kvs \<longleftrightarrow> (\<forall>(k, v) \<in> set kvs. case v of json_val.JInt i \<Rightarrow> in_i64 i | _ \<Rightarrow> True)"

lemma detail_reads:
  assumes "detail_fits kvs"
  shows "parse_json (detail kvs) = Some (JObject (map (\<lambda>(k, v). (to_valid k, norm_json (val_json v))) (sort_key fst kvs)))"
proof -
  have "ints_only (val_json v)" if "(k, v) \<in> set kvs" for k v
    using assms that by (cases v) (fastforce simp: detail_fits_def ints)+
  then have "ints_only (JObject (map (\<lambda>(k, v). (k, val_json v)) (sort_key fst kvs)))"
    by (auto simp: list_all_iff)
  from parse_json_text [OF this] show ?thesis
    unfolding detail_def by (simp add: norm_json.simps(3) comp_def split_def)
qed

section \<open>The argument of a notification hook (\<open>notify.go\<close>)\<close>

text \<open>\<open>fireHook\<close> appends the event's JSON to the configured command, and starts nothing for an event it cannot marshal.\<close>

definition hook_command :: "(time \<Rightarrow> int) \<Rightarrow> string list \<Rightarrow> task_event \<Rightarrow> string list option" where
  "hook_command zone argv ev =
     (if pred_option (\<lambda>t. year_ok (t + zone t * Second)) (te_NextWakeAt ev) \<and> year_ok (te_TS ev + zone (te_TS ev) * Second)
      then Some (argv @ [json_text (taskEvent_json zone ev)]) else None)"

lemma hook_gets_event:
  assumes "taskEvent_fits zone ev"
  shows "\<exists>arg. hook_command zone argv ev = Some (argv @ [arg]) \<and>
    Unmarshal (into_struct taskEvent_fields) arg zero_taskEvent = Some (taskEvent_view ev) \<and> (\<forall>b \<in> set arg. 32 \<le> byte b)"
proof -
  have "hook_command zone argv ev = Some (argv @ [json_text (taskEvent_json zone ev)])"
    using assms by (auto simp: hook_command_def taskEvent_fits_def time_fits_def pred_option_def)
  then show ?thesis
    using event_payload.unmarshal_text [OF assms] event_payload.text_on_one_line [OF assms] by blast
qed

section \<open>Claude's init event (\<open>claude.go\<close>)\<close>

definition initEvent_fields :: "(json, string \<times> string \<times> string) fields" where
  "initEvent_fields = [(''type'', field fst apfst into_text), (''subtype'', field (fst \<circ> snd) (apsnd \<circ> apfst) into_text),
     (''session_id'', field (snd \<circ> snd) (apsnd \<circ> apsnd) into_text)]"

definition decode_initEvent :: "string \<Rightarrow> (string \<times> string \<times> string) option" where
  "decode_initEvent line = Unmarshal (into_struct initEvent_fields) line ([], [], [])"


text \<open>Members that name no field are skipped.\<close>

lemma into_members_skip:
  "list_all (\<lambda>(k, v). find_field fs (to_valid k) = None) ms \<Longrightarrow> into_members fs (norm_members ms) z = Some z"
  by (induction ms) auto

lemma into_members_then:
  "into_members fs (norm_members a) z = Some z' \<Longrightarrow> into_members fs (norm_members (a @ b)) z = into_members fs (norm_members b) z'"
  by (induction a arbitrary: z) (auto split: option.splits)

definition init_line :: "string \<Rightarrow> (string \<times> json) list \<Rightarrow> string" where
  "init_line sid extra = json_text (JObject ([(''type'', JText ''system''), (''subtype'', JText ''init''), (''session_id'', JText sid)] @ extra))"

definition unrelated :: "(string \<times> json) list \<Rightarrow> bool" where
  "unrelated extra \<longleftrightarrow> list_all (\<lambda>(k, v). ints_only v \<and> find_field initEvent_fields (to_valid k) = None) extra"

lemma decode_init_line:
  assumes "unrelated extra"
  shows "decode_initEvent (init_line sid extra) = Some (''system'', ''init'', to_valid sid)" "\<forall>b \<in> set (init_line sid extra). 32 \<le> byte b"
proof -
  let ?ms = "[(''type'', JText ''system''), (''subtype'', JText ''init''), (''session_id'', JText sid)]"
  have i: "ints_only (JObject (?ms @ extra))" using assms by (auto simp: unrelated_def list_all_iff)
  then show "\<forall>b \<in> set (init_line sid extra). 32 \<le> byte b"
    unfolding init_line_def using json_text_printable by blast
  have "into_members initEvent_fields (norm_members ?ms) ([], [], []) = Some (''system'', ''init'', to_valid sid)"
    by (simp add: initEvent_fields_def codec struct_simps)
  moreover have "into_members initEvent_fields (norm_members extra) z = Some z" for z
    using assms by (intro into_members_skip) (auto simp: unrelated_def list_all_iff)
  ultimately have "into_members initEvent_fields (norm_members (?ms @ extra)) ([], [], []) = Some (''system'', ''init'', to_valid sid)"
    by (simp only: into_members_then)
  then show "decode_initEvent (init_line sid extra) = Some (''system'', ''init'', to_valid sid)"
    unfolding decode_initEvent_def init_line_def Unmarshal_def parse_json_text [OF i] by (simp add: into_struct_object)
qed

text \<open>The output of an attempt as the classification gets it.\<close>

definition stdout_tail :: "string \<Rightarrow> int \<Rightarrow> input" where
  "stdout_tail out scan = \<lparr>in_ExitCode = 0, in_Stdout = tailFile (Inr out) scan, in_Stderr = []\<rparr>"



text \<open>What \<open>status --json\<close> prints is what the daemon wrote. The client decodes the task and its attempts into its own
  structs and encodes those again, indented; a script that reads its output gets exactly the value that the daemon's
  text stands for, with the same members, the same texts and the same instants.\<close>

theorem status_json_is_the_daemons:
  assumes "taskInfo_fits zone t" and "list_all (attemptInfo_fits zone) as"
  shows "\<exists>r. Unmarshal (into_struct getResult_fields) (json_text (getResult_json zone (t, as))) (zero_taskInfo, []) = Some r \<and>
    parse_json (emitJSON (cliGetResult_json zone r)) = parse_json (json_text (getResult_json zone (t, as)))"
proof -
  have f: "taskInfo_fits zone (fst (t, as)) \<and> list_all (attemptInfo_fits zone) (snd (t, as))" using assms by simp
  have "parse_json (emitJSON (cliGetResult_json zone (taskInfo_view t, map attemptInfo_view as))) =
      parse_json (json_text (getResult_json zone (t, as)))"
    unfolding parse_emitJSON [OF ints_cliGetResult [OF assms]] parse_json_text [OF get_payload.enc_ints [OF f]] norm_cliGetResult ..
  then show ?thesis using get_payload.unmarshal_text [OF f] by simp
qed

end
