(* ===== verification/Spec2Isabelle.thy ===== *)
theory Spec2Isabelle
  imports Startup Process RpcProps JsonOut
begin

text \<open>
  A verification development of \<open>defib\<close>, a supervisor that keeps coding-agent tasks alive across rate limits and
  restarts. Source paths are relative to \<open>src/internal\<close>; \<open>architecture.md\<close> and the other documents are those
  of \<open>src/docs\<close>.

  \<^bold>\<open>How the program works.\<close> A command (\<open>cli\<close>) talks over a Unix socket (\<open>ipc\<close>) to one daemon (\<open>daemon\<close>), which
  it starts when none answers. The daemon keeps every task as a row with its attempts and events (\<open>store\<close>) and runs
  one supervisor per live task (\<open>supervisor\<close>), a state machine fed by a channel of events: user actions, timers
  (\<open>scheduler\<close>), the availability probe and the exit of the child. For an attempt the supervisor asks the provider's
  adapter (\<open>provider\<close>) for a command line, starts it, and when it exits classifies the tails of its logs with a rule
  engine (\<open>detect\<close>): success ends the task, a fatal outcome or a cap (\<open>scheduler/caps.go\<close>) fails it, anything else
  makes it wait until a computed time (\<open>scheduler/wake.go\<close>) and resume the same session. Output goes through a
  redactor (\<open>logging\<close>) into log files; configuration is resolved in layers (\<open>config\<close>); after a restart the daemon
  reconciles the rows (\<open>daemon/reconcile.go\<close>). The tables and the transition table are documented in
  \<open>architecture.md\<close>.

  \<^bold>\<open>Conventions.\<close> A Go struct is a record with the field names of the source (prefixed where they would clash), a
  fallible operation returns \<open>go_error + 'a\<close> with the wrapped error texts of the source, a method that changes state
  returns the new state. Integers are unbounded except where the code can overflow, there \<open>i64\<close> writes the wrap-around
  out; \<open>float64\<close> arithmetic is exact rational arithmetic rounded by \<open>fl\<close> (\<open>Float64\<close>). Strings are byte
  strings. The clock, random draws, new identifiers, the start and the signalling of children, and the faults of a
  transaction are streams indexed by a counter \<open>w_step\<close> in the world (\<open>deps\<close>, \<open>outside\<close>), so a run is a function of
  them. Goroutines are steps that interleave. What is not part of the program is a parameter: RE2 (\<open>libs\<close>,
  \<open>finder\<close>), TOML (\<open>cfg_libs\<close>), the JSON of the configuration snapshot, the renderings of \<open>strconv\<close>'s floats, time layouts of
  user rules, files and sockets.

  \<^bold>\<open>The theories and what they model\<close>, from the ground up:

  \<^item> \<open>Prelude\<close>: the error values, \<open>i64\<close>, stable sorting, the hint collections. \<open>GoStrings\<close>, \<open>GoTime\<close>, \<open>Float64\<close>: what
    the code uses of Go's \<open>strings\<close>, \<open>strconv\<close>, \<open>time\<close> and \<open>float64\<close>.
  \<^item> \<open>Paths\<close> (\<open>paths\<close>): directories, \<open>filepath.Clean\<close>, the files of an attempt and that they stay inside the task's
    directory. \<open>Ipc\<close> (\<open>ipc\<close>): envelopes, dispatch, the answers on a connection, the client's call, and the checks before
    listening; a call returns what the handler returned. \<open>Server\<close>: the running server and the main function around it as the
    step relations \<open>conn_step\<close>, \<open>server_step\<close>, \<open>process_step\<close>: every connection is answered in order, a shutdown never
    waits for a handler, and its own answer may be lost.
  \<^item> \<open>Scheduler\<close> (\<open>scheduler\<close>): \<open>NextWake\<close> with its clamped backoff (equal to the documented formula, and inside its
    window), \<open>ExceededCap\<close> (with the overflow of its sum), and the timers with late expiries, behind the locale
    \<open>wake_timers\<close>: a canceled or replaced arm never fires.
  \<^item> \<open>Detect\<close> (\<open>detect\<close>): rules, \<open>NewEngine\<close>, \<open>Classify\<close>, the reset extraction and \<open>Merge\<close>.
  \<^item> \<open>Store\<close> (\<open>store\<close>): the tables with their constraints, every statement, the transaction (locale \<open>atomic_update\<close>:
    all or nothing under every fault), reads with the parsing of timestamps, migrations; the integrity of every history.
  \<^item> \<open>Provider\<close> (\<open>provider\<close>): the interface as locales \<open>adapter\<close> and \<open>cli_adapter\<close> with the Claude, Copilot and fake
    adapters as interpretations, the built-in rules, the registry, and the script interpreter of the fake.
  \<^item> \<open>Supervisor\<close> (\<open>supervisor\<close>): \<open>Handle\<close> with all its branches, \<open>Run\<close>, and the inductive relation \<open>lifecycle\<close>, the
    transition table of \<open>architecture.md\<close>. \<open>SupervisorProps\<close>: \<open>Handle\<close> refines the table, keeps database and memory
    equal, keeps the types of the task's fields, respects the caps and, with an attempt cap, ends.
  \<^item> \<open>Config\<close> (\<open>config\<close>): the settings, the scalar keys (locale \<open>scalar_table\<close>: a lawful family of lenses), the layers and
    their precedence, validation.
  \<^item> \<open>FanOut\<close> (\<open>daemon/bus.go\<close>, \<open>daemon/interactive.go\<close>): bounded fan-out to subscribers that may be slow (locale
    \<open>fan_out\<close>, interpreted for both), with the replayed tail of a terminal.
  \<^item> \<open>Daemon\<close> (\<open>daemon.go\<close>, \<open>policy.go\<close>, \<open>notify.go\<close>, \<open>probe.go\<close>, \<open>reconcile.go\<close>) and \<open>Methods\<close> (\<open>methods.go\<close>): the live
    runtimes, a turn of a task's loop, announcing, the probe's backoff, recovery, and every handler of the API, cut
    where it waits for another goroutine. \<open>DaemonSteps\<close>: the relation \<open>dstep\<close> that interleaves loops, children, timers,
    requests and restarts, its invariant \<open>daemon_ok\<close> and \<open>reachable\<close>. \<open>DaemonProps\<close>: what the operations guarantee.
  \<^item> \<open>Output\<close> (\<open>logging/redact.go\<close>, \<open>process/follow.go\<close>, capture): the redactor, the line-buffered writer against a
    reference that splits the whole text, the bounded capture, the follower. \<open>Process\<close> (\<open>process\<close>, \<open>spawn\<close> and
    \<open>spawnPTY\<close> of \<open>daemon.go\<close>): the life of a child as the inductive \<open>proc_step\<close> with its streams, and the running of the
    availability probe.
  \<^item> \<open>Cli\<close> (\<open>cli\<close>): exit codes, reaching and starting the daemon, every command from its parsed flags to what it prints, the
    editing of the configuration file. \<open>CliProps\<close>: client and daemon together. \<open>Service\<close> (\<open>service\<close>): rendering, installing
    and removing the unit files, behind the locale \<open>service_manager\<close> with systemd and launchd as interpretations.
    \<open>CliTools\<close>: interactive attach, \<open>doctor\<close>, the service commands, the remaining commands.
  \<^item> \<open>Json\<close> (what the code uses of \<open>encoding/json\<close>, \<open>utf8\<close> and \<open>base64\<close>), \<open>Codec\<close> (how \<open>Marshal\<close> and \<open>Unmarshal\<close> map tagged
    structs): writing and reading are inverse but for bytes that are no UTF-8, and what is written stays on its line.
    \<open>Wire\<close> (\<open>daemon/methods.go\<close> and \<open>bus.go\<close> against \<open>cli/types.go\<close>): both sides of every payload, each an interpretation
    of the locale \<open>payload\<close>. \<open>Rpc\<close> (\<open>ipc.go\<close>, \<open>server.go\<close>, \<open>client.go\<close>, \<open>RegisterMethods\<close>): envelopes as lines, the bytes of
    a connection, handlers from raw parameters to a raw result, and the locale \<open>rpc_method\<close>: a call returns what the
    handler returned. \<open>RpcProps\<close>: calls, messages and terminal bytes across the wire. \<open>JsonOut\<close>: the indented output of
    \<open>--json\<close>, the details of event rows, the argument of a hook, and Claude's init event.
  \<^item> \<open>Startup\<close> (\<open>logging/logging.go\<close>, \<open>version\<close>, \<open>Open\<close> of \<open>store.go\<close>, \<open>New\<close> of \<open>daemon.go\<close>, \<open>cmd/defib/main.go\<close>): the
    daemon's start as the sequence of its steps with every failure, and two processes that start on one socket.

  \<^bold>\<open>The properties\<close>, numbered in their theories, go from the supervisor (refinement of the transition table, the
  database as memory, caps, termination) over the daemon's interleavings (live tasks match their rows, no step loses or
  revives a task, recovery) and the layers they use (wake times, rule priority, resets in the future, integrity, session
  reuse) to output (no secret in a log, exits reported with the whole output) and the command line (exit codes,
  announced unattended runs, edits of single keys). Some properties state what the code does where it departs from its
  intention: a second child after pause and resume, lost loops after a failed transaction, names shared by concurrent
  creates, caps ignored by recovery, flags that miss the project's provider, two daemons that both pass the guard, a
  logging level that validates and stops the daemon, a lost answer to a shutdown, directories and texts that change on
  the wire, a session id that is looked for where it is not.
  Every property with hypotheses has a witness at concrete values; the sample tasks and daemons (\<open>sample_task\<close>,
  \<open>sample_world\<close>, \<open>sample_daemon\<close>) are those of the fake provider.

  \<^bold>\<open>Loops and bounds.\<close> Loops over data are recursive functions with termination proofs. Only the JSON parser and the
  client's decoder count down a bound, the length of their input: every value and every level of nesting takes a byte, and
  the round trips show that it is enough for what is written. The waiting
  loops of the client (\<open>dial_loop\<close>, \<open>gone_loop\<close>, \<open>ready_loop\<close>) are partial functions whose result is \<open>None\<close> when they do
  not return, with theorems that they return once the clock has passed the deadline. The bounds in the model are
  those of the code: 64 events of a bus subscriber and 256 chunks of a terminal's, a mebibyte for a line of a log and 16
  for a request, five and ten seconds for the daemon to come and go.

  \<^bold>\<open>Not modelled\<close>: flag parsing, the widths of table columns; raw terminal modes and the sizes of windows; the
  SQL texts (their effect on the tables is modelled); the system calls behind files, sockets and
  processes beyond their outcomes; the records of the daemon's own structured log. Go's order of iterating over
  maps and of sorting equal elements with \<open>sort.Slice\<close> is unspecified; the model takes the list's.
\<close>

end
